theory Spec2Isabelle
  imports Main "HOL-Library.AList"
begin

section \<open>Data model\<close>

text \<open>
  The handler of \<^verbatim>\<open>fn.go\<close> works on Kubernetes-style unstructured documents: Go values of
  type \<^verbatim>\<open>map[string]any\<close> that came out of a JSON decoder. A document is modelled by
  the \<open>json\<close> datatype; a Go map with string keys is an association list that is only ever
  read through \<open>map_of\<close> (the first binding of a key is the binding). Numbers are never
  inspected by the code and are kept as integers.
\<close>

datatype json =
    JNull
  | JBool bool
  | JNumber int
  | JString string
  | JArray "json list"
  | JObject "(string \<times> json) list"

type_synonym object = "(string \<times> json) list"

text \<open>
  \<^verbatim>\<open>unstructured.Unstructured{Object map[string]interface{}}\<close>, embedded both in
  \<^verbatim>\<open>composed.Unstructured\<close> (a member) and in \<^verbatim>\<open>composite.Unstructured\<close> (the primary).
  \<open>None\<close> is the nil map.
\<close>

record Unstructured =
  Object :: "object option"

text \<open>\<^verbatim>\<open>resource.Composite\<close>, \<^verbatim>\<open>resource.ObservedComposed\<close> and \<^verbatim>\<open>resource.DesiredComposed\<close> of
  the function SDK. The handler reads only the \<^verbatim>\<open>Resource\<close> field of each; the zero value of
  \<^verbatim>\<open>Ready\<close> (a Go string type) is the empty string.\<close>

record Composite =
  xr_Resource :: Unstructured
  xr_ConnectionDetails :: "(string \<times> string) list"

record ObservedComposed =
  oc_Resource :: Unstructured
  oc_ConnectionDetails :: "(string \<times> string) list"

record DesiredComposed =
  dc_Resource :: Unstructured
  dc_Ready :: string

type_synonym observed_set = "string \<rightharpoonup> ObservedComposed"
type_synonym desired_set = "string \<rightharpoonup> DesiredComposed"

section \<open>Constants\<close>

definition ProtectionLabelBlockDeletion :: string where
  "ProtectionLabelBlockDeletion = ''protection.fn.crossplane.io/block-deletion''"

definition ProtectionLabelEnabled :: string where
  "ProtectionLabelEnabled = ''protection.fn.crossplane.io/enabled''"

text \<open>Modelled from the spec: the constants \<^verbatim>\<open>Group\<close>, \<^verbatim>\<open>Version\<close>, \<^verbatim>\<open>UsageKind\<close> and
  \<^verbatim>\<open>ClusterUsageKind\<close> belong to the imported package \<^verbatim>\<open>protection/v1beta1\<close>, which is not
  part of the source file. The two kinds are the literal strings the spec names; group and
  version are the fixed strings of that API package.\<close>

definition protectionv1beta1_Group :: string where
  "protectionv1beta1_Group = ''protection.crossplane.io''"

definition protectionv1beta1_Version :: string where
  "protectionv1beta1_Version = ''v1beta1''"

definition UsageKind :: string where
  "UsageKind = ''Usage''"

definition ClusterUsageKind :: string where
  "ClusterUsageKind = ''ClusterUsage''"

definition ProtectionGroupVersion :: string where
  "ProtectionGroupVersion = protectionv1beta1_Group @ ''/'' @ protectionv1beta1_Version"

section \<open>Library functions the handler calls\<close>

subsection \<open>Field access on unstructured documents\<close>

text \<open>The nil map reads like the empty map.\<close>

definition objectOf :: "Unstructured \<Rightarrow> object" where
  "objectOf u = (case Object u of None \<Rightarrow> [] | Some obj \<Rightarrow> obj)"

text \<open>\<^verbatim>\<open>unstructured.NestedFieldNoCopy\<close>: walk a path of field names. \<open>None\<close> stands for both
  of its failures (a field is missing, or a value on the way is not a map); the getters
  below treat the two alike.\<close>

fun NestedField :: "json \<Rightarrow> string list \<Rightarrow> json option" where
  "NestedField v [] = Some v"
| "NestedField (JObject m) (f # fs) =
     (case map_of m f of None \<Rightarrow> None | Some v \<Rightarrow> NestedField v fs)"
| "NestedField _ (f # fs) = None"

text \<open>\<^verbatim>\<open>getNestedString\<close>: the empty string unless the path leads to a string.\<close>

definition getNestedString :: "object \<Rightarrow> string list \<Rightarrow> string" where
  "getNestedString obj path =
     (case NestedField (JObject obj) path of Some (JString s) \<Rightarrow> s | _ \<Rightarrow> [])"

definition GetAPIVersion :: "Unstructured \<Rightarrow> string" where
  "GetAPIVersion u = getNestedString (objectOf u) [''apiVersion'']"

definition GetKind :: "Unstructured \<Rightarrow> string" where
  "GetKind u = getNestedString (objectOf u) [''kind'']"

definition GetName :: "Unstructured \<Rightarrow> string" where
  "GetName u = getNestedString (objectOf u) [''metadata'', ''name'']"

definition GetNamespace :: "Unstructured \<Rightarrow> string" where
  "GetNamespace u = getNestedString (objectOf u) [''metadata'', ''namespace'']"

text \<open>\<^verbatim>\<open>GetLabels\<close> is \<^verbatim>\<open>NestedNullCoercingStringMap(u.Object, "metadata", "labels")\<close> with
  the error dropped: the labels as a map from string to string, in which a label whose
  value is \<^verbatim>\<open>null\<close> reads as the empty string. It is the nil map (which reads like the empty
  one) when the field is missing, is \<^verbatim>\<open>null\<close> or another value that is not a map, or holds
  a value that is neither a string nor \<^verbatim>\<open>null\<close>.\<close>

definition isString :: "json option \<Rightarrow> bool" where
  "isString v = (case v of Some (JString _) \<Rightarrow> True | _ \<Rightarrow> False)"

definition isStringOrNull :: "json option \<Rightarrow> bool" where
  "isStringOrNull v = (case v of Some (JString _) \<Rightarrow> True | Some JNull \<Rightarrow> True | _ \<Rightarrow> False)"

definition GetLabels :: "Unstructured \<Rightarrow> (string \<rightharpoonup> string)" where
  "GetLabels u =
     (case NestedField (JObject (objectOf u)) [''metadata'', ''labels''] of
        Some (JObject m) \<Rightarrow>
          if list_all (\<lambda>k. isStringOrNull (map_of m k)) (map fst m)
          then (\<lambda>k. case map_of m k of
                       Some (JString s) \<Rightarrow> Some s
                     | Some JNull \<Rightarrow> Some []
                     | _ \<Rightarrow> None)
          else Map.empty
      | _ \<Rightarrow> Map.empty)"

text \<open>\<^verbatim>\<open>fieldpath.Pave(obj).GetValueInto(path, &labels)\<close> with \<^verbatim>\<open>labels\<close> of type
  \<^verbatim>\<open>map[string]any\<close>: look the path up (an error when a segment is missing or a value on
  the way is not an object), then pass the value through JSON into the map. A JSON
  object fills the map, \<^verbatim>\<open>null\<close> leaves it nil, anything else is a decoding error. The
  path string \<^verbatim>\<open>"metadata.labels"\<close> is given by its segments.\<close>

definition GetValueInto :: "object \<Rightarrow> string list \<Rightarrow> string + object" where
  "GetValueInto obj path =
     (case NestedField (JObject obj) path of
        None \<Rightarrow> Inl ''no such field''
      | Some (JObject m) \<Rightarrow> Inr m
      | Some JNull \<Rightarrow> Inr []
      | Some _ \<Rightarrow> Inl ''json: cannot unmarshal into Go value of type map[string]interface {}'')"

subsection \<open>\<^verbatim>\<open>strings.EqualFold\<close>\<close>

text \<open>The byte loop of \<^verbatim>\<open>strings.EqualFold\<close>: equal bytes match, and so do an upper-case
  ASCII letter and its lower-case form. Go leaves this loop for a rune-wise comparison
  when it meets a byte above 127; here such a byte matches only itself. That agrees with
  Go whenever one argument is ASCII and has none of the letters k and s (the only ASCII
  letters with a fold partner outside ASCII), as the literal \<^verbatim>\<open>"true"\<close> of both call
  sites is.\<close>

fun EqualFold :: "string \<Rightarrow> string \<Rightarrow> bool" where
  "EqualFold [] [] = True"
| "EqualFold (sr # s) (tr # t) =
     (if tr = sr then EqualFold s t
      else
        let lo = (if (of_char tr :: nat) < of_char sr then tr else sr);
            hi = (if (of_char tr :: nat) < of_char sr then sr else tr)
        in if (65 :: nat) \<le> of_char lo \<and> (of_char lo :: nat) \<le> 90
              \<and> (of_char hi :: nat) = of_char lo + 32
           then EqualFold s t
           else False)"
| "EqualFold _ _ = False"

section \<open>The helper functions of \<^verbatim>\<open>fn.go\<close>\<close>

text \<open>\<^verbatim>\<open>ProtectXR\<close> (lines 115-123).\<close>

definition ProtectXR :: "Unstructured \<Rightarrow> bool" where
  "ProtectXR dc =
     (case GetLabels dc ProtectionLabelBlockDeletion of
        Some val \<Rightarrow> EqualFold val ''true''
      | None \<Rightarrow> False)"

text \<open>\<^verbatim>\<open>MatchLabel\<close> (lines 131-146): the type assertion \<^verbatim>\<open>labels[label].(string)\<close> fails on a
  missing key and on a value that is not a string.\<close>

definition MatchLabel :: "Unstructured \<Rightarrow> string \<Rightarrow> bool" where
  "MatchLabel u label =
     (case Object u of
        None \<Rightarrow> False
      | Some obj \<Rightarrow>
          (case GetValueInto obj [''metadata'', ''labels''] of
             Inl err \<Rightarrow> False
           | Inr labels \<Rightarrow>
               (case map_of labels label of
                  Some (JString val) \<Rightarrow> EqualFold val ''true''
                | _ \<Rightarrow> False)))"

text \<open>\<^verbatim>\<open>ProtectResource\<close> (lines 126-128).\<close>

definition ProtectResource :: "Unstructured \<Rightarrow> string \<Rightarrow> bool" where
  "ProtectResource dc label = MatchLabel dc label"

text \<open>\<^verbatim>\<open>GenerateUsage\<close> (lines 149-181). The map literals are written in the order of the
  source; \<^verbatim>\<open>fmt.Sprintf\<close> with one \<^verbatim>\<open>%s\<close> is a concatenation.\<close>

definition GenerateUsage :: "Unstructured \<Rightarrow> json" where
  "GenerateUsage u =
     (let namespace = GetNamespace u;
          usageType = (if namespace = [] then ClusterUsageKind else UsageKind);
          resourceRef =
            (if namespace = [] then JObject [(''name'', JString (GetName u))]
             else JObject [(''name'', JString (GetName u)),
                           (''namespace'', JString (GetNamespace u))])
      in JObject
           [(''apiVersion'', JString ProtectionGroupVersion),
            (''kind'', JString usageType),
            (''metadata'', JObject [(''name'', JString (GetName u @ ''-function-protection''))]),
            (''spec'', JObject
               [(''of'', JObject
                   [(''apiVersion'', JString (GetAPIVersion u)),
                    (''kind'', JString (GetKind u)),
                    (''resourceRef'', resourceRef)]),
                (''reason'', JString (''Created by function-deletion-protection via label ''
                                       @ ProtectionLabelBlockDeletion))])])"

text \<open>\<^verbatim>\<open>GenerateXRUsage\<close> (lines 184-216).\<close>

definition GenerateXRUsage :: "Unstructured \<Rightarrow> json" where
  "GenerateXRUsage u =
     (let namespace = GetNamespace u;
          usageType = (if namespace = [] then ClusterUsageKind else UsageKind);
          resourceRef =
            (if namespace = [] then JObject [(''name'', JString (GetName u))]
             else JObject [(''name'', JString (GetName u)),
                           (''namespace'', JString (GetNamespace u))])
      in JObject
           [(''apiVersion'', JString ProtectionGroupVersion),
            (''kind'', JString usageType),
            (''metadata'', JObject [(''name'', JString (GetName u @ ''-function-protection''))]),
            (''spec'', JObject
               [(''of'', JObject
                   [(''apiVersion'', JString (GetAPIVersion u)),
                    (''kind'', JString (GetKind u)),
                    (''resourceRef'', resourceRef)]),
                (''reason'', JString (''deletion blocked by function-deletion-protection via label ''
                                       @ ProtectionLabelBlockDeletion))])])"

section \<open>The environment of the handler\<close>

text \<open>Go errors are modelled by their messages. \<^verbatim>\<open>errors.Wrap(err, msg)\<close> is the error whose
  message is \<^verbatim>\<open>msg\<close>, a colon and the message of \<^verbatim>\<open>err\<close>.\<close>

definition Wrap :: "string \<Rightarrow> string \<Rightarrow> string" where
  "Wrap err msg = msg @ '': '' @ err"

text \<open>The request, as the handler sees it: the tag of its metadata and what each of the
  three getters of the SDK's \<^verbatim>\<open>request\<close> package returns for it (an error or the decoded
  value). The field names are the getters' names.\<close>

record RunFunctionRequest =
  req_Tag :: string
  GetObservedCompositeResource :: "string + Composite"
  GetObservedComposedResources :: "string + observed_set"
  GetDesiredComposedResources :: "string + desired_set"

text \<open>The functions of the environment whose outcome the handler branches on and whose
  code is outside the source file: \<^verbatim>\<open>json.Marshal\<close> and \<^verbatim>\<open>json.Unmarshal\<close> (the marshalled
  text is represented by the document it denotes), and the error, if any, that the SDK's
  \<^verbatim>\<open>SetDesiredComposedResources\<close> reports for a desired set.\<close>

record SDK =
  json_Marshal :: "json \<Rightarrow> string + json"
  json_Unmarshal :: "json \<Rightarrow> string + Unstructured"
  SetDesired_error :: "desired_set \<Rightarrow> string option"

datatype severity = SEVERITY_FATAL | SEVERITY_WARNING | SEVERITY_NORMAL

datatype target = TARGET_COMPOSITE | TARGET_COMPOSITE_AND_CLAIM

record condition =
  cond_Type :: string
  cond_Status :: bool
  cond_Reason :: string
  cond_Target :: target

record RunFunctionResponse =
  rsp_Tag :: string
  rsp_Desired :: "desired_set option"
  rsp_Results :: "(severity \<times> string) list"
  rsp_Conditions :: "condition list"

text \<open>Modelled from the spec: the response envelope and the four functions of the SDK's
  \<^verbatim>\<open>response\<close> package that act on it are not part of the source file. Following the spec,
  a fresh response has its desired set unset; marking the invocation failed adds one
  fatal result that carries the cause; installing the desired set makes it the desired
  output, or fails and leaves the response as it was; success attaches a true status
  condition aimed at the composite and its claim.\<close>

definition response_To :: "RunFunctionRequest \<Rightarrow> RunFunctionResponse" where
  "response_To req =
     \<lparr>rsp_Tag = req_Tag req, rsp_Desired = None, rsp_Results = [], rsp_Conditions = []\<rparr>"

definition response_Fatal :: "RunFunctionResponse \<Rightarrow> string \<Rightarrow> RunFunctionResponse" where
  "response_Fatal rsp err = rsp\<lparr>rsp_Results := rsp_Results rsp @ [(SEVERITY_FATAL, err)]\<rparr>"

definition SetDesiredComposedResources ::
    "SDK \<Rightarrow> RunFunctionResponse \<Rightarrow> desired_set \<Rightarrow> string + RunFunctionResponse" where
  "SetDesiredComposedResources sdk rsp dcds =
     (case SetDesired_error sdk dcds of
        Some err \<Rightarrow> Inl err
      | None \<Rightarrow> Inr (rsp\<lparr>rsp_Desired := Some dcds\<rparr>))"

definition ConditionTrue_TargetCompositeAndClaim ::
    "RunFunctionResponse \<Rightarrow> string \<Rightarrow> string \<Rightarrow> RunFunctionResponse" where
  "ConditionTrue_TargetCompositeAndClaim rsp typ reason =
     rsp\<lparr>rsp_Conditions := rsp_Conditions rsp @
           [\<lparr>cond_Type = typ, cond_Status = True, cond_Reason = reason,
             cond_Target = TARGET_COMPOSITE_AND_CLAIM\<rparr>]\<rparr>"

text \<open>The calls to the logger \<^verbatim>\<open>f.log\<close>, in the order they are made: the message and its
  key/value pairs.\<close>

datatype log_entry =
    Info string "(string \<times> string) list"
  | Debug string "(string \<times> string) list"

section \<open>The handler\<close>

text \<open>\<^verbatim>\<open>convertViaJSON\<close> (lines 218-224). Its target is always a fresh \<^verbatim>\<open>composed.New()\<close>,
  so the decoded document is the result.\<close>

definition convertViaJSON :: "SDK \<Rightarrow> json \<Rightarrow> string + Unstructured" where
  "convertViaJSON sdk src =
     (case json_Marshal sdk src of
        Inl err \<Rightarrow> Inl err
      | Inr bs \<Rightarrow> json_Unmarshal sdk bs)"

text \<open>\<^verbatim>\<open>DeepCopy\<close> returns an equal document; values are immutable here.\<close>

definition DeepCopy :: "Unstructured \<Rightarrow> Unstructured" where
  "DeepCopy u = u"

text \<open>The state of the member loop: the map \<^verbatim>\<open>desiredComposed\<close>, which the loop updates
  while it ranges over it, the counter \<^verbatim>\<open>protectedCount\<close> (a Go \<^verbatim>\<open>int\<close>; it is bounded by the
  number of members visited, so it cannot wrap), and the log.\<close>

type_synonym loop_state = "desired_set \<times> int \<times> log_entry list"

text \<open>The body of the loop (lines 66-83) for the key \<open>name\<close>. The value \<^verbatim>\<open>desired\<close> is the
  entry the map holds when the key is reached. \<open>Inl\<close> is the early return after a failed
  conversion, with the error and the log so far. A key the map does not hold is never
  produced by \<^verbatim>\<open>range\<close>; the body does nothing for it.\<close>

definition memberBody ::
    "SDK \<Rightarrow> observed_set \<Rightarrow> string \<Rightarrow> loop_state \<Rightarrow> (string \<times> log_entry list) + loop_state" where
  "memberBody sdk observedComposed name st =
     (case st of (desiredComposed, protectedCount, lg) \<Rightarrow>
        (case desiredComposed name of
           None \<Rightarrow> Inr st
         | Some desired \<Rightarrow>
             (case observedComposed name of
                None \<Rightarrow> Inr st
              | Some observed \<Rightarrow>
                  if ProtectResource (dc_Resource desired) ProtectionLabelBlockDeletion
                     \<or> ProtectResource (oc_Resource observed) ProtectionLabelBlockDeletion
                  then
                    let lg1 = lg @ [Debug ''protecting desired resource'' [(''name'', name)]];
                        usage = GenerateUsage (DeepCopy (oc_Resource observed))
                    in (case convertViaJSON sdk usage of
                          Inl err \<Rightarrow> Inl (err, lg1)
                        | Inr usageComposed \<Rightarrow>
                            let uname = GetName (oc_Resource observed) @ ''-protection'';
                                lg2 = lg1 @ [Debug ''creating usage''
                                               [(''usage'', uname), (''kind'', GetKind usageComposed)]]
                            in Inr (desiredComposed
                                      (uname \<mapsto> \<lparr>dc_Resource = usageComposed, dc_Ready = []\<rparr>),
                                    protectedCount + 1, lg2))
                  else Inr st)))"

text \<open>The loop \<^verbatim>\<open>for name, desired := range desiredComposed\<close> (lines 65-84). Go fixes no
  order for ranging over a map, so the order in which the keys are reached is an argument.
  The loop stops at the first failed conversion.\<close>

fun memberLoop ::
    "SDK \<Rightarrow> observed_set \<Rightarrow> string list \<Rightarrow> loop_state \<Rightarrow> (string \<times> log_entry list) + loop_state" where
  "memberLoop sdk observedComposed [] st = Inr st"
| "memberLoop sdk observedComposed (name # names) st =
     (case memberBody sdk observedComposed name st of
        Inl e \<Rightarrow> Inl e
      | Inr st' \<Rightarrow> memberLoop sdk observedComposed names st')"

text \<open>The orders Go may take over a map whose keys at the start are \<open>dom m\<close>: every key
  present at the start is reached exactly once; a key inserted during the loop may be
  reached (once) or skipped. Listing a key the map never holds is harmless, see
  \<open>memberBody\<close>.\<close>

definition rangeOrder :: "desired_set \<Rightarrow> string list \<Rightarrow> bool" where
  "rangeOrder m names \<longleftrightarrow> distinct names \<and> dom m \<subseteq> set names"

text \<open>The check of the primary (lines 87-97).\<close>

definition protectComposite ::
    "SDK \<Rightarrow> Unstructured \<Rightarrow> loop_state \<Rightarrow> (string \<times> log_entry list) + (desired_set \<times> log_entry list)" where
  "protectComposite sdk xr st =
     (case st of (desiredComposed, protectedCount, lg) \<Rightarrow>
        if ProtectXR xr \<or> protectedCount > 0
        then
          let lg1 = lg @ [Debug ''protecting Composite'' [(''name'', GetName xr)]];
              usage = GenerateXRUsage (DeepCopy xr)
          in (case convertViaJSON sdk usage of
                Inl err \<Rightarrow> Inl (err, lg1)
              | Inr usageComposed \<Rightarrow>
                  let uname = GetName xr @ ''-xr-protection''
                  in Inr (desiredComposed
                            (uname \<mapsto> \<lparr>dc_Resource = usageComposed, dc_Ready = []\<rparr>), lg1))
        else Inr (desiredComposed, lg))"

text \<open>\<^verbatim>\<open>RunFunction\<close> (lines 34-112). The Go function always returns a nil error beside the
  response; the model returns the response and the log. \<^verbatim>\<open>%T\<close> in the third message prints
  the type of the request.\<close>

definition RunFunction ::
    "SDK \<Rightarrow> string list \<Rightarrow> RunFunctionRequest \<Rightarrow> RunFunctionResponse \<times> log_entry list" where
  "RunFunction sdk names req =
     (let lg0 = [Info ''Running function'' [(''tag'', req_Tag req)]];
          rsp = response_To req
      in case GetObservedCompositeResource req of
        Inl err \<Rightarrow> (response_Fatal rsp (Wrap err ''cannot get observed composite''), lg0)
      | Inr observedComposite \<Rightarrow>
      (case GetObservedComposedResources req of
        Inl err \<Rightarrow> (response_Fatal rsp (Wrap err ''cannot get observed resources''), lg0)
      | Inr observedComposed \<Rightarrow>
      (case GetDesiredComposedResources req of
        Inl err \<Rightarrow>
          (response_Fatal rsp
             (Wrap err ''cannot get desired composed resources from *v1.RunFunctionRequest''), lg0)
      | Inr desiredComposed \<Rightarrow>
      (case memberLoop sdk observedComposed names (desiredComposed, 0, lg0) of
        Inl (err, lg) \<Rightarrow>
          (response_Fatal rsp (Wrap err ''cannot convert usage to unstructured''), lg)
      | Inr st \<Rightarrow>
      (case protectComposite sdk (xr_Resource observedComposite) st of
        Inl (err, lg) \<Rightarrow>
          (response_Fatal rsp (Wrap err ''cannot convert usage to unstructured''), lg)
      | Inr (desiredComposed', lg) \<Rightarrow>
      (case SetDesiredComposedResources sdk rsp desiredComposed' of
        Inl err \<Rightarrow> (response_Fatal rsp (Wrap err ''cannot set desired resources''), lg)
      | Inr rsp' \<Rightarrow>
          (ConditionTrue_TargetCompositeAndClaim rsp' ''FunctionSuccess'' ''Success'', lg)))))))"

section \<open>Vocabulary of the statements\<close>

subsection \<open>Labels\<close>

text \<open>A string that reads \<^verbatim>\<open>true\<close> in some mix of upper and lower case.\<close>

definition anyCaseTrue :: "string \<Rightarrow> bool" where
  "anyCaseTrue v \<longleftrightarrow>
     list_all2 (\<lambda>c lu. c = fst lu \<or> c = snd lu) v
       [(CHR ''t'', CHR ''T''), (CHR ''r'', CHR ''R''), (CHR ''u'', CHR ''U''),
        (CHR ''e'', CHR ''E'')]"

text \<open>A document carries the protection label when \<^verbatim>\<open>metadata.labels\<close> holds the
  block-deletion key with a string that reads \<^verbatim>\<open>true\<close> in any case.\<close>

definition hasProtectionLabel :: "Unstructured \<Rightarrow> bool" where
  "hasProtectionLabel u =
     (case NestedField (JObject (objectOf u))
             [''metadata'', ''labels'', ProtectionLabelBlockDeletion] of
        Some (JString v) \<Rightarrow> anyCaseTrue v
      | _ \<Rightarrow> False)"

subsection \<open>Responses and logs\<close>

text \<open>The two shapes of a response: the failed one carries a single fatal result with the
  cause, no desired set and no condition; the successful one carries the desired set and
  the success condition.\<close>

definition failed :: "RunFunctionRequest \<Rightarrow> string \<Rightarrow> RunFunctionResponse" where
  "failed req cause =
     \<lparr>rsp_Tag = req_Tag req, rsp_Desired = None,
      rsp_Results = [(SEVERITY_FATAL, cause)], rsp_Conditions = []\<rparr>"

definition succeeded :: "RunFunctionRequest \<Rightarrow> desired_set \<Rightarrow> RunFunctionResponse" where
  "succeeded req dcds =
     \<lparr>rsp_Tag = req_Tag req, rsp_Desired = Some dcds, rsp_Results = [],
      rsp_Conditions =
        [\<lparr>cond_Type = ''FunctionSuccess'', cond_Status = True, cond_Reason = ''Success'',
          cond_Target = TARGET_COMPOSITE_AND_CLAIM\<rparr>]\<rparr>"

text \<open>The log before the loop starts.\<close>

definition startLog :: "RunFunctionRequest \<Rightarrow> log_entry list" where
  "startLog req = [Info ''Running function'' [(''tag'', req_Tag req)]]"

text \<open>The entry the handler stores for a usage record.\<close>

definition usageEntry :: "Unstructured \<Rightarrow> DesiredComposed" where
  "usageEntry usageComposed = \<lparr>dc_Resource = usageComposed, dc_Ready = []\<rparr>"

text \<open>What the log tells about a run: the member names logged as protected, the keys
  logged as created for them, and the key of the primary's record when the primary was
  logged as protected.\<close>

fun protectedName :: "log_entry \<Rightarrow> string option" where
  "protectedName (Debug msg kvs) =
     (if msg = ''protecting desired resource'' then map_of kvs ''name'' else None)"
| "protectedName (Info msg kvs) = None"

fun createdKey :: "log_entry \<Rightarrow> string option" where
  "createdKey (Debug msg kvs) = (if msg = ''creating usage'' then map_of kvs ''usage'' else None)"
| "createdKey (Info msg kvs) = None"

fun compositeKey :: "log_entry \<Rightarrow> string option" where
  "compositeKey (Debug msg kvs) =
     (if msg = ''protecting Composite''
      then map_option (\<lambda>n. n @ ''-xr-protection'') (map_of kvs ''name'') else None)"
| "compositeKey (Info msg kvs) = None"

definition protectedNames :: "log_entry list \<Rightarrow> string list" where
  "protectedNames lg = List.map_filter protectedName lg"

definition createdKeys :: "log_entry list \<Rightarrow> string list" where
  "createdKeys lg = List.map_filter createdKey lg"

definition compositeKeys :: "log_entry list \<Rightarrow> string list" where
  "compositeKeys lg = List.map_filter compositeKey lg"

subsection \<open>Members\<close>

text \<open>For a member name of the observed set: the key under which the loop stores the
  member's usage record, and the outcome of converting that record.\<close>

definition memberKey :: "observed_set \<Rightarrow> string \<Rightarrow> string" where
  "memberKey obs n = (case obs n of Some ob \<Rightarrow> GetName (oc_Resource ob) @ ''-protection'' | None \<Rightarrow> [])"

definition memberRecord :: "SDK \<Rightarrow> observed_set \<Rightarrow> string \<Rightarrow> string + Unstructured" where
  "memberRecord sdk obs n =
     (case obs n of Some ob \<Rightarrow> convertViaJSON sdk (GenerateUsage (oc_Resource ob))
      | None \<Rightarrow> Inl [])"

text \<open>A member name is protected with respect to a desired and an observed set when both
  hold it and one of the two copies carries the protection label.\<close>

definition protectedMember :: "desired_set \<Rightarrow> observed_set \<Rightarrow> string \<Rightarrow> bool" where
  "protectedMember des obs n =
     (case des n of
        None \<Rightarrow> False
      | Some d \<Rightarrow>
          (case obs n of
             None \<Rightarrow> False
           | Some ob \<Rightarrow> hasProtectionLabel (dc_Resource d) \<or> hasProtectionLabel (oc_Resource ob)))"

text \<open>The result of the loop without its log: the error of the failed conversion, or the
  desired set and the count.\<close>

definition loopOutcome ::
    "(string \<times> log_entry list) + loop_state \<Rightarrow> string + (desired_set \<times> int)" where
  "loopOutcome r =
     (case r of Inl (err, lg) \<Rightarrow> Inl err | Inr (des, cnt, lg) \<Rightarrow> Inr (des, cnt))"

text \<open>The store of one protected member's record, as the loop does it.\<close>

definition storeRecord :: "SDK \<Rightarrow> desired_set \<Rightarrow> observed_set \<Rightarrow> string \<Rightarrow> desired_set \<Rightarrow> desired_set" where
  "storeRecord sdk des obs n m =
     (if protectedMember des obs n
      then m(memberKey obs n \<mapsto> usageEntry (projr (memberRecord sdk obs n)))
      else m)"

subsection \<open>Inputs that differ in the enabled label\<close>

text \<open>Two documents that differ only in the presence or the value of the label
  \<^verbatim>\<open>protection.fn.crossplane.io/enabled\<close>. Documents are compared as the maps they stand
  for: every field outside \<^verbatim>\<open>metadata\<close> is the same, every field of \<^verbatim>\<open>metadata\<close> other than
  \<^verbatim>\<open>labels\<close> is the same, and every label other than the enabled one is the same. A missing
  \<^verbatim>\<open>metadata\<close> or \<^verbatim>\<open>labels\<close> field counts as an empty object, so that one side may have the
  label where the other has no labels at all; a field that is present and not an object
  must be the same on both sides.\<close>

definition subObject :: "object \<Rightarrow> string \<Rightarrow> object option" where
  "subObject obj k =
     (case map_of obj k of None \<Rightarrow> Some [] | Some (JObject m) \<Rightarrow> Some m | Some _ \<Rightarrow> None)"

definition sameButEnabled :: "Unstructured \<Rightarrow> Unstructured \<Rightarrow> bool" where
  "sameButEnabled u u' \<longleftrightarrow>
     (\<forall>k. k \<noteq> ''metadata'' \<longrightarrow> map_of (objectOf u') k = map_of (objectOf u) k) \<and>
     (case subObject (objectOf u) ''metadata'' of
        None \<Rightarrow> map_of (objectOf u') ''metadata'' = map_of (objectOf u) ''metadata''
      | Some md \<Rightarrow>
          (case subObject (objectOf u') ''metadata'' of
             None \<Rightarrow> False
           | Some md' \<Rightarrow>
               (\<forall>k. k \<noteq> ''labels'' \<longrightarrow> map_of md' k = map_of md k) \<and>
               (case subObject md ''labels'' of
                  None \<Rightarrow> map_of md' ''labels'' = map_of md ''labels''
                | Some ls \<Rightarrow>
                    (case subObject md' ''labels'' of
                       None \<Rightarrow> False
                     | Some ls' \<Rightarrow>
                         (\<forall>k. k \<noteq> ProtectionLabelEnabled \<longrightarrow> map_of ls' k = map_of ls k)))))"

text \<open>The enabled label of a document, when it has one, holds a string or \<^verbatim>\<open>null\<close>: the
  values that \<open>GetLabels\<close> reads as a label.\<close>

definition enabledIsLabel :: "Unstructured \<Rightarrow> bool" where
  "enabledIsLabel u =
     (case NestedField (JObject (objectOf u)) [''metadata'', ''labels'', ProtectionLabelEnabled] of
        None \<Rightarrow> True
      | Some (JString s) \<Rightarrow> True
      | Some JNull \<Rightarrow> True
      | Some _ \<Rightarrow> False)"

text \<open>Two desired sets that hold the same entries except where the second holds an entry of
  \<open>des'\<close> in the place of the entry of \<open>des\<close>.\<close>

definition sameButEntries :: "desired_set \<Rightarrow> desired_set \<Rightarrow> desired_set \<Rightarrow> desired_set \<Rightarrow> bool" where
  "sameButEntries des des' m m' \<longleftrightarrow> (\<forall>k. m' k = m k \<or> (m k = des k \<and> m' k = des' k))"

text \<open>The desired set that \<^verbatim>\<open>RunFunction\<close> hands to \<^verbatim>\<open>SetDesiredComposedResources\<close> (line
  99): the map as the member loop and the check of the primary leave it. There is none
  when the invocation returns before that call.\<close>

definition handedOver :: "SDK \<Rightarrow> string list \<Rightarrow> RunFunctionRequest \<Rightarrow> desired_set option" where
  "handedOver sdk names req =
     (case GetObservedCompositeResource req of
        Inl err \<Rightarrow> None
      | Inr observedComposite \<Rightarrow>
      (case GetObservedComposedResources req of
        Inl err \<Rightarrow> None
      | Inr observedComposed \<Rightarrow>
      (case GetDesiredComposedResources req of
        Inl err \<Rightarrow> None
      | Inr desiredComposed \<Rightarrow>
      (case memberLoop sdk observedComposed names (desiredComposed, 0, startLog req) of
        Inl e \<Rightarrow> None
      | Inr st \<Rightarrow>
      (case protectComposite sdk (xr_Resource observedComposite) st of
        Inl e \<Rightarrow> None
      | Inr (desiredComposed', lg) \<Rightarrow> Some desiredComposed')))))"

subsection \<open>Examples\<close>

text \<open>A concrete environment: marshalling keeps the document, decoding accepts every JSON
  object (\<open>asUnstructured\<close> is what it decodes a usage record into), installing a desired
  set never fails.\<close>

definition plainSDK :: SDK where
  "plainSDK =
     \<lparr>json_Marshal = Inr,
      json_Unmarshal = (\<lambda>j. case j of JObject m \<Rightarrow> Inr \<lparr>Object = Some m\<rparr>
                                     | _ \<Rightarrow> Inl ''json: cannot unmarshal''),
      SetDesired_error = (\<lambda>m. None)\<rparr>"

definition asUnstructured :: "json \<Rightarrow> Unstructured" where
  "asUnstructured j = (case j of JObject m \<Rightarrow> \<lparr>Object = Some m\<rparr> | _ \<Rightarrow> \<lparr>Object = None\<rparr>)"

text \<open>The resources of the spec's scenario, a cluster-scoped primary \<^verbatim>\<open>db-1\<close> and a
  namespaced member \<^verbatim>\<open>inst-1\<close> that carries the protection label, and a second labelled
  member \<^verbatim>\<open>inst-2\<close>.\<close>

definition db1 :: Unstructured where
  "db1 = \<lparr>Object = Some
     [(''apiVersion'', JString ''example.org/v1''),
      (''kind'', JString ''Database''),
      (''metadata'', JObject [(''name'', JString ''db-1'')])]\<rparr>"

definition inst1 :: Unstructured where
  "inst1 = \<lparr>Object = Some
     [(''apiVersion'', JString ''rds.example.org/v1''),
      (''kind'', JString ''Instance''),
      (''metadata'', JObject
         [(''name'', JString ''inst-1''),
          (''namespace'', JString ''ns1''),
          (''labels'', JObject
             [(''protection.fn.crossplane.io/block-deletion'', JString ''True'')])])]\<rparr>"

definition inst2 :: Unstructured where
  "inst2 = \<lparr>Object = Some
     [(''apiVersion'', JString ''rds.example.org/v1''),
      (''kind'', JString ''Instance''),
      (''metadata'', JObject
         [(''name'', JString ''inst-2''),
          (''namespace'', JString ''ns1''),
          (''labels'', JObject
             [(''protection.fn.crossplane.io/block-deletion'', JString ''true'')])])]\<rparr>"

text \<open>An environment in which marshalling the usage record of \<^verbatim>\<open>inst-2\<close> fails.\<close>

definition brokenSDK :: SDK where
  "brokenSDK = plainSDK
     \<lparr>json_Marshal := (\<lambda>j.
        if NestedField j [''metadata'', ''name''] = Some (JString ''inst-2-function-protection'')
        then Inl ''json: unsupported value'' else Inr j)\<rparr>"

text \<open>A request with the unlabelled primary \<^verbatim>\<open>db-1\<close> and no members, and a request with
  the same primary and two members, \<^verbatim>\<open>m1\<close> and \<^verbatim>\<open>m2\<close>, both observed and both labelled.\<close>

definition noMembers :: RunFunctionRequest where
  "noMembers =
     \<lparr>req_Tag = ''tag'',
      GetObservedCompositeResource = Inr \<lparr>xr_Resource = db1, xr_ConnectionDetails = []\<rparr>,
      GetObservedComposedResources = Inr Map.empty,
      GetDesiredComposedResources = Inr Map.empty\<rparr>"

definition observed12 :: observed_set where
  "observed12 =
     [''m1'' \<mapsto> \<lparr>oc_Resource = inst1, oc_ConnectionDetails = []\<rparr>,
      ''m2'' \<mapsto> \<lparr>oc_Resource = inst2, oc_ConnectionDetails = []\<rparr>]"

definition desired12 :: desired_set where
  "desired12 =
     [''m1'' \<mapsto> \<lparr>dc_Resource = inst1, dc_Ready = ''True''\<rparr>,
      ''m2'' \<mapsto> \<lparr>dc_Resource = inst2, dc_Ready = ''True''\<rparr>]"

definition twoMembers :: RunFunctionRequest where
  "twoMembers =
     \<lparr>req_Tag = ''tag'',
      GetObservedCompositeResource = Inr \<lparr>xr_Resource = db1, xr_ConnectionDetails = []\<rparr>,
      GetObservedComposedResources = Inr observed12,
      GetDesiredComposedResources = Inr desired12\<rparr>"

text \<open>Two labelled resources of different kinds that share the name \<^verbatim>\<open>app\<close>, and a request
  whose members \<^verbatim>\<open>a\<close> and \<^verbatim>\<open>b\<close> are these two.\<close>

definition appDeployment :: Unstructured where
  "appDeployment = \<lparr>Object = Some
     [(''apiVersion'', JString ''apps/v1''),
      (''kind'', JString ''Deployment''),
      (''metadata'', JObject
         [(''name'', JString ''app''),
          (''namespace'', JString ''prod''),
          (''labels'', JObject
             [(''protection.fn.crossplane.io/block-deletion'', JString ''true'')])])]\<rparr>"

definition appService :: Unstructured where
  "appService = \<lparr>Object = Some
     [(''apiVersion'', JString ''v1''),
      (''kind'', JString ''Service''),
      (''metadata'', JObject
         [(''name'', JString ''app''),
          (''namespace'', JString ''prod''),
          (''labels'', JObject
             [(''protection.fn.crossplane.io/block-deletion'', JString ''true'')])])]\<rparr>"

definition observedAB :: observed_set where
  "observedAB =
     [''a'' \<mapsto> \<lparr>oc_Resource = appDeployment, oc_ConnectionDetails = []\<rparr>,
      ''b'' \<mapsto> \<lparr>oc_Resource = appService, oc_ConnectionDetails = []\<rparr>]"

definition desiredAB :: desired_set where
  "desiredAB =
     [''a'' \<mapsto> \<lparr>dc_Resource = appDeployment, dc_Ready = ''True''\<rparr>,
      ''b'' \<mapsto> \<lparr>dc_Resource = appService, dc_Ready = ''True''\<rparr>]"

definition sameName :: RunFunctionRequest where
  "sameName =
     \<lparr>req_Tag = ''tag'',
      GetObservedCompositeResource = Inr \<lparr>xr_Resource = db1, xr_ConnectionDetails = []\<rparr>,
      GetObservedComposedResources = Inr observedAB,
      GetDesiredComposedResources = Inr desiredAB\<rparr>"

text \<open>The member \<^verbatim>\<open>inst-1\<close> and the primary \<^verbatim>\<open>db-1\<close> with the enabled label added, and two
  variants of the request \<open>twoMembers\<close>: one with the label added to the primary and to the
  observed copy of \<^verbatim>\<open>m1\<close>, one with the label added to the desired copy of \<^verbatim>\<open>m1\<close>.\<close>

definition inst1Enabled :: Unstructured where
  "inst1Enabled = \<lparr>Object = Some
     [(''apiVersion'', JString ''rds.example.org/v1''),
      (''kind'', JString ''Instance''),
      (''metadata'', JObject
         [(''name'', JString ''inst-1''),
          (''namespace'', JString ''ns1''),
          (''labels'', JObject
             [(''protection.fn.crossplane.io/block-deletion'', JString ''True''),
              (''protection.fn.crossplane.io/enabled'', JString ''false'')])])]\<rparr>"

definition db1Enabled :: Unstructured where
  "db1Enabled = \<lparr>Object = Some
     [(''apiVersion'', JString ''example.org/v1''),
      (''kind'', JString ''Database''),
      (''metadata'', JObject
         [(''name'', JString ''db-1''),
          (''labels'', JObject [(''protection.fn.crossplane.io/enabled'', JString ''true'')])])]\<rparr>"

definition enabledObserved :: RunFunctionRequest where
  "enabledObserved =
     \<lparr>req_Tag = ''tag'',
      GetObservedCompositeResource = Inr \<lparr>xr_Resource = db1Enabled, xr_ConnectionDetails = []\<rparr>,
      GetObservedComposedResources = Inr
        (observed12(''m1'' \<mapsto> \<lparr>oc_Resource = inst1Enabled, oc_ConnectionDetails = []\<rparr>)),
      GetDesiredComposedResources = Inr desired12\<rparr>"

definition enabledDesired :: RunFunctionRequest where
  "enabledDesired =
     \<lparr>req_Tag = ''tag'',
      GetObservedCompositeResource = Inr \<lparr>xr_Resource = db1, xr_ConnectionDetails = []\<rparr>,
      GetObservedComposedResources = Inr observed12,
      GetDesiredComposedResources = Inr
        (desired12(''m1'' \<mapsto> \<lparr>dc_Resource = inst1Enabled, dc_Ready = ''True''\<rparr>))\<rparr>"

text \<open>The member \<^verbatim>\<open>inst-2\<close> without labels, and a request in which the key of the record of
  \<^verbatim>\<open>m1\<close>, \<^verbatim>\<open>inst-1-protection\<close>, is itself a member name: its desired copy is labelled, its
  observed copy is not.\<close>

definition inst2Plain :: Unstructured where
  "inst2Plain = \<lparr>Object = Some
     [(''apiVersion'', JString ''rds.example.org/v1''),
      (''kind'', JString ''Instance''),
      (''metadata'', JObject
         [(''name'', JString ''inst-2''),
          (''namespace'', JString ''ns1'')])]\<rparr>"

definition observedKey :: observed_set where
  "observedKey =
     [''m1'' \<mapsto> \<lparr>oc_Resource = inst1, oc_ConnectionDetails = []\<rparr>,
      ''inst-1-protection'' \<mapsto> \<lparr>oc_Resource = inst2Plain, oc_ConnectionDetails = []\<rparr>]"

definition desiredKey :: desired_set where
  "desiredKey =
     [''m1'' \<mapsto> \<lparr>dc_Resource = inst1, dc_Ready = ''True''\<rparr>,
      ''inst-1-protection'' \<mapsto> \<lparr>dc_Resource = inst2, dc_Ready = ''True''\<rparr>]"

definition keyIsMember :: RunFunctionRequest where
  "keyIsMember =
     \<lparr>req_Tag = ''tag'',
      GetObservedCompositeResource = Inr \<lparr>xr_Resource = db1, xr_ConnectionDetails = []\<rparr>,
      GetObservedComposedResources = Inr observedKey,
      GetDesiredComposedResources = Inr desiredKey\<rparr>"

text \<open>An environment in which marshalling always fails, with the name of the record as the
  error.\<close>

definition refusingSDK :: SDK where
  "refusingSDK = plainSDK
     \<lparr>json_Marshal := (\<lambda>j. Inl (case NestedField j [''metadata'', ''name''] of
                                   Some (JString s) \<Rightarrow> s | _ \<Rightarrow> []))\<rparr>"

text \<open>The primary \<^verbatim>\<open>db-1\<close> with the protection label, the same with an enabled label that
  holds a boolean, the same with an enabled label that holds \<^verbatim>\<open>null\<close>, and the request that
  has a given primary and no members.\<close>

definition db1Protected :: Unstructured where
  "db1Protected = \<lparr>Object = Some
     [(''apiVersion'', JString ''example.org/v1''),
      (''kind'', JString ''Database''),
      (''metadata'', JObject
         [(''name'', JString ''db-1''),
          (''labels'', JObject
             [(''protection.fn.crossplane.io/block-deletion'', JString ''true'')])])]\<rparr>"

definition db1ProtectedFlag :: Unstructured where
  "db1ProtectedFlag = \<lparr>Object = Some
     [(''apiVersion'', JString ''example.org/v1''),
      (''kind'', JString ''Database''),
      (''metadata'', JObject
         [(''name'', JString ''db-1''),
          (''labels'', JObject
             [(''protection.fn.crossplane.io/block-deletion'', JString ''true''),
              (''protection.fn.crossplane.io/enabled'', JBool True)])])]\<rparr>"

definition db1ProtectedNull :: Unstructured where
  "db1ProtectedNull = \<lparr>Object = Some
     [(''apiVersion'', JString ''example.org/v1''),
      (''kind'', JString ''Database''),
      (''metadata'', JObject
         [(''name'', JString ''db-1''),
          (''labels'', JObject
             [(''protection.fn.crossplane.io/block-deletion'', JString ''true''),
              (''protection.fn.crossplane.io/enabled'', JNull)])])]\<rparr>"

definition primaryOnly :: "Unstructured \<Rightarrow> RunFunctionRequest" where
  "primaryOnly u =
     \<lparr>req_Tag = ''tag'',
      GetObservedCompositeResource = Inr \<lparr>xr_Resource = u, xr_ConnectionDetails = []\<rparr>,
      GetObservedComposedResources = Inr Map.empty,
      GetDesiredComposedResources = Inr Map.empty\<rparr>"

text \<open>An environment in which installing fails for a desired set whose member \<^verbatim>\<open>m1\<close> is the
  copy of \<^verbatim>\<open>inst-1\<close> with the enabled label.\<close>

definition pickySDK :: SDK where
  "pickySDK = plainSDK
     \<lparr>SetDesired_error := (\<lambda>m.
        if m ''m1'' = Some \<lparr>dc_Resource = inst1Enabled, dc_Ready = ''True''\<rparr>
        then Some ''rejected'' else None)\<rparr>"

section \<open>Properties of the library functions\<close>

lemma char_of_char_eq: "of_char c = (n::nat) \<Longrightarrow> c = char_of n"
  by (metis char_of_char)

lemma EqualFold_lower_Cons:
  assumes "(97::nat) \<le> of_char tr" "of_char tr \<le> (122::nat)"
  shows "EqualFold (sr # s) (tr # t) \<longleftrightarrow>
           (sr = tr \<or> of_char sr + 32 = (of_char tr :: nat)) \<and> EqualFold s t"
proof (cases "tr = sr")
  case True
  then show ?thesis by simp
next
  case False
  show ?thesis
  proof (cases "(of_char tr :: nat) < of_char sr")
    case True
    with False assms show ?thesis by (auto simp: Let_def)
  next
    case False
    with \<open>tr \<noteq> sr\<close> assms show ?thesis by (auto simp: Let_def)
  qed
qed

lemma upper_char_iff:
  "of_char sr + 32 = (116::nat) \<longleftrightarrow> sr = CHR ''T''"
  "of_char sr + 32 = (114::nat) \<longleftrightarrow> sr = CHR ''R''"
  "of_char sr + 32 = (117::nat) \<longleftrightarrow> sr = CHR ''U''"
  "of_char sr + 32 = (101::nat) \<longleftrightarrow> sr = CHR ''E''"
proof -
  have c: "char_of (84::nat) = CHR ''T''" "char_of (82::nat) = CHR ''R''"
          "char_of (85::nat) = CHR ''U''" "char_of (69::nat) = CHR ''E''"
    by code_simp+
  show "of_char sr + 32 = (116::nat) \<longleftrightarrow> sr = CHR ''T''"
    using char_of_char_eq [of sr 84] c by auto
  show "of_char sr + 32 = (114::nat) \<longleftrightarrow> sr = CHR ''R''"
    using char_of_char_eq [of sr 82] c by auto
  show "of_char sr + 32 = (117::nat) \<longleftrightarrow> sr = CHR ''U''"
    using char_of_char_eq [of sr 85] c by auto
  show "of_char sr + 32 = (101::nat) \<longleftrightarrow> sr = CHR ''E''"
    using char_of_char_eq [of sr 69] c by auto
qed

lemma EqualFold_lower:
  assumes "\<forall>c\<in>set t. (97::nat) \<le> of_char c \<and> of_char c \<le> (122::nat)"
  shows "EqualFold v t \<longleftrightarrow>
           list_all2 (\<lambda>a c. a = c \<or> of_char a + 32 = (of_char c :: nat)) v t"
  using assms
proof (induction t arbitrary: v)
  case Nil
  then show ?case by (cases v) simp_all
next
  case (Cons c t)
  show ?case
  proof (cases v)
    case Nil
    then show ?thesis by simp
  next
    case (Cons a v')
    have "EqualFold (a # v') (c # t) \<longleftrightarrow>
            (a = c \<or> of_char a + 32 = (of_char c :: nat)) \<and> EqualFold v' t"
      using Cons.prems by (intro EqualFold_lower_Cons) simp_all
    with Cons.IH [of v'] Cons.prems Cons show ?thesis by simp
  qed
qed

lemma EqualFold_true: "EqualFold v ''true'' \<longleftrightarrow> anyCaseTrue v"
proof -
  have "EqualFold v ''true'' \<longleftrightarrow>
          list_all2 (\<lambda>a c. a = c \<or> of_char a + 32 = (of_char c :: nat)) v ''true''"
    by (rule EqualFold_lower) simp
  also have "\<dots> \<longleftrightarrow> anyCaseTrue v"
    unfolding anyCaseTrue_def by (simp add: list_all2_Cons2 upper_char_iff)
  finally show ?thesis .
qed

lemma anyCaseTrue_examples:
  "anyCaseTrue ''TRUE''" "anyCaseTrue ''True''" "anyCaseTrue ''true''"
  "\<not> anyCaseTrue ''yes''" "\<not> anyCaseTrue ''true ''" "\<not> anyCaseTrue []"
  by (simp_all add: anyCaseTrue_def)

lemmas getters = GetName_def GetNamespace_def GetAPIVersion_def GetKind_def
  getNestedString_def objectOf_def

lemma MatchLabel_char:
  "MatchLabel u label \<longleftrightarrow>
     (\<exists>obj md labels val.
        Object u = Some obj \<and> map_of obj ''metadata'' = Some (JObject md) \<and>
        map_of md ''labels'' = Some (JObject labels) \<and>
        map_of labels label = Some (JString val) \<and> anyCaseTrue val)"
proof (cases "Object u")
  case None
  then show ?thesis by (simp add: MatchLabel_def)
next
  case (Some obj)
  show ?thesis
  proof (cases "NestedField (JObject obj) [''metadata'', ''labels'']")
    case None
    with Some show ?thesis
      by (auto simp: MatchLabel_def GetValueInto_def split: option.splits json.splits)
  next
    case nf: (Some l)
    then obtain md where md: "map_of obj ''metadata'' = Some (JObject md)"
      "map_of md ''labels'' = Some l"
      by (auto split: option.splits json.splits elim: NestedField.elims)
    show ?thesis
    proof (cases l)
      case (JObject labels)
      with Some nf md show ?thesis
        by (auto simp: MatchLabel_def GetValueInto_def EqualFold_true
                 split: option.splits json.splits)
    qed (use Some nf md in \<open>simp_all add: MatchLabel_def GetValueInto_def\<close>)
  qed
qed

lemma NestedField_Cons:
  "NestedField v (f # fs) =
     (case v of
        JObject m \<Rightarrow> (case map_of m f of None \<Rightarrow> None | Some w \<Rightarrow> NestedField w fs)
      | _ \<Rightarrow> None)"
  by (cases v) simp_all

lemma subObject_cases:
  obtains (absent) "map_of obj k = None" "subObject obj k = Some []"
  | (object) m where "map_of obj k = Some (JObject m)" "subObject obj k = Some m"
  | (other) v where "map_of obj k = Some v" "subObject obj k = None" "\<forall>m. v \<noteq> JObject m"
  by (cases "map_of obj k"; cases "the (map_of obj k)") (auto simp: subObject_def)

lemma NestedField_top:
  "NestedField (JObject obj) [k] = map_of obj k"
  by (simp split: option.splits)

lemma NestedField_sub:
  "NestedField (JObject obj) (k # p # ps) =
     (case subObject obj k of None \<Rightarrow> None | Some m \<Rightarrow> NestedField (JObject m) (p # ps))"
  by (cases rule: subObject_cases [of obj k]) (auto simp: NestedField_Cons split: json.splits)

lemma list_all_keys:
  "list_all (\<lambda>k. P (map_of m k)) (map fst m) \<longleftrightarrow> (\<forall>j. map_of m j \<noteq> None \<longrightarrow> P (map_of m j))"
  by (auto simp: list_all_iff map_of_eq_None_iff)

lemma isString_coerced: "isString v \<Longrightarrow> isStringOrNull v"
  by (simp add: isString_def isStringOrNull_def split: option.splits json.splits)

lemma GetLabels_sub:
  assumes "subObject (objectOf u) ''metadata'' = Some md" "subObject md ''labels'' = Some ls"
  shows "GetLabels u k =
     (if \<forall>j. map_of ls j \<noteq> None \<longrightarrow> isStringOrNull (map_of ls j)
      then (case map_of ls k of Some (JString s) \<Rightarrow> Some s | Some JNull \<Rightarrow> Some [] | _ \<Rightarrow> None)
      else None)"
proof -
  have nf: "NestedField (JObject (objectOf u)) [''metadata'', ''labels''] = map_of md ''labels''"
    using assms(1) by (simp only: NestedField_sub NestedField_top option.case)
  show ?thesis
  proof (cases rule: subObject_cases [of md "''labels''"])
    case absent
    with assms(2) nf show ?thesis by (simp add: GetLabels_def del: NestedField.simps)
  next
    case (object m)
    with assms(2) nf show ?thesis
      by (auto simp: GetLabels_def list_all_keys simp del: NestedField.simps)
  next
    case (other v)
    with assms(2) show ?thesis by simp
  qed
qed

lemma GetLabels_same_field:
  assumes "NestedField (JObject (objectOf u')) [''metadata'', ''labels'']
         = NestedField (JObject (objectOf u)) [''metadata'', ''labels'']"
  shows "GetLabels u' k = GetLabels u k"
  using assms by (simp add: GetLabels_def del: NestedField.simps)

section \<open>The label check\<close>

text \<open>
  Claim C5. \<open>MatchLabel\<close> answers true exactly when the document has an object, its
  \<^verbatim>\<open>metadata.labels\<close> is a mapping, the mapping holds the given key (the key is looked up as
  it is, with no folding), and the value under it is a string that reads \<^verbatim>\<open>true\<close> in any
  mix of cases. In every other situation (nil object, labels missing or of another type,
  a value that is not a string, any other string) it answers false; its result is a
  boolean, so there is no error to raise. When neither copy of a member matches, the
  loop body leaves the state as it was and the loop goes on to the next member.
\<close>

theorem MatchLabel_iff:
  "(MatchLabel u label \<longleftrightarrow>
     (\<exists>obj md labels val.
        Object u = Some obj \<and> map_of obj ''metadata'' = Some (JObject md) \<and>
        map_of md ''labels'' = Some (JObject labels) \<and>
        map_of labels label = Some (JString val) \<and> anyCaseTrue val))
   \<and> (desiredComposed name = Some desired \<and> observedComposed name = Some observed \<and>
        \<not> MatchLabel (dc_Resource desired) ProtectionLabelBlockDeletion \<and>
        \<not> MatchLabel (oc_Resource observed) ProtectionLabelBlockDeletion \<longrightarrow>
        memberBody sdk observedComposed name (desiredComposed, protectedCount, lg)
          = Inr (desiredComposed, protectedCount, lg))"
  by (rule conjI, rule MatchLabel_char) (simp add: memberBody_def ProtectResource_def)

theorem MatchLabel_iff_witness:
  "MatchLabel inst1 ProtectionLabelBlockDeletion
   \<and> \<not> MatchLabel \<lparr>Object = None\<rparr> ProtectionLabelBlockDeletion
   \<and> \<not> MatchLabel db1 ProtectionLabelBlockDeletion
   \<and> \<not> MatchLabel \<lparr>Object = Some [(''metadata'', JObject [(''labels'', JString ''x'')])]\<rparr>
          ProtectionLabelBlockDeletion
   \<and> \<not> MatchLabel \<lparr>Object = Some [(''metadata'', JObject [(''labels'', JObject
            [(''protection.fn.crossplane.io/block-deletion'', JBool True)])])]\<rparr>
          ProtectionLabelBlockDeletion
   \<and> \<not> MatchLabel \<lparr>Object = Some [(''metadata'', JObject [(''labels'', JObject
            [(''protection.fn.crossplane.io/block-deletion'', JString ''yes'')])])]\<rparr>
          ProtectionLabelBlockDeletion
   \<and> memberBody plainSDK [''m1'' \<mapsto> \<lparr>oc_Resource = db1, oc_ConnectionDetails = []\<rparr>] ''m1''
        ([''m1'' \<mapsto> \<lparr>dc_Resource = db1, dc_Ready = ''True''\<rparr>], 0, [])
       = Inr ([''m1'' \<mapsto> \<lparr>dc_Resource = db1, dc_Ready = ''True''\<rparr>], 0, [])"
proof -
  have no: "\<not> MatchLabel db1 ProtectionLabelBlockDeletion"
    using MatchLabel_iff [of db1 ProtectionLabelBlockDeletion] by (simp add: db1_def)
  show ?thesis
    using MatchLabel_iff [of inst1 ProtectionLabelBlockDeletion]
      MatchLabel_iff [of "\<lparr>Object = None\<rparr>" ProtectionLabelBlockDeletion]
      MatchLabel_iff [of "\<lparr>Object = Some [(''metadata'', JObject [(''labels'', JString ''x'')])]\<rparr>"
          ProtectionLabelBlockDeletion]
      MatchLabel_iff [of "\<lparr>Object = Some [(''metadata'', JObject [(''labels'', JObject
            [(''protection.fn.crossplane.io/block-deletion'', JBool True)])])]\<rparr>"
          ProtectionLabelBlockDeletion]
      MatchLabel_iff [of "\<lparr>Object = Some [(''metadata'', JObject [(''labels'', JObject
            [(''protection.fn.crossplane.io/block-deletion'', JString ''yes'')])])]\<rparr>"
          ProtectionLabelBlockDeletion]
      MatchLabel_iff [of db1 ProtectionLabelBlockDeletion
         "[''m1'' \<mapsto> \<lparr>dc_Resource = db1, dc_Ready = ''True''\<rparr>]" "''m1''"
         "\<lparr>dc_Resource = db1, dc_Ready = ''True''\<rparr>"
         "[''m1'' \<mapsto> \<lparr>oc_Resource = db1, oc_ConnectionDetails = []\<rparr>]"
         "\<lparr>oc_Resource = db1, oc_ConnectionDetails = []\<rparr>" plainSDK 0 "[]"]
      no
    by (simp add: inst1_def ProtectionLabelBlockDeletion_def anyCaseTrue_def)
qed

section \<open>The usage records\<close>

text \<open>
  Claim C4. For both constructors, the member's and the primary's, the record has the fixed
  group/version as its \<^verbatim>\<open>apiVersion\<close> and \<^verbatim>\<open><name>-function-protection\<close> as its
  \<^verbatim>\<open>metadata.name\<close>, and the namespace of the protected resource alone selects the rest:
  with an empty namespace the kind is \<^verbatim>\<open>ClusterUsage\<close> and the reference holds the name
  only, otherwise the kind is \<^verbatim>\<open>Usage\<close> and the reference holds name and namespace.
\<close>

theorem usage_by_namespace:
  "\<forall>gen \<in> {GenerateUsage, GenerateXRUsage}.
     NestedField (gen u) [''apiVersion''] = Some (JString ProtectionGroupVersion) \<and>
     NestedField (gen u) [''metadata'', ''name'']
       = Some (JString (GetName u @ ''-function-protection'')) \<and>
     NestedField (gen u) [''spec'', ''of'', ''apiVersion''] = Some (JString (GetAPIVersion u)) \<and>
     NestedField (gen u) [''spec'', ''of'', ''kind''] = Some (JString (GetKind u)) \<and>
     (GetNamespace u = [] \<longrightarrow>
        NestedField (gen u) [''kind''] = Some (JString ''ClusterUsage'') \<and>
        NestedField (gen u) [''spec'', ''of'', ''resourceRef'']
          = Some (JObject [(''name'', JString (GetName u))])) \<and>
     (GetNamespace u \<noteq> [] \<longrightarrow>
        NestedField (gen u) [''kind''] = Some (JString ''Usage'') \<and>
        NestedField (gen u) [''spec'', ''of'', ''resourceRef'']
          = Some (JObject [(''name'', JString (GetName u)),
                           (''namespace'', JString (GetNamespace u))]))"
  by (simp add: GenerateUsage_def GenerateXRUsage_def Let_def ClusterUsageKind_def UsageKind_def)

theorem usage_by_namespace_witness:
  "GetNamespace inst1 = ''ns1'' \<and> GetNamespace db1 = []
   \<and> NestedField (GenerateUsage inst1) [''kind''] = Some (JString ''Usage'')
   \<and> NestedField (GenerateUsage inst1) [''spec'', ''of'', ''resourceRef'']
       = Some (JObject [(''name'', JString ''inst-1''), (''namespace'', JString ''ns1'')])
   \<and> NestedField (GenerateUsage inst1) [''metadata'', ''name'']
       = Some (JString ''inst-1-function-protection'')
   \<and> NestedField (GenerateXRUsage db1) [''kind''] = Some (JString ''ClusterUsage'')
   \<and> NestedField (GenerateXRUsage db1) [''spec'', ''of'', ''resourceRef'']
       = Some (JObject [(''name'', JString ''db-1'')])
   \<and> NestedField (GenerateXRUsage db1) [''metadata'', ''name'']
       = Some (JString ''db-1-function-protection'')"
proof -
  have g: "GetNamespace inst1 = ''ns1''" "GetNamespace db1 = []"
    "GetName inst1 = ''inst-1''" "GetName db1 = ''db-1''"
    by (simp_all add: getters inst1_def db1_def)
  show ?thesis
    using usage_by_namespace [of inst1] usage_by_namespace [of db1] by (simp add: g)
qed

text \<open>
  Claim C9. The two constructors build the same record up to the reason: they have the
  same top-level keys, and every path leads to the same value in both, except the path to
  \<^verbatim>\<open>spec.reason\<close> and the two paths to objects that contain it. The two reasons are fixed
  strings.
\<close>

theorem usage_constructors_agree:
  "(\<forall>path. path \<notin> {[], [''spec''], [''spec'', ''reason'']} \<longrightarrow>
       NestedField (GenerateUsage u) path = NestedField (GenerateXRUsage u) path)
   \<and> (case (GenerateUsage u, GenerateXRUsage u) of
         (JObject m, JObject x) \<Rightarrow> map fst m = map fst x
       | _ \<Rightarrow> False)
   \<and> NestedField (GenerateUsage u) [''spec'', ''reason'']
       = Some (JString (''Created by function-deletion-protection via label ''
                         @ ProtectionLabelBlockDeletion))
   \<and> NestedField (GenerateXRUsage u) [''spec'', ''reason'']
       = Some (JString (''deletion blocked by function-deletion-protection via label ''
                         @ ProtectionLabelBlockDeletion))"
proof -
  have "NestedField (GenerateUsage u) path = NestedField (GenerateXRUsage u) path"
    if "path \<notin> {[], [''spec''], [''spec'', ''reason'']}" for path
  proof (cases path)
    case Nil
    with that show ?thesis by simp
  next
    case p1: (Cons f fs)
    show ?thesis
    proof (cases "f = ''spec''")
      case False
      with p1 show ?thesis
        by (simp add: GenerateUsage_def GenerateXRUsage_def Let_def)
    next
      case True
      show ?thesis
      proof (cases fs)
        case Nil
        with that p1 True show ?thesis by simp
      next
        case p2: (Cons g gs)
        show ?thesis
        proof (cases "g = ''reason''")
          case False
          with p1 p2 True show ?thesis
            by (simp add: GenerateUsage_def GenerateXRUsage_def Let_def)
        next
          case r: True
          with that p1 p2 True obtain h hs where "gs = h # hs" by (cases gs) auto
          with p1 p2 True r show ?thesis
            by (simp add: GenerateUsage_def GenerateXRUsage_def Let_def)
        qed
      qed
    qed
  qed
  then show ?thesis
    by (simp add: GenerateUsage_def GenerateXRUsage_def Let_def)
qed

theorem usage_constructors_agree_witness:
  "NestedField (GenerateUsage inst1) [''spec'', ''of'']
     = NestedField (GenerateXRUsage inst1) [''spec'', ''of'']
   \<and> NestedField (GenerateUsage inst1) [''kind''] = NestedField (GenerateXRUsage inst1) [''kind'']
   \<and> NestedField (GenerateUsage inst1) [''spec'', ''reason'']
       \<noteq> NestedField (GenerateXRUsage inst1) [''spec'', ''reason'']"
  using usage_constructors_agree [of inst1] by simp


section \<open>Properties of the handler's parts\<close>

lemma memberLoop_append:
  "memberLoop sdk obs (xs @ ys) st =
     (case memberLoop sdk obs xs st of Inl e \<Rightarrow> Inl e | Inr st' \<Rightarrow> memberLoop sdk obs ys st')"
  by (induction xs arbitrary: st) (auto split: sum.splits)

lemma ProtectXR_char:
  "ProtectXR u \<longleftrightarrow> (\<exists>v. GetLabels u ProtectionLabelBlockDeletion = Some v \<and> anyCaseTrue v)"
  by (simp add: ProtectXR_def EqualFold_true split: option.splits)

lemma ProtectXR_wellformed:
  assumes "\<forall>j v. NestedField (JObject (objectOf u)) [''metadata'', ''labels'', j] = Some v \<longrightarrow>
             isString (Some v)"
  shows "ProtectXR u = hasProtectionLabel u"
proof (cases "subObject (objectOf u) ''metadata''")
  case None
  then have "NestedField (JObject (objectOf u)) [''metadata'', ''labels''] = None"
    "NestedField (JObject (objectOf u)) [''metadata'', ''labels'', ProtectionLabelBlockDeletion] = None"
    by (simp_all only: NestedField_sub option.case)
  then show ?thesis
    by (simp add: ProtectXR_def GetLabels_def hasProtectionLabel_def del: NestedField.simps)
next
  case (Some md)
  show ?thesis
  proof (cases "subObject md ''labels''")
    case None
    then obtain v where v: "map_of md ''labels'' = Some v" "\<forall>m. v \<noteq> JObject m"
      by (cases rule: subObject_cases [of md "''labels''"]) auto
    have "NestedField (JObject (objectOf u)) [''metadata'', ''labels''] = Some v"
      using Some v(1) by (simp only: NestedField_sub NestedField_top option.case)
    moreover have "NestedField (JObject (objectOf u))
        [''metadata'', ''labels'', ProtectionLabelBlockDeletion] = None"
      using Some None by (simp only: NestedField_sub option.case)
    ultimately show ?thesis using v(2)
      by (cases v)
         (simp_all add: ProtectXR_def GetLabels_def hasProtectionLabel_def del: NestedField.simps)
  next
    case ls: (Some ls)
    have nf: "NestedField (JObject (objectOf u)) [''metadata'', ''labels'', j] = map_of ls j" for j
      using Some ls by (simp only: NestedField_sub NestedField_top option.case)
    have all: "\<forall>j. map_of ls j \<noteq> None \<longrightarrow> isString (map_of ls j)"
      using assms unfolding nf by auto
    then have coerced: "\<forall>j. map_of ls j \<noteq> None \<longrightarrow> isStringOrNull (map_of ls j)"
      using isString_coerced by blast
    have "isString (map_of ls ProtectionLabelBlockDeletion)
        \<or> map_of ls ProtectionLabelBlockDeletion = None"
      using all by blast
    then show ?thesis
      unfolding ProtectXR_def hasProtectionLabel_def GetLabels_sub [OF Some ls] nf
      using coerced
      by (auto simp: EqualFold_true isString_def split: option.splits json.splits)
  qed
qed

lemma memberBody_eq:
  "memberBody sdk obs name (des, cnt, lg) =
     (case des name of
        None \<Rightarrow> Inr (des, cnt, lg)
      | Some d \<Rightarrow>
          (case obs name of
             None \<Rightarrow> Inr (des, cnt, lg)
           | Some ob \<Rightarrow>
               if MatchLabel (dc_Resource d) ProtectionLabelBlockDeletion
                  \<or> MatchLabel (oc_Resource ob) ProtectionLabelBlockDeletion
               then (case convertViaJSON sdk (GenerateUsage (oc_Resource ob)) of
                       Inl err \<Rightarrow>
                         Inl (err, lg @ [Debug ''protecting desired resource'' [(''name'', name)]])
                     | Inr uc \<Rightarrow>
                         Inr (des(GetName (oc_Resource ob) @ ''-protection'' \<mapsto> usageEntry uc),
                              cnt + 1,
                              lg @ [Debug ''protecting desired resource'' [(''name'', name)],
                                    Debug ''creating usage''
                                      [(''usage'', GetName (oc_Resource ob) @ ''-protection''),
                                       (''kind'', GetKind uc)]]))
               else Inr (des, cnt, lg)))"
  by (simp add: memberBody_def ProtectResource_def DeepCopy_def Let_def usageEntry_def
           split: option.splits sum.splits)

lemma protectComposite_eq:
  "protectComposite sdk xr (des, cnt, lg) =
     (if ProtectXR xr \<or> cnt > 0
      then (case convertViaJSON sdk (GenerateXRUsage xr) of
              Inl err \<Rightarrow> Inl (err, lg @ [Debug ''protecting Composite'' [(''name'', GetName xr)]])
            | Inr uc \<Rightarrow>
                Inr (des(GetName xr @ ''-xr-protection'' \<mapsto> usageEntry uc),
                     lg @ [Debug ''protecting Composite'' [(''name'', GetName xr)]]))
      else Inr (des, lg))"
  by (simp add: protectComposite_def DeepCopy_def Let_def usageEntry_def split: sum.splits)

lemma RunFunction_eq:
  assumes "GetObservedCompositeResource req = Inr xr"
    and "GetObservedComposedResources req = Inr obs"
    and "GetDesiredComposedResources req = Inr des"
  shows "RunFunction sdk names req =
     (case memberLoop sdk obs names (des, 0, startLog req) of
        Inl (err, lg) \<Rightarrow> (failed req (Wrap err ''cannot convert usage to unstructured''), lg)
      | Inr st \<Rightarrow>
          (case protectComposite sdk (xr_Resource xr) st of
             Inl (err, lg) \<Rightarrow> (failed req (Wrap err ''cannot convert usage to unstructured''), lg)
           | Inr (out, lg) \<Rightarrow>
               (case SetDesired_error sdk out of
                  Some err \<Rightarrow> (failed req (Wrap err ''cannot set desired resources''), lg)
                | None \<Rightarrow> (succeeded req out, lg))))"
  using assms
  by (simp add: RunFunction_def startLog_def failed_def succeeded_def response_To_def
        response_Fatal_def SetDesiredComposedResources_def
        ConditionTrue_TargetCompositeAndClaim_def split: sum.splits option.splits prod.splits)

section \<open>The examples evaluated\<close>

lemma labelled:
  "MatchLabel inst1 ProtectionLabelBlockDeletion"
  "MatchLabel inst2 ProtectionLabelBlockDeletion"
  "\<not> MatchLabel db1 ProtectionLabelBlockDeletion"
  by (simp_all add: MatchLabel_char inst1_def inst2_def db1_def ProtectionLabelBlockDeletion_def
        anyCaseTrue_def)

lemma example_getters:
  "GetName inst1 = ''inst-1''" "GetNamespace inst1 = ''ns1''"
  "GetName inst2 = ''inst-2''" "GetNamespace inst2 = ''ns1''"
  "GetName db1 = ''db-1''" "GetNamespace db1 = []"
  "GetKind inst1 = ''Instance''" "GetKind inst2 = ''Instance''" "GetKind db1 = ''Database''"
  "GetAPIVersion inst1 = ''rds.example.org/v1''" "GetAPIVersion inst2 = ''rds.example.org/v1''"
  "GetAPIVersion db1 = ''example.org/v1''"
  by (simp_all add: getters inst1_def inst2_def db1_def)

lemma convert_plain_usage:
  "convertViaJSON plainSDK (GenerateUsage u) = Inr (asUnstructured (GenerateUsage u))"
  "convertViaJSON plainSDK (GenerateXRUsage u) = Inr (asUnstructured (GenerateXRUsage u))"
  by (simp_all add: convertViaJSON_def plainSDK_def asUnstructured_def GenerateUsage_def
        GenerateXRUsage_def Let_def)

lemma GetKind_usage:
  "GetKind (asUnstructured (GenerateUsage u)) = (if GetNamespace u = [] then ''ClusterUsage'' else ''Usage'')"
  "GetKind (asUnstructured (GenerateXRUsage u)) = (if GetNamespace u = [] then ''ClusterUsage'' else ''Usage'')"
  by (simp_all add: asUnstructured_def GenerateUsage_def GenerateXRUsage_def Let_def GetKind_def
        getNestedString_def objectOf_def ClusterUsageKind_def UsageKind_def)

lemma convert_broken_inst1:
  "\<exists>uc. convertViaJSON brokenSDK (GenerateUsage inst1) = Inr uc"
  by (simp add: convertViaJSON_def brokenSDK_def plainSDK_def GenerateUsage_def Let_def example_getters)

lemma convert_broken_inst2:
  "convertViaJSON brokenSDK (GenerateUsage inst2) = Inl ''json: unsupported value''"
  by (simp add: convertViaJSON_def brokenSDK_def plainSDK_def GenerateUsage_def Let_def example_getters)

lemma twoMembers_fields:
  "GetObservedCompositeResource twoMembers = Inr \<lparr>xr_Resource = db1, xr_ConnectionDetails = []\<rparr>"
  "GetObservedComposedResources twoMembers = Inr observed12"
  "GetDesiredComposedResources twoMembers = Inr desired12"
  "req_Tag twoMembers = ''tag''"
  by (simp_all add: twoMembers_def)

lemma members12:
  "observed12 ''m1'' = Some \<lparr>oc_Resource = inst1, oc_ConnectionDetails = []\<rparr>"
  "observed12 ''m2'' = Some \<lparr>oc_Resource = inst2, oc_ConnectionDetails = []\<rparr>"
  "desired12 ''m1'' = Some \<lparr>dc_Resource = inst1, dc_Ready = ''True''\<rparr>"
  "desired12 ''m2'' = Some \<lparr>dc_Resource = inst2, dc_Ready = ''True''\<rparr>"
  by (simp_all add: observed12_def desired12_def)

lemma plain_install: "SetDesired_error plainSDK m = None"
  by (simp add: plainSDK_def)

lemma loop12:
  "memberLoop plainSDK observed12 [''m1'', ''m2''] (desired12, 0, lg) =
     Inr (desired12
            (''inst-1-protection'' \<mapsto> usageEntry (asUnstructured (GenerateUsage inst1)),
             ''inst-2-protection'' \<mapsto> usageEntry (asUnstructured (GenerateUsage inst2))),
          2,
          lg @ [Debug ''protecting desired resource'' [(''name'', ''m1'')],
                Debug ''creating usage'' [(''usage'', ''inst-1-protection''), (''kind'', ''Usage'')],
                Debug ''protecting desired resource'' [(''name'', ''m2'')],
                Debug ''creating usage'' [(''usage'', ''inst-2-protection''), (''kind'', ''Usage'')]])"
  by (simp add: memberBody_eq members12 labelled convert_plain_usage example_getters GetKind_usage)

section \<open>Failures\<close>

text \<open>
  Claim C3. Whenever one of the three retrievals fails, or the conversion of a usage record
  fails (for a member reached by the loop, also after records of earlier members have been
  built, or for the primary), or installing the desired set fails, the response is the
  failed one: a single fatal result whose message is the cause wrapped with the context of
  the step, no desired set and no success condition. The desired set of a failed response
  is unset.
\<close>

theorem fail_fast:
  "(GetObservedCompositeResource req = Inl err \<longrightarrow>
      fst (RunFunction sdk names req) = failed req (Wrap err ''cannot get observed composite''))
   \<and> (GetObservedCompositeResource req = Inr xr \<and>
       GetObservedComposedResources req = Inl err \<longrightarrow>
      fst (RunFunction sdk names req) = failed req (Wrap err ''cannot get observed resources''))
   \<and> (GetObservedCompositeResource req = Inr xr \<and>
       GetObservedComposedResources req = Inr obs \<and>
       GetDesiredComposedResources req = Inl err \<longrightarrow>
      fst (RunFunction sdk names req) = failed req
        (Wrap err ''cannot get desired composed resources from *v1.RunFunctionRequest''))
   \<and> (GetObservedCompositeResource req = Inr xr \<and>
       GetObservedComposedResources req = Inr obs \<and>
       GetDesiredComposedResources req = Inr des \<and>
       names = pre @ name # post \<and>
       memberLoop sdk obs pre (des, 0, startLog req) = Inr (des', cnt, lg) \<and>
       des' name = Some d \<and> obs name = Some ob \<and>
       (MatchLabel (dc_Resource d) ProtectionLabelBlockDeletion
          \<or> MatchLabel (oc_Resource ob) ProtectionLabelBlockDeletion) \<and>
       convertViaJSON sdk (GenerateUsage (oc_Resource ob)) = Inl err \<longrightarrow>
      fst (RunFunction sdk names req) = failed req
        (Wrap err ''cannot convert usage to unstructured''))
   \<and> (GetObservedCompositeResource req = Inr xr \<and>
       GetObservedComposedResources req = Inr obs \<and>
       GetDesiredComposedResources req = Inr des \<and>
       memberLoop sdk obs names (des, 0, startLog req) = Inr (des', cnt, lg) \<and>
       (ProtectXR (xr_Resource xr) \<or> cnt > 0) \<and>
       convertViaJSON sdk (GenerateXRUsage (xr_Resource xr)) = Inl err \<longrightarrow>
      fst (RunFunction sdk names req) = failed req
        (Wrap err ''cannot convert usage to unstructured''))
   \<and> (GetObservedCompositeResource req = Inr xr \<and>
       GetObservedComposedResources req = Inr obs \<and>
       GetDesiredComposedResources req = Inr des \<and>
       memberLoop sdk obs names (des, 0, startLog req) = Inr st \<and>
       protectComposite sdk (xr_Resource xr) st = Inr (out, lg) \<and>
       SetDesired_error sdk out = Some err \<longrightarrow>
      fst (RunFunction sdk names req) = failed req (Wrap err ''cannot set desired resources''))
   \<and> rsp_Desired (failed req cause) = None"
proof -
  have body: "memberLoop sdk obs (pre @ name # post) (des, 0, startLog req) = Inl (err, lg @ [Debug ''protecting desired resource'' [(''name'', name)]])"
    if "memberLoop sdk obs pre (des, 0, startLog req) = Inr (des', cnt, lg)"
       "des' name = Some d" "obs name = Some ob"
       "MatchLabel (dc_Resource d) ProtectionLabelBlockDeletion
          \<or> MatchLabel (oc_Resource ob) ProtectionLabelBlockDeletion"
       "convertViaJSON sdk (GenerateUsage (oc_Resource ob)) = Inl err"
    for pre name post des des' cnt lg d ob obs
    using that
    by (auto simp: memberLoop_append memberBody_def ProtectResource_def DeepCopy_def)
  show ?thesis
    apply (intro conjI impI)
    subgoal by (simp add: RunFunction_def failed_def response_To_def response_Fatal_def)
    subgoal by (simp add: RunFunction_def failed_def response_To_def response_Fatal_def)
    subgoal by (simp add: RunFunction_def failed_def response_To_def response_Fatal_def)
    subgoal
      using body
      by (simp add: RunFunction_def failed_def response_To_def response_Fatal_def startLog_def)
    subgoal
      by (auto simp: RunFunction_def failed_def response_To_def response_Fatal_def startLog_def
            protectComposite_def DeepCopy_def)
    subgoal
      by (simp add: RunFunction_def failed_def response_To_def response_Fatal_def startLog_def
            SetDesiredComposedResources_def)
    subgoal by (simp add: failed_def)
    done
qed

theorem fail_fast_witness:
  "fst (RunFunction plainSDK [] (twoMembers\<lparr>GetDesiredComposedResources := Inl ''no desired state''\<rparr>))
     = failed twoMembers
         ''cannot get desired composed resources from *v1.RunFunctionRequest: no desired state''
   \<and> fst (RunFunction brokenSDK [''m1'', ''m2''] twoMembers)
     = failed twoMembers ''cannot convert usage to unstructured: json: unsupported value''
   \<and> rsp_Desired (fst (RunFunction brokenSDK [''m1'', ''m2''] twoMembers)) = None"
proof -
  obtain uc where uc: "convertViaJSON brokenSDK (GenerateUsage inst1) = Inr uc"
    using convert_broken_inst1 by blast
  have first: "memberLoop brokenSDK observed12 [''m1''] (desired12, 0, startLog twoMembers)
      = Inr (desired12(''inst-1-protection'' \<mapsto> \<lparr>dc_Resource = uc, dc_Ready = []\<rparr>), 1,
             startLog twoMembers @ [Debug ''protecting desired resource'' [(''name'', ''m1'')],
               Debug ''creating usage'' [(''usage'', ''inst-1-protection''), (''kind'', GetKind uc)]])"
    by (simp add: memberBody_def ProtectResource_def labelled DeepCopy_def uc example_getters
          Let_def members12)
  have a: "fst (RunFunction plainSDK []
             (twoMembers\<lparr>GetDesiredComposedResources := Inl ''no desired state''\<rparr>))
           = failed (twoMembers\<lparr>GetDesiredComposedResources := Inl ''no desired state''\<rparr>)
               (Wrap ''no desired state''
                  ''cannot get desired composed resources from *v1.RunFunctionRequest'')"
    by (rule fail_fast [THEN conjunct2, THEN conjunct2, THEN conjunct1, rule_format])
       (simp add: twoMembers_fields)
  have b: "fst (RunFunction brokenSDK [''m1'', ''m2''] twoMembers)
           = failed twoMembers (Wrap ''json: unsupported value''
               ''cannot convert usage to unstructured'')"
    using fail_fast [where req = twoMembers and sdk = brokenSDK and names = "[''m1'', ''m2'']"
        and pre = "[''m1'']" and name = "''m2''" and post = "[]" and obs = observed12
        and des = desired12
        and xr = "\<lparr>xr_Resource = db1, xr_ConnectionDetails = []\<rparr>"
        and d = "\<lparr>dc_Resource = inst2, dc_Ready = ''True''\<rparr>"
        and ob = "\<lparr>oc_Resource = inst2, oc_ConnectionDetails = []\<rparr>"
        and err = "''json: unsupported value''"
        and des' = "desired12(''inst-1-protection'' \<mapsto> \<lparr>dc_Resource = uc, dc_Ready = []\<rparr>)"
        and cnt = 1
        and lg = "startLog twoMembers @ [Debug ''protecting desired resource'' [(''name'', ''m1'')],
               Debug ''creating usage'' [(''usage'', ''inst-1-protection''), (''kind'', GetKind uc)]]"]
      first labelled convert_broken_inst2
    by (simp add: twoMembers_fields members12)
  show ?thesis
    using a b by (simp add: Wrap_def failed_def)
qed

section \<open>The primary\<close>

text \<open>
  Claim C2. Let an invocation reach the check of the primary with the desired set \<open>des'\<close>
  and the count \<open>cnt\<close>. The primary counts as labelled when its labels hold the protection
  label with a value that reads \<^verbatim>\<open>true\<close> in any case; for a primary whose label
  values are all strings this is the condition that is tested on members. If it is
  labelled or the count is positive, the check adds one entry, under the key \<^verbatim>\<open><primaryName>-xr-protection\<close>, holding
  the converted record that \<open>GenerateXRUsage\<close> builds for the primary, and a successful
  invocation answers with that desired set; the record refers to the primary's
  apiVersion, kind and name (and namespace, if any). If it is not labelled and no member was
  protected, the check adds nothing and a successful invocation answers with \<open>des'\<close>.
\<close>

theorem primary_usage_iff:
  assumes "GetObservedCompositeResource req = Inr xr"
    and "GetObservedComposedResources req = Inr obs"
    and "GetDesiredComposedResources req = Inr des"
    and "memberLoop sdk obs names (des, 0, startLog req) = Inr (des', cnt, lg)"
  shows
    "(ProtectXR (xr_Resource xr) \<longleftrightarrow>
        (\<exists>v. GetLabels (xr_Resource xr) ProtectionLabelBlockDeletion = Some v \<and> anyCaseTrue v))
     \<and> ((\<forall>j v. NestedField (JObject (objectOf (xr_Resource xr))) [''metadata'', ''labels'', j]
                  = Some v \<longrightarrow> isString (Some v)) \<longrightarrow>
          ProtectXR (xr_Resource xr) = hasProtectionLabel (xr_Resource xr))
     \<and> ((ProtectXR (xr_Resource xr) \<or> cnt > 0) \<and>
         convertViaJSON sdk (GenerateXRUsage (xr_Resource xr)) = Inr uc \<longrightarrow>
           protectComposite sdk (xr_Resource xr) (des', cnt, lg) =
             Inr (des'(GetName (xr_Resource xr) @ ''-xr-protection'' \<mapsto> usageEntry uc),
                  lg @ [Debug ''protecting Composite'' [(''name'', GetName (xr_Resource xr))]])
           \<and> (SetDesired_error sdk
                 (des'(GetName (xr_Resource xr) @ ''-xr-protection'' \<mapsto> usageEntry uc)) = None \<longrightarrow>
               fst (RunFunction sdk names req) = succeeded req
                 (des'(GetName (xr_Resource xr) @ ''-xr-protection'' \<mapsto> usageEntry uc))))
     \<and> (\<not> ProtectXR (xr_Resource xr) \<and> cnt \<le> 0 \<longrightarrow>
           protectComposite sdk (xr_Resource xr) (des', cnt, lg) = Inr (des', lg)
           \<and> (SetDesired_error sdk des' = None \<longrightarrow>
               fst (RunFunction sdk names req) = succeeded req des'))
     \<and> NestedField (GenerateXRUsage (xr_Resource xr)) [''spec'', ''of'']
         = Some (JObject
             [(''apiVersion'', JString (GetAPIVersion (xr_Resource xr))),
              (''kind'', JString (GetKind (xr_Resource xr))),
              (''resourceRef'',
                 if GetNamespace (xr_Resource xr) = []
                 then JObject [(''name'', JString (GetName (xr_Resource xr)))]
                 else JObject [(''name'', JString (GetName (xr_Resource xr))),
                               (''namespace'', JString (GetNamespace (xr_Resource xr)))])])"
  using assms
  apply (intro impI conjI; (elim conjE)?)
  subgoal by (rule ProtectXR_char)
  subgoal by (rule ProtectXR_wellformed)
  subgoal by (simp add: protectComposite_eq)
  subgoal by (simp add: RunFunction_eq protectComposite_eq)
  subgoal by (simp add: protectComposite_eq)
  subgoal by (simp add: RunFunction_eq protectComposite_eq)
  subgoal by (simp add: GenerateXRUsage_def Let_def)
  done

theorem primary_usage_iff_witness:
  "fst (RunFunction plainSDK [''m1'', ''m2''] twoMembers) =
     succeeded twoMembers
       (desired12
          (''inst-1-protection'' \<mapsto> usageEntry (asUnstructured (GenerateUsage inst1)),
           ''inst-2-protection'' \<mapsto> usageEntry (asUnstructured (GenerateUsage inst2)),
           ''db-1-xr-protection'' \<mapsto> usageEntry (asUnstructured (GenerateXRUsage db1))))
   \<and> \<not> ProtectXR db1
   \<and> fst (RunFunction plainSDK [] noMembers) = succeeded noMembers Map.empty"
proof -
  have no: "\<not> ProtectXR db1"
    by (simp add: ProtectXR_def GetLabels_def objectOf_def db1_def)
  have a: "fst (RunFunction plainSDK [''m1'', ''m2''] twoMembers) =
     succeeded twoMembers
       (desired12
          (''inst-1-protection'' \<mapsto> usageEntry (asUnstructured (GenerateUsage inst1)),
           ''inst-2-protection'' \<mapsto> usageEntry (asUnstructured (GenerateUsage inst2)),
           ''db-1-xr-protection'' \<mapsto> usageEntry (asUnstructured (GenerateXRUsage db1))))"
    using primary_usage_iff [where req = twoMembers and sdk = plainSDK
        and names = "[''m1'', ''m2'']" and obs = observed12 and des = desired12
        and xr = "\<lparr>xr_Resource = db1, xr_ConnectionDetails = []\<rparr>" and cnt = 2
        and uc = "asUnstructured (GenerateXRUsage db1)", OF twoMembers_fields(1-3) loop12]
    by (simp add: convert_plain_usage example_getters plain_install)
  have b: "fst (RunFunction plainSDK [] noMembers) = succeeded noMembers Map.empty"
    using primary_usage_iff [where req = noMembers and sdk = plainSDK and names = "[]"
        and obs = Map.empty and des = Map.empty and des' = Map.empty and cnt = 0
        and lg = "startLog noMembers"
        and xr = "\<lparr>xr_Resource = db1, xr_ConnectionDetails = []\<rparr>"] no
    by (simp add: noMembers_def plain_install)
  from a no b show ?thesis by simp
qed

section \<open>The member loop\<close>

lemma MatchLabel_hasProtectionLabel:
  "MatchLabel u ProtectionLabelBlockDeletion = hasProtectionLabel u"
  unfolding MatchLabel_char hasProtectionLabel_def
  by (cases "Object u")
     (auto simp: objectOf_def NestedField_Cons split: option.splits json.splits)

lemma memberBody_protected:
  "memberBody sdk obs name (des, cnt, lg) =
     (if protectedMember des obs name
      then (case memberRecord sdk obs name of
              Inl err \<Rightarrow>
                Inl (err, lg @ [Debug ''protecting desired resource'' [(''name'', name)]])
            | Inr uc \<Rightarrow>
                Inr (des(memberKey obs name \<mapsto> usageEntry uc), cnt + 1,
                     lg @ [Debug ''protecting desired resource'' [(''name'', name)],
                           Debug ''creating usage''
                             [(''usage'', memberKey obs name), (''kind'', GetKind uc)]]))
      else Inr (des, cnt, lg))"
  by (cases "des name"; cases "obs name")
     (simp_all add: memberBody_eq protectedMember_def memberKey_def memberRecord_def
        MatchLabel_hasProtectionLabel split: sum.splits)

lemma protectedMember_cong:
  "cur n = des n \<Longrightarrow> protectedMember cur obs n = protectedMember des obs n"
  by (simp add: protectedMember_def)

lemma protectedMember_dom:
  "protectedMember des obs n \<Longrightarrow> n \<in> dom des \<and> n \<in> dom obs"
  by (auto simp: protectedMember_def split: option.splits)

lemma log_append:
  "protectedNames (a @ b) = protectedNames a @ protectedNames b"
  "createdKeys (a @ b) = createdKeys a @ createdKeys b"
  "compositeKeys (a @ b) = compositeKeys a @ compositeKeys b"
  by (simp_all add: protectedNames_def createdKeys_def compositeKeys_def List.map_filter_def)

lemma log_entries:
  "protectedNames [Debug ''protecting desired resource'' [(''name'', n)],
                   Debug ''creating usage'' [(''usage'', k), (''kind'', kd)]] = [n]"
  "createdKeys [Debug ''protecting desired resource'' [(''name'', n)],
                Debug ''creating usage'' [(''usage'', k), (''kind'', kd)]] = [k]"
  "compositeKeys [Debug ''protecting desired resource'' [(''name'', n)],
                  Debug ''creating usage'' [(''usage'', k), (''kind'', kd)]] = []"
  "protectedNames [Debug ''protecting Composite'' [(''name'', n)]] = []"
  "createdKeys [Debug ''protecting Composite'' [(''name'', n)]] = []"
  "compositeKeys [Debug ''protecting Composite'' [(''name'', n)]] = [n @ ''-xr-protection'']"
  "protectedNames (startLog req) = []" "createdKeys (startLog req) = []"
  "compositeKeys (startLog req) = []"
  "protectedNames [] = []" "createdKeys [] = []" "compositeKeys [] = []"
  by (simp_all add: protectedNames_def createdKeys_def compositeKeys_def List.map_filter_def
        startLog_def)

lemma log_Cons:
  "protectedNames (Debug ''protecting desired resource'' [(''name'', n)] #
                   Debug ''creating usage'' [(''usage'', k), (''kind'', kd)] # new)
     = n # protectedNames new"
  "createdKeys (Debug ''protecting desired resource'' [(''name'', n)] #
                Debug ''creating usage'' [(''usage'', k), (''kind'', kd)] # new)
     = k # createdKeys new"
  "compositeKeys (Debug ''protecting desired resource'' [(''name'', n)] #
                  Debug ''creating usage'' [(''usage'', k), (''kind'', kd)] # new)
     = compositeKeys new"
  by (simp_all add: protectedNames_def createdKeys_def compositeKeys_def List.map_filter_def)

lemma loop_log:
  assumes "memberLoop sdk obs names (des, cnt, lg) = Inr (des', cnt', lg')"
  shows "\<exists>new. lg' = lg @ new
           \<and> cnt' = cnt + int (length (protectedNames new))
           \<and> createdKeys new = map (memberKey obs) (protectedNames new)
           \<and> compositeKeys new = []
           \<and> set (protectedNames new) \<subseteq> set names \<inter> dom obs
           \<and> (\<forall>k. k \<notin> set (createdKeys new) \<longrightarrow> des' k = des k)
           \<and> (\<forall>k\<in>set (createdKeys new). \<exists>n\<in>set (protectedNames new). \<exists>uc.
                  memberKey obs n = k \<and> memberRecord sdk obs n = Inr uc \<and>
                  des' k = Some (usageEntry uc))"
  using assms
proof (induction names arbitrary: des cnt lg)
  case Nil
  then show ?case by (auto simp: log_entries intro!: exI [of _ "[]"])
next
  case (Cons n ns)
  show ?case
  proof (cases "protectedMember des obs n")
    case False
    with Cons.prems have "memberLoop sdk obs ns (des, cnt, lg) = Inr (des', cnt', lg')"
      by (simp add: memberBody_protected)
    from Cons.IH [OF this] show ?thesis by auto
  next
    case True
    then have n_obs: "n \<in> dom obs"
      by (auto simp: protectedMember_def split: option.splits)
    from True Cons.prems obtain uc where uc: "memberRecord sdk obs n = Inr uc"
      by (cases "memberRecord sdk obs n") (simp_all add: memberBody_protected)
    let ?two = "[Debug ''protecting desired resource'' [(''name'', n)],
                 Debug ''creating usage'' [(''usage'', memberKey obs n), (''kind'', GetKind uc)]]"
    let ?des1 = "des(memberKey obs n \<mapsto> usageEntry uc)"
    from True uc Cons.prems
    have "memberLoop sdk obs ns (?des1, cnt + 1, lg @ ?two) = Inr (des', cnt', lg')"
      by (simp add: memberBody_protected)
    from Cons.IH [OF this] obtain new where new:
      "lg' = (lg @ ?two) @ new"
      "cnt' = cnt + 1 + int (length (protectedNames new))"
      "createdKeys new = map (memberKey obs) (protectedNames new)"
      "compositeKeys new = []"
      "set (protectedNames new) \<subseteq> set ns \<inter> dom obs"
      "\<forall>k. k \<notin> set (createdKeys new) \<longrightarrow> des' k = ?des1 k"
      "\<forall>k\<in>set (createdKeys new). \<exists>n\<in>set (protectedNames new). \<exists>uc.
          memberKey obs n = k \<and> memberRecord sdk obs n = Inr uc \<and> des' k = Some (usageEntry uc)"
      by blast
    have pn: "protectedNames (?two @ new) = n # protectedNames new"
      and ck: "createdKeys (?two @ new) = memberKey obs n # createdKeys new"
      and xk: "compositeKeys (?two @ new) = []"
      using new(4) by (simp_all add: log_Cons)
    have frame: "\<forall>k. k \<notin> set (createdKeys (?two @ new)) \<longrightarrow> des' k = des k"
      using new(6) by (simp add: log_Cons)
    have written: "\<forall>k\<in>set (createdKeys (?two @ new)).
        \<exists>m\<in>set (protectedNames (?two @ new)). \<exists>uc.
          memberKey obs m = k \<and> memberRecord sdk obs m = Inr uc \<and> des' k = Some (usageEntry uc)"
    proof
      fix k assume k: "k \<in> set (createdKeys (?two @ new))"
      show "\<exists>m\<in>set (protectedNames (?two @ new)). \<exists>uc.
          memberKey obs m = k \<and> memberRecord sdk obs m = Inr uc \<and> des' k = Some (usageEntry uc)"
      proof (cases "k \<in> set (createdKeys new)")
        case True
        with new(7) show ?thesis unfolding pn by auto
      next
        case False
        with k have "k = memberKey obs n" by (simp add: log_Cons)
        moreover from False new(6) have "des' k = ?des1 k" by blast
        ultimately show ?thesis using uc unfolding pn by auto
      qed
    qed
    show ?thesis
    proof (intro exI [of _ "?two @ new"] conjI)
      show "lg' = lg @ ?two @ new" using new(1) by simp
      show "cnt' = cnt + int (length (protectedNames (?two @ new)))"
        using new(2) by (simp add: log_Cons)
      show "createdKeys (?two @ new) = map (memberKey obs) (protectedNames (?two @ new))"
        using new(3) by (simp add: log_Cons)
      show "compositeKeys (?two @ new) = []" by (rule xk)
      show "set (protectedNames (?two @ new)) \<subseteq> set (n # ns) \<inter> dom obs"
        using new(5) n_obs by (auto simp: log_Cons)
      show "\<forall>k. k \<notin> set (createdKeys (?two @ new)) \<longrightarrow> des' k = des k" by (rule frame)
      show "\<forall>k\<in>set (createdKeys (?two @ new)).
        \<exists>m\<in>set (protectedNames (?two @ new)). \<exists>uc.
          memberKey obs m = k \<and> memberRecord sdk obs m = Inr uc \<and> des' k = Some (usageEntry uc)"
        by (rule written)
    qed
  qed
qed

lemma loop_log_start:
  assumes "memberLoop sdk obs names (des, 0, startLog req) = Inr (des', cnt, lg)"
  shows "cnt = int (length (protectedNames lg))"
    and "createdKeys lg = map (memberKey obs) (protectedNames lg)"
    and "compositeKeys lg = []"
    and "set (protectedNames lg) \<subseteq> set names \<inter> dom obs"
    and "\<forall>k. k \<notin> set (createdKeys lg) \<longrightarrow> des' k = des k"
    and "\<forall>k\<in>set (createdKeys lg). \<exists>n\<in>set (protectedNames lg). \<exists>uc.
           memberKey obs n = k \<and> memberRecord sdk obs n = Inr uc \<and> des' k = Some (usageEntry uc)"
proof -
  from loop_log [OF assms] obtain new where new:
    "lg = startLog req @ new"
    "cnt = 0 + int (length (protectedNames new))"
    "createdKeys new = map (memberKey obs) (protectedNames new)"
    "compositeKeys new = []"
    "set (protectedNames new) \<subseteq> set names \<inter> dom obs"
    "\<forall>k. k \<notin> set (createdKeys new) \<longrightarrow> des' k = des k"
    "\<forall>k\<in>set (createdKeys new). \<exists>n\<in>set (protectedNames new). \<exists>uc.
        memberKey obs n = k \<and> memberRecord sdk obs n = Inr uc \<and> des' k = Some (usageEntry uc)"
    by blast
  have eqs: "protectedNames lg = protectedNames new" "createdKeys lg = createdKeys new"
    "compositeKeys lg = compositeKeys new"
    unfolding new(1) by (simp_all add: log_append log_entries)
  show "cnt = int (length (protectedNames lg))" using new(2) by (simp add: eqs)
  show "createdKeys lg = map (memberKey obs) (protectedNames lg)" using new(3) by (simp add: eqs)
  show "compositeKeys lg = []" using new(4) by (simp add: eqs)
  show "set (protectedNames lg) \<subseteq> set names \<inter> dom obs" using new(5) by (simp add: eqs)
  show "\<forall>k. k \<notin> set (createdKeys lg) \<longrightarrow> des' k = des k" using new(6) by (simp add: eqs)
  show "\<forall>k\<in>set (createdKeys lg). \<exists>n\<in>set (protectedNames lg). \<exists>uc.
           memberKey obs n = k \<and> memberRecord sdk obs n = Inr uc \<and> des' k = Some (usageEntry uc)"
    using new(7) by (simp add: eqs)
qed

text \<open>The loop and the whole handler on the examples.\<close>

lemma labelledAB:
  "MatchLabel appDeployment ProtectionLabelBlockDeletion"
  "MatchLabel appService ProtectionLabelBlockDeletion"
  by (simp_all add: MatchLabel_char appDeployment_def appService_def
        ProtectionLabelBlockDeletion_def anyCaseTrue_def)

lemma gettersAB:
  "GetName appDeployment = ''app''" "GetNamespace appDeployment = ''prod''"
  "GetName appService = ''app''" "GetNamespace appService = ''prod''"
  "GetKind appDeployment = ''Deployment''" "GetKind appService = ''Service''"
  "GetAPIVersion appDeployment = ''apps/v1''" "GetAPIVersion appService = ''v1''"
  by (simp_all add: getters appDeployment_def appService_def)

lemma membersAB:
  "observedAB ''a'' = Some \<lparr>oc_Resource = appDeployment, oc_ConnectionDetails = []\<rparr>"
  "observedAB ''b'' = Some \<lparr>oc_Resource = appService, oc_ConnectionDetails = []\<rparr>"
  "desiredAB ''a'' = Some \<lparr>dc_Resource = appDeployment, dc_Ready = ''True''\<rparr>"
  "desiredAB ''b'' = Some \<lparr>dc_Resource = appService, dc_Ready = ''True''\<rparr>"
  "observedAB ''app-protection'' = None" "desiredAB ''app-protection'' = None"
  by (simp_all add: observedAB_def desiredAB_def)

lemma sameName_fields:
  "GetObservedCompositeResource sameName = Inr \<lparr>xr_Resource = db1, xr_ConnectionDetails = []\<rparr>"
  "GetObservedComposedResources sameName = Inr observedAB"
  "GetDesiredComposedResources sameName = Inr desiredAB"
  "req_Tag sameName = ''tag''"
  by (simp_all add: sameName_def)

lemma loopAB:
  "memberLoop plainSDK observedAB [''a'', ''b''] (desiredAB, 0, lg) =
     Inr (desiredAB(''app-protection'' \<mapsto> usageEntry (asUnstructured (GenerateUsage appService))),
          2,
          lg @ [Debug ''protecting desired resource'' [(''name'', ''a'')],
                Debug ''creating usage'' [(''usage'', ''app-protection''), (''kind'', ''Usage'')],
                Debug ''protecting desired resource'' [(''name'', ''b'')],
                Debug ''creating usage'' [(''usage'', ''app-protection''), (''kind'', ''Usage'')]])"
  by (simp add: memberBody_eq membersAB labelledAB convert_plain_usage gettersAB GetKind_usage)

lemma loopBA:
  "memberLoop plainSDK observedAB [''b'', ''a''] (desiredAB, 0, lg) =
     Inr (desiredAB(''app-protection'' \<mapsto> usageEntry (asUnstructured (GenerateUsage appDeployment))),
          2,
          lg @ [Debug ''protecting desired resource'' [(''name'', ''b'')],
                Debug ''creating usage'' [(''usage'', ''app-protection''), (''kind'', ''Usage'')],
                Debug ''protecting desired resource'' [(''name'', ''a'')],
                Debug ''creating usage'' [(''usage'', ''app-protection''), (''kind'', ''Usage'')]])"
  by (simp add: memberBody_eq membersAB labelledAB convert_plain_usage gettersAB GetKind_usage)

lemma loop1:
  "memberLoop plainSDK observed12 [''m1''] (desired12, 0, lg) =
     Inr (desired12(''inst-1-protection'' \<mapsto> usageEntry (asUnstructured (GenerateUsage inst1))),
          1,
          lg @ [Debug ''protecting desired resource'' [(''name'', ''m1'')],
                Debug ''creating usage'' [(''usage'', ''inst-1-protection''), (''kind'', ''Usage'')]])"
  by (simp add: memberBody_eq members12 labelled convert_plain_usage example_getters GetKind_usage)

lemma run12:
  "RunFunction plainSDK [''m1'', ''m2''] twoMembers =
     (succeeded twoMembers
        (desired12
           (''inst-1-protection'' \<mapsto> usageEntry (asUnstructured (GenerateUsage inst1)),
            ''inst-2-protection'' \<mapsto> usageEntry (asUnstructured (GenerateUsage inst2)),
            ''db-1-xr-protection'' \<mapsto> usageEntry (asUnstructured (GenerateXRUsage db1)))),
      startLog twoMembers @
        [Debug ''protecting desired resource'' [(''name'', ''m1'')],
         Debug ''creating usage'' [(''usage'', ''inst-1-protection''), (''kind'', ''Usage'')],
         Debug ''protecting desired resource'' [(''name'', ''m2'')],
         Debug ''creating usage'' [(''usage'', ''inst-2-protection''), (''kind'', ''Usage'')],
         Debug ''protecting Composite'' [(''name'', ''db-1'')]])"
  by (simp add: RunFunction_eq [OF twoMembers_fields(1-3)] loop12 protectComposite_eq
        convert_plain_usage example_getters plain_install del: memberLoop.simps)

lemma loop_names:
  assumes nocoll: "\<forall>n. protectedMember inp obs n \<longrightarrow> memberKey obs n \<notin> dom obs"
    and inv: "\<forall>k\<in>dom obs. cur k = inp k"
    and run: "memberLoop sdk obs ns (cur, cnt, lg) = Inr (fin, c, l)"
  shows "protectedNames l = protectedNames lg @ filter (protectedMember inp obs) ns"
  using inv run
proof (induction ns arbitrary: cur cnt lg)
  case Nil
  then show ?case by simp
next
  case (Cons n ns)
  have pm: "protectedMember cur obs n = protectedMember inp obs n"
  proof (cases "n \<in> dom obs")
    case True
    with Cons.prems(1) show ?thesis by (intro protectedMember_cong) blast
  next
    case False
    then show ?thesis by (auto simp: protectedMember_def split: option.splits)
  qed
  show ?case
  proof (cases "protectedMember inp obs n")
    case False
    with pm Cons.prems(2) have "memberLoop sdk obs ns (cur, cnt, lg) = Inr (fin, c, l)"
      by (simp add: memberBody_protected)
    from Cons.IH [OF Cons.prems(1) this] False show ?thesis by simp
  next
    case True
    with pm Cons.prems(2) obtain uc where uc: "memberRecord sdk obs n = Inr uc"
      by (cases "memberRecord sdk obs n") (simp_all add: memberBody_protected)
    let ?cur = "cur(memberKey obs n \<mapsto> usageEntry uc)"
    let ?lg = "lg @ [Debug ''protecting desired resource'' [(''name'', n)],
                     Debug ''creating usage''
                       [(''usage'', memberKey obs n), (''kind'', GetKind uc)]]"
    have inv': "\<forall>k\<in>dom obs. ?cur k = inp k"
      using Cons.prems(1) nocoll True by auto
    have "memberLoop sdk obs ns (?cur, cnt + 1, ?lg) = Inr (fin, c, l)"
      using True pm uc Cons.prems(2) by (simp add: memberBody_protected)
    from Cons.IH [OF inv' this] True show ?thesis
      by (simp add: log_append log_entries)
  qed
qed

lemma hasLabel12: "hasProtectionLabel inst1" "hasProtectionLabel inst2"
  using labelled(1,2) by (simp_all only: MatchLabel_hasProtectionLabel)

lemma protected12_names:
  assumes "protectedMember desired12 observed12 n"
  shows "n = ''m1'' \<or> n = ''m2''"
  using assms by (auto simp: protectedMember_def desired12_def split: if_splits)

lemma protected12: "protectedMember desired12 observed12 ''m1''"
  "protectedMember desired12 observed12 ''m2''"
  by (simp_all add: protectedMember_def members12 hasLabel12)

lemma keys12: "memberKey observed12 ''m1'' = ''inst-1-protection''"
    "memberKey observed12 ''m2'' = ''inst-2-protection''"
    by (simp_all add: memberKey_def members12 example_getters)

lemma dom12: "dom observed12 = {''m1'', ''m2''}"
    by (auto simp: observed12_def)

lemma nocoll12:
  "\<forall>n. protectedMember desired12 observed12 n \<longrightarrow> memberKey observed12 n \<notin> dom observed12"
proof (intro allI impI)
  fix n assume "protectedMember desired12 observed12 n"
  from protected12_names [OF this] keys12 show "memberKey observed12 n \<notin> dom observed12"
    unfolding dom12 by auto
qed

text \<open>
  Claim C1. Let the loop reach the member name \<open>name\<close> with the desired set \<open>des\<close>, the
  count \<open>cnt\<close> and the log \<open>lg\<close>. If \<open>des\<close> and the observed set both hold \<open>name\<close> and the
  desired copy or the observed copy carries the protection label, the loop converts the
  record that \<open>GenerateUsage\<close> builds from the observed copy and, unless the conversion
  fails, stores it under the key \<^verbatim>\<open><observedName>-protection\<close>, adds one to the count and
  logs the two steps; the \<^verbatim>\<open>spec.of\<close> of the record holds the apiVersion, the kind and the
  name of the observed copy, and its namespace when it has one. In every other case the
  loop passes \<open>name\<close> without any change. Carrying the label is what \<open>MatchLabel\<close> tests.

  In terms of the input alone: when no key made for a protected member of the input is a
  member name of the observed set, a loop that returns has protected exactly the names of
  its order that are in both input sets with the label on either copy, in that order, and
  the desired set it returns holds, under the key of each of them, the converted record of
  a protected member with that key.
\<close>

theorem member_usage_iff:
  assumes "memberLoop sdk obs pre st = Inr (des, cnt, lg)"
  shows
    "((\<exists>d ob. des name = Some d \<and> obs name = Some ob \<and>
         (hasProtectionLabel (dc_Resource d) \<or> hasProtectionLabel (oc_Resource ob))) \<longrightarrow>
       (\<exists>ob. obs name = Some ob \<and>
          memberLoop sdk obs (pre @ [name]) st =
            (case convertViaJSON sdk (GenerateUsage (oc_Resource ob)) of
               Inl err \<Rightarrow>
                 Inl (err, lg @ [Debug ''protecting desired resource'' [(''name'', name)]])
             | Inr uc \<Rightarrow>
                 Inr (des(GetName (oc_Resource ob) @ ''-protection'' \<mapsto> usageEntry uc), cnt + 1,
                      lg @ [Debug ''protecting desired resource'' [(''name'', name)],
                            Debug ''creating usage''
                              [(''usage'', GetName (oc_Resource ob) @ ''-protection''),
                               (''kind'', GetKind uc)]])) \<and>
          NestedField (GenerateUsage (oc_Resource ob)) [''spec'', ''of'']
            = Some (JObject
                [(''apiVersion'', JString (GetAPIVersion (oc_Resource ob))),
                 (''kind'', JString (GetKind (oc_Resource ob))),
                 (''resourceRef'',
                    if GetNamespace (oc_Resource ob) = []
                    then JObject [(''name'', JString (GetName (oc_Resource ob)))]
                    else JObject [(''name'', JString (GetName (oc_Resource ob))),
                                  (''namespace'', JString (GetNamespace (oc_Resource ob)))])])))
     \<and> (\<not> (\<exists>d ob. des name = Some d \<and> obs name = Some ob \<and>
         (hasProtectionLabel (dc_Resource d) \<or> hasProtectionLabel (oc_Resource ob))) \<longrightarrow>
        memberLoop sdk obs (pre @ [name]) st = Inr (des, cnt, lg))
     \<and> (hasProtectionLabel u \<longleftrightarrow> MatchLabel u ProtectionLabelBlockDeletion)
     \<and> ((\<forall>n. protectedMember inp obs n \<longrightarrow> memberKey obs n \<notin> dom obs) \<and>
         memberLoop sdk obs names (inp, 0, startLog req) = Inr (fin, c, l) \<longrightarrow>
           protectedNames l = filter (protectedMember inp obs) names \<and>
           (\<forall>n\<in>set names. protectedMember inp obs n \<longrightarrow>
              (\<exists>m\<in>set names. \<exists>uc. protectedMember inp obs m \<and>
                  memberKey obs m = memberKey obs n \<and> memberRecord sdk obs m = Inr uc \<and>
                  fin (memberKey obs n) = Some (usageEntry uc))))"
proof -
  have step: "memberLoop sdk obs (pre @ [name]) st = memberBody sdk obs name (des, cnt, lg)"
    using assms by (simp add: memberLoop_append split: sum.splits)
  have whole: "protectedNames l = filter (protectedMember inp obs) names \<and>
           (\<forall>n\<in>set names. protectedMember inp obs n \<longrightarrow>
              (\<exists>m\<in>set names. \<exists>uc. protectedMember inp obs m \<and>
                  memberKey obs m = memberKey obs n \<and> memberRecord sdk obs m = Inr uc \<and>
                  fin (memberKey obs n) = Some (usageEntry uc)))"
    if nocoll: "\<forall>n. protectedMember inp obs n \<longrightarrow> memberKey obs n \<notin> dom obs"
      and run: "memberLoop sdk obs names (inp, 0, startLog req) = Inr (fin, c, l)"
  proof -
    have pn: "protectedNames l = filter (protectedMember inp obs) names"
      using loop_names [OF nocoll _ run] by (simp add: log_entries)
    note facts = loop_log_start [OF run]
    have "\<exists>m\<in>set names. \<exists>uc. protectedMember inp obs m \<and>
            memberKey obs m = memberKey obs n \<and> memberRecord sdk obs m = Inr uc \<and>
            fin (memberKey obs n) = Some (usageEntry uc)"
      if n: "n \<in> set names" "protectedMember inp obs n" for n
    proof -
      from n have "memberKey obs n \<in> set (createdKeys l)"
        unfolding facts(2) pn by simp
      with facts(6) obtain m uc where "m \<in> set (protectedNames l)"
        "memberKey obs m = memberKey obs n" "memberRecord sdk obs m = Inr uc"
        "fin (memberKey obs n) = Some (usageEntry uc)" by blast
      then show ?thesis unfolding pn by auto
    qed
    with pn show ?thesis by blast
  qed
  show ?thesis
    unfolding step using whole
    by (auto simp: memberBody_eq MatchLabel_hasProtectionLabel GenerateUsage_def Let_def
          split: option.splits)
qed

theorem member_usage_iff_witness:
  "memberLoop plainSDK observed12 ([''m1''] @ [''m2'']) (desired12, 0, []) =
     Inr (desired12
            (''inst-1-protection'' \<mapsto> usageEntry (asUnstructured (GenerateUsage inst1)),
             ''inst-2-protection'' \<mapsto> usageEntry (asUnstructured (GenerateUsage inst2))),
          2,
          [Debug ''protecting desired resource'' [(''name'', ''m1'')],
           Debug ''creating usage'' [(''usage'', ''inst-1-protection''), (''kind'', ''Usage'')],
           Debug ''protecting desired resource'' [(''name'', ''m2'')],
           Debug ''creating usage'' [(''usage'', ''inst-2-protection''), (''kind'', ''Usage'')]])
   \<and> memberLoop plainSDK observed12 ([''m1''] @ [''m3'']) (desired12, 0, []) =
     Inr (desired12(''inst-1-protection'' \<mapsto> usageEntry (asUnstructured (GenerateUsage inst1))),
          1,
          [Debug ''protecting desired resource'' [(''name'', ''m1'')],
           Debug ''creating usage'' [(''usage'', ''inst-1-protection''), (''kind'', ''Usage'')]])
   \<and> NestedField (GenerateUsage inst2) [''spec'', ''of'']
       = Some (JObject
           [(''apiVersion'', JString ''rds.example.org/v1''),
            (''kind'', JString ''Instance''),
            (''resourceRef'', JObject [(''name'', JString ''inst-2''),
                                       (''namespace'', JString ''ns1'')])])
   \<and> protectedNames
        (startLog twoMembers @
         [Debug ''protecting desired resource'' [(''name'', ''m1'')],
          Debug ''creating usage'' [(''usage'', ''inst-1-protection''), (''kind'', ''Usage'')],
          Debug ''protecting desired resource'' [(''name'', ''m2'')],
          Debug ''creating usage'' [(''usage'', ''inst-2-protection''), (''kind'', ''Usage'')]])
       = [''m1'', ''m2'']
   \<and> (\<exists>uc. memberRecord plainSDK observed12 ''m2'' = Inr uc \<and>
         (desired12
            (''inst-1-protection'' \<mapsto> usageEntry (asUnstructured (GenerateUsage inst1)),
             ''inst-2-protection'' \<mapsto> usageEntry (asUnstructured (GenerateUsage inst2))))
           (memberKey observed12 ''m2'') = Some (usageEntry uc))"
proof -
  note usage = member_usage_iff [OF loop1 [of "[]"]]
  have m3: "observed12 ''m3'' = None" by (simp add: observed12_def)
  have yes: "\<exists>d ob. (desired12(''inst-1-protection'' \<mapsto> usageEntry (asUnstructured (GenerateUsage inst1)))) ''m2'' = Some d \<and>
      observed12 ''m2'' = Some ob \<and>
      (hasProtectionLabel (dc_Resource d) \<or> hasProtectionLabel (oc_Resource ob))"
    by (simp add: members12 hasLabel12)
  have no: "\<not> (\<exists>d ob. (desired12(''inst-1-protection'' \<mapsto> usageEntry (asUnstructured (GenerateUsage inst1)))) ''m3'' = Some d \<and>
      observed12 ''m3'' = Some ob \<and>
      (hasProtectionLabel (dc_Resource d) \<or> hasProtectionLabel (oc_Resource ob)))"
    by (simp add: m3)
  from usage [where name = "''m2''", THEN conjunct1, rule_format, OF yes]
  have first: "memberLoop plainSDK observed12 ([''m1''] @ [''m2'']) (desired12, 0, []) =
     Inr (desired12
            (''inst-1-protection'' \<mapsto> usageEntry (asUnstructured (GenerateUsage inst1)),
             ''inst-2-protection'' \<mapsto> usageEntry (asUnstructured (GenerateUsage inst2))),
          2,
          [Debug ''protecting desired resource'' [(''name'', ''m1'')],
           Debug ''creating usage'' [(''usage'', ''inst-1-protection''), (''kind'', ''Usage'')],
           Debug ''protecting desired resource'' [(''name'', ''m2'')],
           Debug ''creating usage'' [(''usage'', ''inst-2-protection''), (''kind'', ''Usage'')]])"
    and spec_of: "NestedField (GenerateUsage inst2) [''spec'', ''of'']
       = Some (JObject
           [(''apiVersion'', JString ''rds.example.org/v1''),
            (''kind'', JString ''Instance''),
            (''resourceRef'', JObject [(''name'', JString ''inst-2''),
                                       (''namespace'', JString ''ns1'')])])"
    by (simp_all add: members12 convert_plain_usage example_getters GetKind_usage
          del: memberLoop.simps)
  from usage [where name = "''m3''", THEN conjunct2, THEN conjunct1, rule_format, OF no]
  have second: "memberLoop plainSDK observed12 ([''m1''] @ [''m3'']) (desired12, 0, []) =
     Inr (desired12(''inst-1-protection'' \<mapsto> usageEntry (asUnstructured (GenerateUsage inst1))),
          1,
          [Debug ''protecting desired resource'' [(''name'', ''m1'')],
           Debug ''creating usage'' [(''usage'', ''inst-1-protection''), (''kind'', ''Usage'')]])"
    by (simp del: memberLoop.simps)
  note whole = usage [THEN conjunct2, THEN conjunct2, THEN conjunct2, rule_format,
      OF conjI [OF nocoll12 loop12 [of "startLog twoMembers"]]]
  have flt: "filter (protectedMember desired12 observed12) [''m1'', ''m2''] = [''m1'', ''m2'']"
    by (simp add: protected12)
  from whole [THEN conjunct1] flt
  have third: "protectedNames
        (startLog twoMembers @
         [Debug ''protecting desired resource'' [(''name'', ''m1'')],
          Debug ''creating usage'' [(''usage'', ''inst-1-protection''), (''kind'', ''Usage'')],
          Debug ''protecting desired resource'' [(''name'', ''m2'')],
          Debug ''creating usage'' [(''usage'', ''inst-2-protection''), (''kind'', ''Usage'')]])
       = [''m1'', ''m2'']"
    by (rule trans)
  have mem: "''m2'' \<in> set [''m1'', ''m2'']" by simp
  from whole [THEN conjunct2, rule_format, OF mem protected12(2)]
  obtain m uc where m: "m \<in> set [''m1'', ''m2'']" "memberKey observed12 m = memberKey observed12 ''m2''"
    "memberRecord plainSDK observed12 m = Inr uc"
    "(desired12
            (''inst-1-protection'' \<mapsto> usageEntry (asUnstructured (GenerateUsage inst1)),
             ''inst-2-protection'' \<mapsto> usageEntry (asUnstructured (GenerateUsage inst2))))
           (memberKey observed12 ''m2'') = Some (usageEntry uc)"
    by blast
  from m(1,2) have "m = ''m2''" by (auto simp: keys12)
  with m(3,4) have fourth: "\<exists>uc. memberRecord plainSDK observed12 ''m2'' = Inr uc \<and>
         (desired12
            (''inst-1-protection'' \<mapsto> usageEntry (asUnstructured (GenerateUsage inst1)),
             ''inst-2-protection'' \<mapsto> usageEntry (asUnstructured (GenerateUsage inst2))))
           (memberKey observed12 ''m2'') = Some (usageEntry uc)"
    by blast
  from first second spec_of third fourth show ?thesis by (intro conjI)
qed

text \<open>
  Claim C10. The key of a member's record comes from the name of the observed resource
  and not from the member name. If a run of the loop logs two different member names as
  protected and their observed resources have the same name, both records are stored
  under the one key \<^verbatim>\<open><observedName>-protection\<close>: the desired set ends with a single
  record there (that of a protected member with this observed name), the count equals the
  number of members logged as protected, at least two, and the number of different keys
  created is smaller than the count.
\<close>

theorem shared_observed_name:
  assumes loop: "memberLoop sdk obs names (des, 0, startLog req) = Inr (des', cnt, lg)"
    and na: "na \<in> set (protectedNames lg)" and nb: "nb \<in> set (protectedNames lg)"
    and ne: "na \<noteq> nb"
    and oa: "obs na = Some oa" and ob: "obs nb = Some ob"
    and same: "GetName (oc_Resource oa) = GetName (oc_Resource ob)"
  shows "createdKeys lg = map (memberKey obs) (protectedNames lg)
     \<and> memberKey obs na = GetName (oc_Resource oa) @ ''-protection''
     \<and> memberKey obs nb = GetName (oc_Resource oa) @ ''-protection''
     \<and> cnt = int (length (protectedNames lg))
     \<and> 2 \<le> cnt
     \<and> int (card (set (createdKeys lg))) < cnt
     \<and> (\<exists>n uc. n \<in> set (protectedNames lg) \<and>
           memberKey obs n = GetName (oc_Resource oa) @ ''-protection'' \<and>
           memberRecord sdk obs n = Inr uc \<and>
           des' (GetName (oc_Resource oa) @ ''-protection'') = Some (usageEntry uc))"
proof -
  note facts = loop_log_start [OF loop]
  have ka: "memberKey obs na = GetName (oc_Resource oa) @ ''-protection''"
    and kb: "memberKey obs nb = GetName (oc_Resource oa) @ ''-protection''"
    using oa ob same by (simp_all add: memberKey_def)
  have "\<not> inj_on (memberKey obs) (set (protectedNames lg))"
    using na nb ne ka kb unfolding inj_on_def by metis
  then have nd: "\<not> distinct (createdKeys lg)"
    unfolding facts(2) by (simp add: distinct_map)
  have "card (set (createdKeys lg)) \<le> length (createdKeys lg)" by (rule card_length)
  moreover have "card (set (createdKeys lg)) \<noteq> length (createdKeys lg)"
    using nd card_distinct by blast
  ultimately have less: "card (set (createdKeys lg)) < length (protectedNames lg)"
    by (simp add: facts(2))
  have two: "2 \<le> length (protectedNames lg)"
  proof -
    have "card {na, nb} \<le> card (set (protectedNames lg))"
      using na nb by (intro card_mono) auto
    also have "\<dots> \<le> length (protectedNames lg)" by (rule card_length)
    finally show ?thesis using ne by simp
  qed
  have key_in: "GetName (oc_Resource oa) @ ''-protection'' \<in> set (createdKeys lg)"
    using na ka unfolding facts(2) by force
  from facts(6) key_in obtain n uc where
    "n \<in> set (protectedNames lg)" "memberKey obs n = GetName (oc_Resource oa) @ ''-protection''"
    "memberRecord sdk obs n = Inr uc"
    "des' (GetName (oc_Resource oa) @ ''-protection'') = Some (usageEntry uc)"
    by blast
  then show ?thesis
    using facts(1,2) ka kb less two by auto
qed

theorem shared_observed_name_witness:
  "createdKeys (startLog sameName @
      [Debug ''protecting desired resource'' [(''name'', ''a'')],
       Debug ''creating usage'' [(''usage'', ''app-protection''), (''kind'', ''Usage'')],
       Debug ''protecting desired resource'' [(''name'', ''b'')],
       Debug ''creating usage'' [(''usage'', ''app-protection''), (''kind'', ''Usage'')]])
     = [''app-protection'', ''app-protection'']
   \<and> memberLoop plainSDK observedAB [''a'', ''b''] (desiredAB, 0, startLog sameName) =
     Inr (desiredAB(''app-protection'' \<mapsto> usageEntry (asUnstructured (GenerateUsage appService))),
          2,
          startLog sameName @
          [Debug ''protecting desired resource'' [(''name'', ''a'')],
           Debug ''creating usage'' [(''usage'', ''app-protection''), (''kind'', ''Usage'')],
           Debug ''protecting desired resource'' [(''name'', ''b'')],
           Debug ''creating usage'' [(''usage'', ''app-protection''), (''kind'', ''Usage'')]])
   \<and> int (card (set (createdKeys (startLog sameName @
      [Debug ''protecting desired resource'' [(''name'', ''a'')],
       Debug ''creating usage'' [(''usage'', ''app-protection''), (''kind'', ''Usage'')],
       Debug ''protecting desired resource'' [(''name'', ''b'')],
       Debug ''creating usage'' [(''usage'', ''app-protection''), (''kind'', ''Usage'')]])))) < 2"
proof -
  let ?lg = "startLog sameName @
      [Debug ''protecting desired resource'' [(''name'', ''a'')],
       Debug ''creating usage'' [(''usage'', ''app-protection''), (''kind'', ''Usage'')],
       Debug ''protecting desired resource'' [(''name'', ''b'')],
       Debug ''creating usage'' [(''usage'', ''app-protection''), (''kind'', ''Usage'')]]"
  have pn: "protectedNames ?lg = [''a'', ''b'']"
    by (simp add: log_append log_entries log_Cons)
  have "createdKeys ?lg = map (memberKey observedAB) (protectedNames ?lg)
     \<and> memberKey observedAB ''a'' = GetName appDeployment @ ''-protection''
     \<and> memberKey observedAB ''b'' = GetName appDeployment @ ''-protection''
     \<and> 2 = int (length (protectedNames ?lg))
     \<and> 2 \<le> (2::int)
     \<and> int (card (set (createdKeys ?lg))) < 2
     \<and> (\<exists>n uc. n \<in> set (protectedNames ?lg) \<and>
           memberKey observedAB n = GetName appDeployment @ ''-protection'' \<and>
           memberRecord plainSDK observedAB n = Inr uc \<and>
           (desiredAB(''app-protection'' \<mapsto> usageEntry (asUnstructured (GenerateUsage appService))))
             (GetName appDeployment @ ''-protection'') = Some (usageEntry uc))"
    using shared_observed_name [OF loopAB [of "startLog sameName"], of "''a''" "''b''"
        "\<lparr>oc_Resource = appDeployment, oc_ConnectionDetails = []\<rparr>"
        "\<lparr>oc_Resource = appService, oc_ConnectionDetails = []\<rparr>"]
    by (simp add: pn membersAB gettersAB del: memberLoop.simps)
  then show ?thesis
    by (simp add: loopAB log_append log_entries log_Cons del: memberLoop.simps)
qed

section \<open>The frame\<close>

text \<open>
  Claim C6. In a successful invocation, every key that is neither logged as the key of a
  member's usage record nor the key of the primary's record has in the output desired set
  what it had in the input desired set; in particular every such entry of the input is in
  the output unchanged. A key that was synthesized holds a usage record in the output,
  whatever the input held there. No key of the input is missing from the output. The
  synthesized keys are the keys \<^verbatim>\<open><observedName>-protection\<close> of the members logged as
  protected and, when the primary was protected, \<^verbatim>\<open><primaryName>-xr-protection\<close>.
\<close>

theorem desired_entries_kept:
  assumes run: "RunFunction sdk names req = (rsp, lg)"
    and ok: "rsp_Desired rsp = Some out"
    and xr: "GetObservedCompositeResource req = Inr xr"
    and obs: "GetObservedComposedResources req = Inr obs"
    and des: "GetDesiredComposedResources req = Inr des"
  shows "(\<forall>k. k \<notin> set (createdKeys lg) \<union> set (compositeKeys lg) \<longrightarrow> out k = des k)
     \<and> (\<forall>k\<in>set (createdKeys lg) \<union> set (compositeKeys lg). \<exists>uc. out k = Some (usageEntry uc))
     \<and> dom des \<subseteq> dom out
     \<and> createdKeys lg = map (memberKey obs) (protectedNames lg)
     \<and> set (protectedNames lg) \<subseteq> dom obs
     \<and> set (compositeKeys lg) \<subseteq> {GetName (xr_Resource xr) @ ''-xr-protection''}"
proof -
  note eq = RunFunction_eq [OF xr obs des, of sdk names]
  from run ok eq obtain des' cnt lg' where
    loop: "memberLoop sdk obs names (des, 0, startLog req) = Inr (des', cnt, lg')"
    and pc: "protectComposite sdk (xr_Resource xr) (des', cnt, lg') = Inr (out, lg)"
    by (auto simp: failed_def succeeded_def split: sum.splits prod.splits option.splits)
  note facts = loop_log_start [OF loop]
  let ?key = "GetName (xr_Resource xr) @ ''-xr-protection''"
  from pc consider
      (added) uc where "out = des'(?key \<mapsto> usageEntry uc)"
        "lg = lg' @ [Debug ''protecting Composite'' [(''name'', GetName (xr_Resource xr))]]"
    | (none) "out = des'" "lg = lg'"
    by (auto simp: protectComposite_eq split: if_splits sum.splits)
  then have main:
    "(\<forall>k. k \<notin> set (createdKeys lg) \<union> set (compositeKeys lg) \<longrightarrow> out k = des k)
     \<and> (\<forall>k\<in>set (createdKeys lg) \<union> set (compositeKeys lg). \<exists>uc. out k = Some (usageEntry uc))
     \<and> createdKeys lg = map (memberKey obs) (protectedNames lg)
     \<and> set (protectedNames lg) \<subseteq> dom obs
     \<and> set (compositeKeys lg) \<subseteq> {?key}"
  proof cases
    case added
    have logs: "createdKeys lg = createdKeys lg'" "compositeKeys lg = [?key]"
      "protectedNames lg = protectedNames lg'"
      unfolding added(2) using facts(3) by (simp_all add: log_append log_entries)
    show ?thesis
      unfolding logs using facts(2,4,5,6) added(1) by (auto simp: logs)
  next
    case none
    then show ?thesis
      using facts(2,3,4,5,6) by auto
  qed
  moreover have "dom des \<subseteq> dom out"
  proof
    fix k assume "k \<in> dom des"
    then show "k \<in> dom out"
      using main by (cases "k \<in> set (createdKeys lg) \<union> set (compositeKeys lg)") auto
  qed
  ultimately show ?thesis by blast
qed

theorem desired_entries_kept_witness:
  "rsp_Desired (fst (RunFunction plainSDK [''m1'', ''m2''] twoMembers)) =
     Some (desired12
           (''inst-1-protection'' \<mapsto> usageEntry (asUnstructured (GenerateUsage inst1)),
            ''inst-2-protection'' \<mapsto> usageEntry (asUnstructured (GenerateUsage inst2)),
            ''db-1-xr-protection'' \<mapsto> usageEntry (asUnstructured (GenerateXRUsage db1))))
   \<and> (desired12
           (''inst-1-protection'' \<mapsto> usageEntry (asUnstructured (GenerateUsage inst1)),
            ''inst-2-protection'' \<mapsto> usageEntry (asUnstructured (GenerateUsage inst2)),
            ''db-1-xr-protection'' \<mapsto> usageEntry (asUnstructured (GenerateXRUsage db1)))) ''m1''
       = Some \<lparr>dc_Resource = inst1, dc_Ready = ''True''\<rparr>
   \<and> (desired12
           (''inst-1-protection'' \<mapsto> usageEntry (asUnstructured (GenerateUsage inst1)),
            ''inst-2-protection'' \<mapsto> usageEntry (asUnstructured (GenerateUsage inst2)),
            ''db-1-xr-protection'' \<mapsto> usageEntry (asUnstructured (GenerateXRUsage db1)))) ''m2''
       = Some \<lparr>dc_Resource = inst2, dc_Ready = ''True''\<rparr>"
proof -
  let ?out = "desired12
           (''inst-1-protection'' \<mapsto> usageEntry (asUnstructured (GenerateUsage inst1)),
            ''inst-2-protection'' \<mapsto> usageEntry (asUnstructured (GenerateUsage inst2)),
            ''db-1-xr-protection'' \<mapsto> usageEntry (asUnstructured (GenerateXRUsage db1)))"
  let ?lg = "startLog twoMembers @
        [Debug ''protecting desired resource'' [(''name'', ''m1'')],
         Debug ''creating usage'' [(''usage'', ''inst-1-protection''), (''kind'', ''Usage'')],
         Debug ''protecting desired resource'' [(''name'', ''m2'')],
         Debug ''creating usage'' [(''usage'', ''inst-2-protection''), (''kind'', ''Usage'')],
         Debug ''protecting Composite'' [(''name'', ''db-1'')]]"
  have keys: "createdKeys ?lg = [''inst-1-protection'', ''inst-2-protection'']"
    "compositeKeys ?lg = [''db-1-xr-protection'']"
    by (simp_all add: log_append log_entries log_Cons)
  have ok: "rsp_Desired (succeeded twoMembers ?out) = Some ?out"
    by (simp add: succeeded_def)
  note kept = desired_entries_kept [OF run12 ok twoMembers_fields(1-3), THEN conjunct1, rule_format]
  have "?out ''m1'' = desired12 ''m1''" by (rule kept) (simp add: keys)
  moreover have "?out ''m2'' = desired12 ''m2''" by (rule kept) (simp add: keys)
  ultimately show ?thesis by (simp add: run12 ok members12)
qed

section \<open>The order of the loop\<close>

lemma response_of_outcome:
  assumes "GetObservedCompositeResource req = Inr xr"
    and "GetObservedComposedResources req = Inr obs"
    and "GetDesiredComposedResources req = Inr des"
    and "loopOutcome (memberLoop sdk obs names (des, 0, startLog req))
           = loopOutcome (memberLoop sdk obs names' (des, 0, startLog req))"
  shows "fst (RunFunction sdk names req) = fst (RunFunction sdk names' req)"
proof (cases "memberLoop sdk obs names (des, 0, startLog req)")
  case (Inl e)
  then obtain err lg where l: "memberLoop sdk obs names (des, 0, startLog req) = Inl (err, lg)"
    by (cases e) auto
  with assms(4) obtain lg' where
    "memberLoop sdk obs names' (des, 0, startLog req) = Inl (err, lg')"
    by (auto simp: loopOutcome_def split: sum.splits prod.splits)
  with l show ?thesis
    by (simp add: RunFunction_eq [OF assms(1-3)])
next
  case (Inr st)
  then obtain m c lg where l: "memberLoop sdk obs names (des, 0, startLog req) = Inr (m, c, lg)"
    by (cases st) auto
  with assms(4) obtain lg' where
    l': "memberLoop sdk obs names' (des, 0, startLog req) = Inr (m, c, lg')"
    by (auto simp: loopOutcome_def split: sum.splits prod.splits)
  show ?thesis
    by (simp add: RunFunction_eq [OF assms(1-3)] l l' protectComposite_eq
          split: sum.splits option.splits)
qed

lemma storeRecord_simps:
  "protectedMember des obs n \<Longrightarrow>
     storeRecord sdk des obs n m = m(memberKey obs n \<mapsto> usageEntry (projr (memberRecord sdk obs n)))"
  "\<not> protectedMember des obs n \<Longrightarrow> storeRecord sdk des obs n m = m"
  by (simp_all add: storeRecord_def)

lemma loop_outcome:
  assumes nocoll: "\<forall>n. protectedMember des obs n \<longrightarrow> memberKey obs n \<notin> dom obs"
    and inv: "\<forall>k\<in>dom obs. cur k = des k"
  shows "loopOutcome (memberLoop sdk obs ns (cur, cnt, lg)) =
     (case List.find (\<lambda>n. protectedMember des obs n \<and> isl (memberRecord sdk obs n)) ns of
        Some n \<Rightarrow> Inl (projl (memberRecord sdk obs n))
      | None \<Rightarrow> Inr (fold (storeRecord sdk des obs) ns cur,
                     cnt + int (length (filter (protectedMember des obs) ns))))"
  using inv
proof (induction ns arbitrary: cur cnt lg)
  case Nil
  then show ?case by (simp add: loopOutcome_def)
next
  case (Cons n ns)
  have pm: "protectedMember cur obs n = protectedMember des obs n"
  proof (cases "n \<in> dom obs")
    case True
    with Cons.prems show ?thesis by (intro protectedMember_cong) blast
  next
    case False
    then show ?thesis by (auto simp: protectedMember_def split: option.splits)
  qed
  show ?case
  proof (cases "protectedMember des obs n")
    case False
    with pm Cons.IH [OF Cons.prems, of cnt lg] show ?thesis
      by (simp add: memberBody_protected storeRecord_simps split: option.splits)
  next
    case True
    show ?thesis
    proof (cases "memberRecord sdk obs n")
      case (Inl err)
      with True pm show ?thesis
        by (simp add: memberBody_protected loopOutcome_def)
    next
      case (Inr uc)
      let ?cur = "cur(memberKey obs n \<mapsto> usageEntry uc)"
      let ?Q = "\<lambda>n. protectedMember des obs n \<and> isl (memberRecord sdk obs n)"
      have "\<forall>k\<in>dom obs. ?cur k = des k"
        using Cons.prems nocoll True by auto
      note IH = Cons.IH [OF this, of "cnt + 1"]
      have step: "\<exists>lg'. memberLoop sdk obs (n # ns) (cur, cnt, lg)
          = memberLoop sdk obs ns (?cur, cnt + 1, lg')"
        using True pm Inr by (auto simp: memberBody_protected)
      have f: "List.find ?Q (n # ns) = List.find ?Q ns" using Inr by simp
      have s: "fold (storeRecord sdk des obs) (n # ns) cur
          = fold (storeRecord sdk des obs) ns ?cur"
        using True Inr by (simp add: storeRecord_simps)
      have c: "cnt + int (length (filter (protectedMember des obs) (n # ns)))
          = cnt + 1 + int (length (filter (protectedMember des obs) ns))"
        using True by simp
      from step obtain lg' where "memberLoop sdk obs (n # ns) (cur, cnt, lg)
          = memberLoop sdk obs ns (?cur, cnt + 1, lg')" by blast
      then show ?thesis unfolding f s c by (simp only: IH)
    qed
  qed
qed

lemma fold_store_unwritten:
  "\<forall>n\<in>set ns. \<not> (protectedMember des obs n \<and> memberKey obs n = k) \<Longrightarrow>
   fold (storeRecord sdk des obs) ns cur k = cur k"
  by (induction ns arbitrary: cur) (auto simp: storeRecord_def)

lemma fold_store_written:
  assumes same: "\<forall>n n'. protectedMember des obs n \<and> protectedMember des obs n' \<and>
            memberKey obs n = memberKey obs n' \<longrightarrow> memberRecord sdk obs n = memberRecord sdk obs n'"
    and "w \<in> set ns" "protectedMember des obs w" "memberKey obs w = k"
  shows "fold (storeRecord sdk des obs) ns cur k = Some (usageEntry (projr (memberRecord sdk obs w)))"
  using assms(2-)
proof (induction ns arbitrary: cur w)
  case Nil
  then show ?case by simp
next
  case (Cons x xs)
  show ?case
  proof (cases "\<exists>n\<in>set xs. protectedMember des obs n \<and> memberKey obs n = k")
    case True
    then obtain n where n: "n \<in> set xs" "protectedMember des obs n" "memberKey obs n = k"
      by blast
    with same Cons.prems have "memberRecord sdk obs n = memberRecord sdk obs w" by blast
    with Cons.IH [OF n, of "storeRecord sdk des obs x cur"] show ?thesis by simp
  next
    case False
    with Cons.prems have "w = x" by auto
    moreover from False have "fold (storeRecord sdk des obs) xs (storeRecord sdk des obs x cur) k
        = storeRecord sdk des obs x cur k"
      by (intro fold_store_unwritten) blast
    ultimately show ?thesis using Cons.prems by (simp add: storeRecord_simps)
  qed
qed

lemma fold_store_order:
  assumes same: "\<forall>n n'. protectedMember des obs n \<and> protectedMember des obs n' \<and>
            memberKey obs n = memberKey obs n' \<longrightarrow> memberRecord sdk obs n = memberRecord sdk obs n'"
    and sets: "{n \<in> set ns. protectedMember des obs n} = {n \<in> set ns'. protectedMember des obs n}"
  shows "fold (storeRecord sdk des obs) ns cur = fold (storeRecord sdk des obs) ns' cur"
proof
  fix k
  show "fold (storeRecord sdk des obs) ns cur k = fold (storeRecord sdk des obs) ns' cur k"
  proof (cases "\<exists>w\<in>set ns. protectedMember des obs w \<and> memberKey obs w = k")
    case True
    then obtain w where w: "w \<in> set ns" "protectedMember des obs w" "memberKey obs w = k"
      by blast
    with sets have w': "w \<in> set ns'" by blast
    have "fold (storeRecord sdk des obs) ns cur k
        = Some (usageEntry (projr (memberRecord sdk obs w)))"
      by (rule fold_store_written [OF same w])
    moreover have "fold (storeRecord sdk des obs) ns' cur k
        = Some (usageEntry (projr (memberRecord sdk obs w)))"
      by (rule fold_store_written [OF same w' w(2,3)])
    ultimately show ?thesis by simp
  next
    case False
    with sets have "\<forall>n\<in>set ns'. \<not> (protectedMember des obs n \<and> memberKey obs n = k)" by blast
    with False show ?thesis by (simp add: fold_store_unwritten)
  qed
qed

lemma runAB:
  "fst (RunFunction plainSDK [''a'', ''b''] sameName) =
     succeeded sameName
        (desiredAB
           (''app-protection'' \<mapsto> usageEntry (asUnstructured (GenerateUsage appService)),
            ''db-1-xr-protection'' \<mapsto> usageEntry (asUnstructured (GenerateXRUsage db1))))"
  by (simp add: RunFunction_eq [OF sameName_fields(1-3)] loopAB protectComposite_eq
        convert_plain_usage example_getters plain_install del: memberLoop.simps)

lemma runBA:
  "fst (RunFunction plainSDK [''b'', ''a''] sameName) =
     succeeded sameName
        (desiredAB
           (''app-protection'' \<mapsto> usageEntry (asUnstructured (GenerateUsage appDeployment)),
            ''db-1-xr-protection'' \<mapsto> usageEntry (asUnstructured (GenerateXRUsage db1))))"
  by (simp add: RunFunction_eq [OF sameName_fields(1-3)] loopBA protectComposite_eq
        convert_plain_usage example_getters plain_install del: memberLoop.simps)

lemma usageAB_differ:
  "usageEntry (asUnstructured (GenerateUsage appService))
     \<noteq> usageEntry (asUnstructured (GenerateUsage appDeployment))"
  by (simp add: usageEntry_def asUnstructured_def GenerateUsage_def Let_def gettersAB)

lemma keyIsMember_fields:
  "GetObservedCompositeResource keyIsMember = Inr \<lparr>xr_Resource = db1, xr_ConnectionDetails = []\<rparr>"
  "GetObservedComposedResources keyIsMember = Inr observedKey"
  "GetDesiredComposedResources keyIsMember = Inr desiredKey"
  by (simp_all add: keyIsMember_def)

lemma membersKey:
  "observedKey ''m1'' = Some \<lparr>oc_Resource = inst1, oc_ConnectionDetails = []\<rparr>"
  "observedKey ''inst-1-protection'' = Some \<lparr>oc_Resource = inst2Plain, oc_ConnectionDetails = []\<rparr>"
  "desiredKey ''m1'' = Some \<lparr>dc_Resource = inst1, dc_Ready = ''True''\<rparr>"
  "desiredKey ''inst-1-protection'' = Some \<lparr>dc_Resource = inst2, dc_Ready = ''True''\<rparr>"
  by (simp_all add: observedKey_def desiredKey_def)

lemma inst2Plain_facts:
  "\<not> MatchLabel inst2Plain ProtectionLabelBlockDeletion"
  "GetName inst2Plain = ''inst-2''" "GetNamespace inst2Plain = ''ns1''"
  by (simp_all add: MatchLabel_char getters inst2Plain_def)

lemma usage_unlabelled:
  "\<not> MatchLabel (asUnstructured (GenerateUsage u)) ProtectionLabelBlockDeletion"
  by (simp add: MatchLabel_char asUnstructured_def GenerateUsage_def Let_def)

lemma usageEntry_sel: "dc_Resource (usageEntry u) = u" "dc_Ready (usageEntry u) = []"
  by (simp_all add: usageEntry_def)

lemma runKey_m1_first:
  "fst (RunFunction plainSDK [''m1'', ''inst-1-protection''] keyIsMember) =
     succeeded keyIsMember
       (desiredKey
          (''inst-1-protection'' \<mapsto> usageEntry (asUnstructured (GenerateUsage inst1)),
           ''db-1-xr-protection'' \<mapsto> usageEntry (asUnstructured (GenerateXRUsage db1))))"
  by (simp add: RunFunction_eq [OF keyIsMember_fields] memberBody_eq membersKey labelled
        inst2Plain_facts usage_unlabelled usageEntry_sel
        convert_plain_usage example_getters GetKind_usage protectComposite_eq plain_install)

lemma runKey_m1_last:
  "fst (RunFunction plainSDK [''inst-1-protection'', ''m1''] keyIsMember) =
     succeeded keyIsMember
       (desiredKey
          (''inst-2-protection'' \<mapsto> usageEntry (asUnstructured (GenerateUsage inst2Plain)),
           ''inst-1-protection'' \<mapsto> usageEntry (asUnstructured (GenerateUsage inst1)),
           ''db-1-xr-protection'' \<mapsto> usageEntry (asUnstructured (GenerateXRUsage db1))))"
  by (simp add: RunFunction_eq [OF keyIsMember_fields] memberBody_eq membersKey labelled
        inst2Plain_facts usage_unlabelled
        convert_plain_usage example_getters GetKind_usage protectComposite_eq plain_install)

lemma convert_refusing:
  "convertViaJSON refusingSDK (GenerateUsage u) = Inl (GetName u @ ''-function-protection'')"
  by (simp add: convertViaJSON_def refusingSDK_def GenerateUsage_def Let_def)

lemma runRefusing:
  "fst (RunFunction refusingSDK [''m1'', ''m2''] twoMembers) =
     failed twoMembers ''cannot convert usage to unstructured: inst-1-function-protection''"
  "fst (RunFunction refusingSDK [''m2'', ''m1''] twoMembers) =
     failed twoMembers ''cannot convert usage to unstructured: inst-2-function-protection''"
  by (simp_all add: RunFunction_eq [OF twoMembers_fields(1-3)] memberBody_eq members12 labelled
        convert_refusing example_getters Wrap_def)

text \<open>
  The order in which the loop reaches the members can show in the response; all the orders
  below are orders Go may take. In the request \<open>sameName\<close> the members \<^verbatim>\<open>a\<close> and \<^verbatim>\<open>b\<close> are a
  Deployment and a Service that are both named \<^verbatim>\<open>app\<close>: both records go to the key
  \<^verbatim>\<open>app-protection\<close>, and the one stored last stays. In the request \<open>keyIsMember\<close> the key
  of the record of \<^verbatim>\<open>m1\<close> is a member name whose desired copy alone is labelled: reached
  after \<^verbatim>\<open>m1\<close>, that member shows the record of \<^verbatim>\<open>m1\<close> as its desired copy and is passed;
  reached before, it gets a record of its own. With \<open>refusingSDK\<close>, where every conversion
  fails with an error of its own, the response reports the member reached first.
\<close>

theorem iteration_order_counterexample:
  "rangeOrder desiredAB [''a'', ''b''] \<and> rangeOrder desiredAB [''b'', ''a'']
   \<and> fst (RunFunction plainSDK [''a'', ''b''] sameName)
       \<noteq> fst (RunFunction plainSDK [''b'', ''a''] sameName)
   \<and> rangeOrder desiredKey [''m1'', ''inst-1-protection'']
   \<and> rangeOrder desiredKey [''inst-1-protection'', ''m1'']
   \<and> fst (RunFunction plainSDK [''m1'', ''inst-1-protection''] keyIsMember)
       \<noteq> fst (RunFunction plainSDK [''inst-1-protection'', ''m1''] keyIsMember)
   \<and> rangeOrder desired12 [''m1'', ''m2''] \<and> rangeOrder desired12 [''m2'', ''m1'']
   \<and> fst (RunFunction refusingSDK [''m1'', ''m2''] twoMembers)
       \<noteq> fst (RunFunction refusingSDK [''m2'', ''m1''] twoMembers)"
proof -
  have "fst (RunFunction plainSDK [''a'', ''b''] sameName)
       \<noteq> fst (RunFunction plainSDK [''b'', ''a''] sameName)"
  proof
    assume "fst (RunFunction plainSDK [''a'', ''b''] sameName)
       = fst (RunFunction plainSDK [''b'', ''a''] sameName)"
    then have "rsp_Desired (fst (RunFunction plainSDK [''a'', ''b''] sameName))
       = rsp_Desired (fst (RunFunction plainSDK [''b'', ''a''] sameName))" by simp
    then have "(desiredAB
           (''app-protection'' \<mapsto> usageEntry (asUnstructured (GenerateUsage appService)),
            ''db-1-xr-protection'' \<mapsto> usageEntry (asUnstructured (GenerateXRUsage db1))))
             ''app-protection''
       = (desiredAB
           (''app-protection'' \<mapsto> usageEntry (asUnstructured (GenerateUsage appDeployment)),
            ''db-1-xr-protection'' \<mapsto> usageEntry (asUnstructured (GenerateXRUsage db1))))
             ''app-protection''"
      unfolding runAB runBA succeeded_def by (simp only: RunFunctionResponse.simps option.inject)
    then show False using usageAB_differ by simp
  qed
  moreover have "fst (RunFunction plainSDK [''m1'', ''inst-1-protection''] keyIsMember)
       \<noteq> fst (RunFunction plainSDK [''inst-1-protection'', ''m1''] keyIsMember)"
  proof
    assume "fst (RunFunction plainSDK [''m1'', ''inst-1-protection''] keyIsMember)
       = fst (RunFunction plainSDK [''inst-1-protection'', ''m1''] keyIsMember)"
    then have "rsp_Desired (fst (RunFunction plainSDK [''m1'', ''inst-1-protection''] keyIsMember))
       = rsp_Desired (fst (RunFunction plainSDK [''inst-1-protection'', ''m1''] keyIsMember))"
      by simp
    then have "(desiredKey
          (''inst-1-protection'' \<mapsto> usageEntry (asUnstructured (GenerateUsage inst1)),
           ''db-1-xr-protection'' \<mapsto> usageEntry (asUnstructured (GenerateXRUsage db1))))
             ''inst-2-protection''
       = (desiredKey
          (''inst-2-protection'' \<mapsto> usageEntry (asUnstructured (GenerateUsage inst2Plain)),
           ''inst-1-protection'' \<mapsto> usageEntry (asUnstructured (GenerateUsage inst1)),
           ''db-1-xr-protection'' \<mapsto> usageEntry (asUnstructured (GenerateXRUsage db1))))
             ''inst-2-protection''"
      unfolding runKey_m1_first runKey_m1_last succeeded_def
      by (simp only: RunFunctionResponse.simps option.inject)
    then show False by (simp add: desiredKey_def)
  qed
  moreover have "fst (RunFunction refusingSDK [''m1'', ''m2''] twoMembers)
       \<noteq> fst (RunFunction refusingSDK [''m2'', ''m1''] twoMembers)"
    unfolding runRefusing by (simp add: failed_def)
  moreover have "rangeOrder desiredAB [''a'', ''b'']" "rangeOrder desiredAB [''b'', ''a'']"
    "rangeOrder desiredKey [''m1'', ''inst-1-protection'']"
    "rangeOrder desiredKey [''inst-1-protection'', ''m1'']"
    "rangeOrder desired12 [''m1'', ''m2'']" "rangeOrder desired12 [''m2'', ''m1'']"
    by (auto simp: rangeOrder_def desiredAB_def desiredKey_def desired12_def)
  ultimately show ?thesis by simp
qed

text \<open>
  Claim C7, amended. For a given order of the loop the response is a function of the
  inputs. Two orders that Go may take give the same response for an invocation that
  reaches the loop, provided that (a) the key \<^verbatim>\<open><observedName>-protection\<close> of a protected
  member is not itself a member name of the observed set, (b) protected members with the
  same key convert to the same record, and (c) if conversions fail for several protected
  members, they fail with the same error.
\<close>

theorem order_independence:
  assumes xr: "GetObservedCompositeResource req = Inr xr"
    and obs: "GetObservedComposedResources req = Inr obs"
    and des: "GetDesiredComposedResources req = Inr des"
    and order: "rangeOrder des names" "rangeOrder des names'"
    and nocoll: "\<forall>n. protectedMember des obs n \<longrightarrow> memberKey obs n \<notin> dom obs"
    and same: "\<forall>n n'. protectedMember des obs n \<and> protectedMember des obs n' \<and>
            memberKey obs n = memberKey obs n' \<longrightarrow> memberRecord sdk obs n = memberRecord sdk obs n'"
    and errs: "\<forall>n n'. protectedMember des obs n \<and> protectedMember des obs n' \<and>
            isl (memberRecord sdk obs n) \<and> isl (memberRecord sdk obs n') \<longrightarrow>
            memberRecord sdk obs n = memberRecord sdk obs n'"
  shows "fst (RunFunction sdk names req) = fst (RunFunction sdk names' req)"
proof -
  let ?P = "protectedMember des obs"
  let ?Q = "\<lambda>n. ?P n \<and> isl (memberRecord sdk obs n)"
  have all: "{n \<in> set xs. ?P n} = {n. ?P n}" if "rangeOrder des xs" for xs
    using that protectedMember_dom [of des obs] by (auto simp: rangeOrder_def)
  have sets: "{n \<in> set names. ?P n} = {n \<in> set names'. ?P n}"
    using all [OF order(1)] all [OF order(2)] by simp
  have count: "length (filter ?P xs) = card {n. ?P n}" if "rangeOrder des xs" for xs
  proof -
    from that have "distinct xs" by (simp add: rangeOrder_def)
    then have "length (filter ?P xs) = card ({x. ?P x} \<inter> set xs)"
      by (rule distinct_length_filter)
    also have "{x. ?P x} \<inter> set xs = {n. ?P n}" using all [OF that] by blast
    finally show ?thesis .
  qed
  have found: "(case List.find ?Q names of Some n \<Rightarrow> Inl (projl (memberRecord sdk obs n)) | None \<Rightarrow> r)
      = (case List.find ?Q names' of Some n \<Rightarrow> Inl (projl (memberRecord sdk obs n)) | None \<Rightarrow> r)"
    for r :: "string + (desired_set \<times> int)"
  proof (cases "\<exists>n. ?Q n")
    case False
    then have "List.find ?Q names = None" "List.find ?Q names' = None"
      by (simp_all add: find_None_iff)
    then show ?thesis by simp
  next
    case True
    then obtain w where w: "?Q w" by blast
    with sets all [OF order(1)] have "w \<in> set names" "w \<in> set names'" by blast+
    with w have "List.find ?Q names \<noteq> None" "List.find ?Q names' \<noteq> None"
      unfolding find_None_iff by blast+
    then obtain a b where ab: "List.find ?Q names = Some a" "List.find ?Q names' = Some b"
      by auto
    then have "?Q a" "?Q b" by (auto dest: find_Some_iff [THEN iffD1])
    with errs have "memberRecord sdk obs a = memberRecord sdk obs b" by blast
    with ab show ?thesis by simp
  qed
  have inv: "\<forall>k\<in>dom obs. des k = des k" by simp
  have e: "loopOutcome (memberLoop sdk obs xs (des, 0, startLog req)) =
      (case List.find ?Q xs of
         Some n \<Rightarrow> Inl (projl (memberRecord sdk obs n))
       | None \<Rightarrow> Inr (fold (storeRecord sdk des obs) xs des, int (card {n. ?P n})))"
    if "rangeOrder des xs" for xs
    using loop_outcome [OF nocoll inv, of sdk xs 0 "startLog req"] count [OF that]
    by (simp split: option.splits)
  have "loopOutcome (memberLoop sdk obs names (des, 0, startLog req))
           = loopOutcome (memberLoop sdk obs names' (des, 0, startLog req))"
    unfolding e [OF order(1)] e [OF order(2)] fold_store_order [OF same sets, of des]
    by (rule found)
  then show ?thesis by (rule response_of_outcome [OF xr obs des])
qed

theorem order_independence_witness:
  "fst (RunFunction plainSDK [''m1'', ''m2''] twoMembers)
     = fst (RunFunction plainSDK [''m2'', ''m1''] twoMembers)"
proof (rule order_independence [OF twoMembers_fields(1-3)])
  show "rangeOrder desired12 [''m1'', ''m2'']" "rangeOrder desired12 [''m2'', ''m1'']"
    by (auto simp: rangeOrder_def desired12_def)
  have pm: "n = ''m1'' \<or> n = ''m2''" if "protectedMember desired12 observed12 n" for n
    using that by (auto simp: protectedMember_def desired12_def split: if_splits)
  have dom: "dom observed12 = {''m1'', ''m2''}"
    by (auto simp: observed12_def)
  have keys: "memberKey observed12 ''m1'' = ''inst-1-protection''"
    "memberKey observed12 ''m2'' = ''inst-2-protection''"
    by (simp_all add: memberKey_def members12 example_getters)
  show "\<forall>n. protectedMember desired12 observed12 n \<longrightarrow> memberKey observed12 n \<notin> dom observed12"
  proof (intro allI impI)
    fix n assume "protectedMember desired12 observed12 n"
    from pm [OF this] keys show "memberKey observed12 n \<notin> dom observed12"
      unfolding dom by auto
  qed
  show "\<forall>n n'. protectedMember desired12 observed12 n \<and> protectedMember desired12 observed12 n' \<and>
            memberKey observed12 n = memberKey observed12 n' \<longrightarrow>
            memberRecord plainSDK observed12 n = memberRecord plainSDK observed12 n'"
  proof (intro allI impI, elim conjE)
    fix n n'
    assume "protectedMember desired12 observed12 n" "protectedMember desired12 observed12 n'"
      and k: "memberKey observed12 n = memberKey observed12 n'"
    then have "n = ''m1'' \<or> n = ''m2''" "n' = ''m1'' \<or> n' = ''m2''" by (auto dest: pm)
    with k keys have "n = n'" by auto
    then show "memberRecord plainSDK observed12 n = memberRecord plainSDK observed12 n'" by simp
  qed
  show "\<forall>n n'. protectedMember desired12 observed12 n \<and> protectedMember desired12 observed12 n' \<and>
            isl (memberRecord plainSDK observed12 n) \<and> isl (memberRecord plainSDK observed12 n') \<longrightarrow>
            memberRecord plainSDK observed12 n = memberRecord plainSDK observed12 n'"
  proof (intro allI impI, elim conjE)
    fix n n'
    assume "protectedMember desired12 observed12 n"
      and "isl (memberRecord plainSDK observed12 n)"
    moreover have "\<not> isl (memberRecord plainSDK observed12 ''m1'')"
      "\<not> isl (memberRecord plainSDK observed12 ''m2'')"
      by (simp_all add: memberRecord_def members12 convert_plain_usage)
    ultimately show "memberRecord plainSDK observed12 n = memberRecord plainSDK observed12 n'"
      by (auto dest: pm)
  qed
qed

section \<open>The enabled label\<close>

lemma sameButEnabled_top:
  assumes "sameButEnabled u u'" "k \<noteq> ''metadata''"
  shows "NestedField (JObject (objectOf u')) [k] = NestedField (JObject (objectOf u)) [k]"
  using assms by (simp add: sameButEnabled_def NestedField_top)

lemma sameButEnabled_metadata:
  assumes "sameButEnabled u u'" "k \<noteq> ''labels''"
  shows "NestedField (JObject (objectOf u')) [''metadata'', k]
       = NestedField (JObject (objectOf u)) [''metadata'', k]"
proof (cases "subObject (objectOf u) ''metadata''")
  case None
  with assms have "map_of (objectOf u') ''metadata'' = map_of (objectOf u) ''metadata''"
    by (simp add: sameButEnabled_def)
  then show ?thesis by (simp add: NestedField_Cons)
next
  case (Some md)
  with assms obtain md' where "subObject (objectOf u') ''metadata'' = Some md'"
    "map_of md' k = map_of md k"
    by (auto simp: sameButEnabled_def split: option.splits)
  with Some show ?thesis by (simp only: NestedField_sub NestedField_top option.case)
qed

lemma sameButEnabled_label:
  assumes "sameButEnabled u u'" "k \<noteq> ProtectionLabelEnabled"
  shows "NestedField (JObject (objectOf u')) [''metadata'', ''labels'', k]
       = NestedField (JObject (objectOf u)) [''metadata'', ''labels'', k]"
proof (cases "subObject (objectOf u) ''metadata''")
  case None
  with assms have "map_of (objectOf u') ''metadata'' = map_of (objectOf u) ''metadata''"
    by (simp add: sameButEnabled_def)
  then show ?thesis by (simp add: NestedField_Cons)
next
  case (Some md)
  with assms obtain md' where md': "subObject (objectOf u') ''metadata'' = Some md'"
    and rest: "case subObject md ''labels'' of
                  None \<Rightarrow> map_of md' ''labels'' = map_of md ''labels''
                | Some ls \<Rightarrow>
                    (case subObject md' ''labels'' of
                       None \<Rightarrow> False
                     | Some ls' \<Rightarrow>
                         (\<forall>k. k \<noteq> ProtectionLabelEnabled \<longrightarrow> map_of ls' k = map_of ls k))"
    by (auto simp: sameButEnabled_def split: option.splits)
  have "NestedField (JObject md') [''labels'', k] = NestedField (JObject md) [''labels'', k]"
  proof (cases "subObject md ''labels''")
    case None
    with rest have "map_of md' ''labels'' = map_of md ''labels''" by simp
    then show ?thesis by (simp add: NestedField_Cons)
  next
    case ls: (Some ls)
    with rest assms(2) obtain ls' where "subObject md' ''labels'' = Some ls'"
      "map_of ls' k = map_of ls k"
      by (auto split: option.splits)
    with ls show ?thesis by (simp only: NestedField_sub NestedField_top option.case)
  qed
  with Some md' show ?thesis by (simp only: NestedField_sub option.case)
qed

lemma enabled_not_block_deletion: "ProtectionLabelBlockDeletion \<noteq> ProtectionLabelEnabled"
  by (simp add: ProtectionLabelBlockDeletion_def ProtectionLabelEnabled_def)

lemma sameButEnabled_getters:
  assumes "sameButEnabled u u'"
  shows "GetName u' = GetName u" "GetNamespace u' = GetNamespace u"
    "GetAPIVersion u' = GetAPIVersion u" "GetKind u' = GetKind u"
  using sameButEnabled_metadata [OF assms, of "''name''"]
    sameButEnabled_metadata [OF assms, of "''namespace''"]
    sameButEnabled_top [OF assms, of "''apiVersion''"]
    sameButEnabled_top [OF assms, of "''kind''"]
  by (simp_all add: getters del: NestedField.simps)

lemma sameButEnabled_usage:
  assumes "sameButEnabled u u'"
  shows "GenerateUsage u' = GenerateUsage u" "GenerateXRUsage u' = GenerateXRUsage u"
  by (simp_all add: GenerateUsage_def GenerateXRUsage_def Let_def sameButEnabled_getters [OF assms])

lemma sameButEnabled_MatchLabel:
  assumes "sameButEnabled u u'"
  shows "MatchLabel u' ProtectionLabelBlockDeletion = MatchLabel u ProtectionLabelBlockDeletion"
  unfolding MatchLabel_hasProtectionLabel hasProtectionLabel_def
  by (simp only: sameButEnabled_label [OF assms enabled_not_block_deletion])

lemma enabledIsLabel_sub:
  assumes "subObject (objectOf u) ''metadata'' = Some md" "subObject md ''labels'' = Some ls"
    and "enabledIsLabel u"
  shows "map_of ls ProtectionLabelEnabled = None
       \<or> isStringOrNull (map_of ls ProtectionLabelEnabled)"
proof -
  have "NestedField (JObject (objectOf u)) [''metadata'', ''labels'', ProtectionLabelEnabled]
      = map_of ls ProtectionLabelEnabled"
    using assms(1,2) by (simp only: NestedField_sub NestedField_top option.case)
  with assms(3) show ?thesis
    by (auto simp: enabledIsLabel_def isStringOrNull_def simp del: NestedField.simps
          split: option.splits json.splits)
qed

lemma sameButEnabled_GetLabels:
  assumes same: "sameButEnabled u u'" and str: "enabledIsLabel u" "enabledIsLabel u'"
  shows "GetLabels u' ProtectionLabelBlockDeletion = GetLabels u ProtectionLabelBlockDeletion"
proof (cases "subObject (objectOf u) ''metadata''")
  case None
  with same have "map_of (objectOf u') ''metadata'' = map_of (objectOf u) ''metadata''"
    by (simp add: sameButEnabled_def)
  then have "NestedField (JObject (objectOf u')) [''metadata'', ''labels'']
         = NestedField (JObject (objectOf u)) [''metadata'', ''labels'']"
    by (simp add: NestedField_Cons)
  then show ?thesis by (rule GetLabels_same_field)
next
  case (Some md)
  with same obtain md' where md': "subObject (objectOf u') ''metadata'' = Some md'"
    and rest: "case subObject md ''labels'' of
                  None \<Rightarrow> map_of md' ''labels'' = map_of md ''labels''
                | Some ls \<Rightarrow>
                    (case subObject md' ''labels'' of
                       None \<Rightarrow> False
                     | Some ls' \<Rightarrow>
                         (\<forall>k. k \<noteq> ProtectionLabelEnabled \<longrightarrow> map_of ls' k = map_of ls k))"
    by (auto simp: sameButEnabled_def split: option.splits)
  show ?thesis
  proof (cases "subObject md ''labels''")
    case None
    with rest have "map_of md' ''labels'' = map_of md ''labels''" by simp
    then have "NestedField (JObject (objectOf u')) [''metadata'', ''labels'']
         = NestedField (JObject (objectOf u)) [''metadata'', ''labels'']"
      using Some md' by (simp only: NestedField_sub NestedField_top option.case)
    then show ?thesis by (rule GetLabels_same_field)
  next
    case ls: (Some ls)
    with rest obtain ls' where ls': "subObject md' ''labels'' = Some ls'"
      and eq: "\<forall>k. k \<noteq> ProtectionLabelEnabled \<longrightarrow> map_of ls' k = map_of ls k"
      by (auto split: option.splits)
    note e = enabledIsLabel_sub [OF Some ls str(1)] enabledIsLabel_sub [OF md' ls' str(2)]
    have all: "(\<forall>j. map_of ls' j \<noteq> None \<longrightarrow> isStringOrNull (map_of ls' j))
        \<longleftrightarrow> (\<forall>j. map_of ls j \<noteq> None \<longrightarrow> isStringOrNull (map_of ls j))"
      using eq e by metis
    have "map_of ls' ProtectionLabelBlockDeletion = map_of ls ProtectionLabelBlockDeletion"
      using eq enabled_not_block_deletion by blast
    with all show ?thesis
      unfolding GetLabels_sub [OF Some ls] GetLabels_sub [OF md' ls'] by auto
  qed
qed

lemma sameButEnabled_ProtectXR:
  assumes "sameButEnabled u u'" "enabledIsLabel u" "enabledIsLabel u'"
  shows "ProtectXR u' = ProtectXR u"
  by (simp add: ProtectXR_def sameButEnabled_GetLabels [OF assms])

lemma sameButEntries_start: "sameButEntries des des' des des'"
  by (simp add: sameButEntries_def)

lemma sameButEntries_upd:
  "sameButEntries des des' m m' \<Longrightarrow> sameButEntries des des' (m(k \<mapsto> e)) (m'(k \<mapsto> e))"
  by (simp add: sameButEntries_def)

lemma sameButEntries_same:
  assumes "sameButEntries des des m m'"
  shows "m' = m"
proof
  fix k
  from assms show "m' k = m k" unfolding sameButEntries_def by metis
qed

lemma loop_enabled:
  assumes observed: "\<forall>n. rel_option (\<lambda>ob ob'. sameButEnabled (oc_Resource ob) (oc_Resource ob'))
                        (obs n) (obs' n)"
    and desired: "\<forall>n. rel_option (\<lambda>d d'. sameButEnabled (dc_Resource d) (dc_Resource d'))
                        (des n) (des' n)"
    and inv: "sameButEntries des des' cur cur'"
  shows "(\<exists>e. memberLoop sdk obs names (cur, cnt, lg) = Inl e \<and>
              memberLoop sdk obs' names (cur', cnt, lg) = Inl e)
       \<or> (\<exists>m m' c l. memberLoop sdk obs names (cur, cnt, lg) = Inr (m, c, l) \<and>
              memberLoop sdk obs' names (cur', cnt, lg) = Inr (m', c, l) \<and>
              sameButEntries des des' m m')"
  using inv
proof (induction names arbitrary: cur cur' cnt lg)
  case Nil
  then show ?case by simp
next
  case (Cons n ns)
  have ob: "rel_option (\<lambda>ob ob'. sameButEnabled (oc_Resource ob) (oc_Resource ob')) (obs n) (obs' n)"
    using observed by blast
  have key: "memberKey obs' n = memberKey obs n"
    using ob by (cases "obs n"; cases "obs' n")
      (simp_all add: memberKey_def sameButEnabled_getters)
  have rec_eq: "memberRecord sdk obs' n = memberRecord sdk obs n"
    using ob by (cases "obs n"; cases "obs' n")
      (simp_all add: memberRecord_def sameButEnabled_usage)
  have cur: "rel_option (\<lambda>d d'. hasProtectionLabel (dc_Resource d') = hasProtectionLabel (dc_Resource d))
              (cur n) (cur' n)"
  proof -
    from Cons.prems consider "cur' n = cur n" | "cur n = des n" "cur' n = des' n"
      unfolding sameButEntries_def by blast
    then show ?thesis
    proof cases
      case 1
      then show ?thesis by (cases "cur n") simp_all
    next
      case 2
      moreover have "rel_option (\<lambda>d d'. sameButEnabled (dc_Resource d) (dc_Resource d'))
                        (des n) (des' n)" using desired by blast
      ultimately show ?thesis
        by (cases "des n"; cases "des' n")
           (simp_all add: sameButEnabled_MatchLabel [unfolded MatchLabel_hasProtectionLabel])
    qed
  qed
  have pm: "protectedMember cur' obs' n = protectedMember cur obs n"
    using cur ob
    by (cases "cur n"; cases "cur' n"; cases "obs n"; cases "obs' n")
       (simp_all add: protectedMember_def
          sameButEnabled_MatchLabel [unfolded MatchLabel_hasProtectionLabel])
  show ?case
  proof (cases "protectedMember cur obs n")
    case False
    with pm Cons.IH [OF Cons.prems, of cnt lg] show ?thesis
      by (simp add: memberBody_protected)
  next
    case True
    show ?thesis
    proof (cases "memberRecord sdk obs n")
      case (Inl err)
      with True pm key rec_eq show ?thesis by (simp add: memberBody_protected)
    next
      case (Inr uc)
      let ?lg = "lg @ [Debug ''protecting desired resource'' [(''name'', n)],
                       Debug ''creating usage''
                         [(''usage'', memberKey obs n), (''kind'', GetKind uc)]]"
      let ?cur = "cur(memberKey obs n \<mapsto> usageEntry uc)"
      let ?cur' = "cur'(memberKey obs n \<mapsto> usageEntry uc)"
      have "(\<exists>e. memberLoop sdk obs ns (?cur, cnt + 1, ?lg) = Inl e \<and>
              memberLoop sdk obs' ns (?cur', cnt + 1, ?lg) = Inl e)
       \<or> (\<exists>m m' c l. memberLoop sdk obs ns (?cur, cnt + 1, ?lg) = Inr (m, c, l) \<and>
              memberLoop sdk obs' ns (?cur', cnt + 1, ?lg) = Inr (m', c, l) \<and>
              sameButEntries des des' m m')"
        by (rule Cons.IH [OF sameButEntries_upd [OF Cons.prems]])
      moreover have "memberLoop sdk obs (n # ns) (cur, cnt, lg)
          = memberLoop sdk obs ns (?cur, cnt + 1, ?lg)"
        using True Inr by (simp add: memberBody_protected)
      moreover have "memberLoop sdk obs' (n # ns) (cur', cnt, lg)
          = memberLoop sdk obs' ns (?cur', cnt + 1, ?lg)"
        using True pm key rec_eq Inr by (simp add: memberBody_protected)
      ultimately show ?thesis by (simp only:)
    qed
  qed
qed

lemma sameButEnabled_refl: "sameButEnabled u u"
  by (simp add: sameButEnabled_def split: option.splits)

lemma sameButEnabled_examples:
  "sameButEnabled inst1 inst1Enabled" "sameButEnabled db1 db1Enabled"
  by (simp_all add: sameButEnabled_def subObject_def objectOf_def inst1_def inst1Enabled_def
        db1_def db1Enabled_def ProtectionLabelEnabled_def)

lemma enabledIsLabel_examples:
  "enabledIsLabel db1" "enabledIsLabel db1Enabled"
  by (simp_all add: enabledIsLabel_def objectOf_def db1_def db1Enabled_def
        ProtectionLabelEnabled_def)

lemma enabledObserved_fields:
  "GetObservedCompositeResource enabledObserved
     = Inr \<lparr>xr_Resource = db1Enabled, xr_ConnectionDetails = []\<rparr>"
  "GetObservedComposedResources enabledObserved
     = Inr (observed12(''m1'' \<mapsto> \<lparr>oc_Resource = inst1Enabled, oc_ConnectionDetails = []\<rparr>))"
  "GetDesiredComposedResources enabledObserved = Inr desired12"
  "req_Tag enabledObserved = ''tag''"
  by (simp_all add: enabledObserved_def)

lemma enabledDesired_fields:
  "GetObservedCompositeResource enabledDesired
     = Inr \<lparr>xr_Resource = db1, xr_ConnectionDetails = []\<rparr>"
  "GetObservedComposedResources enabledDesired = Inr observed12"
  "GetDesiredComposedResources enabledDesired
     = Inr (desired12(''m1'' \<mapsto> \<lparr>dc_Resource = inst1Enabled, dc_Ready = ''True''\<rparr>))"
  "req_Tag enabledDesired = ''tag''"
  by (simp_all add: enabledDesired_def)

lemma runEnabledDesired:
  "fst (RunFunction plainSDK [''m1'', ''m2''] enabledDesired) =
     succeeded enabledDesired
       (desired12
          (''m1'' \<mapsto> \<lparr>dc_Resource = inst1Enabled, dc_Ready = ''True''\<rparr>,
           ''inst-1-protection'' \<mapsto> usageEntry (asUnstructured (GenerateUsage inst1)),
           ''inst-2-protection'' \<mapsto> usageEntry (asUnstructured (GenerateUsage inst2)),
           ''db-1-xr-protection'' \<mapsto> usageEntry (asUnstructured (GenerateXRUsage db1))))"
  by (simp add: RunFunction_eq [OF enabledDesired_fields(1-3)] memberBody_eq members12 labelled
        convert_plain_usage example_getters GetKind_usage protectComposite_eq plain_install)

lemma primaryOnly_fields:
  "GetObservedCompositeResource (primaryOnly u) = Inr \<lparr>xr_Resource = u, xr_ConnectionDetails = []\<rparr>"
  "GetObservedComposedResources (primaryOnly u) = Inr Map.empty"
  "GetDesiredComposedResources (primaryOnly u) = Inr Map.empty"
  by (simp_all add: primaryOnly_def)

lemma db1Protected_facts:
  "ProtectXR db1Protected" "\<not> ProtectXR db1ProtectedFlag"
  "GetName db1Protected = ''db-1''" "GetName db1ProtectedFlag = ''db-1''"
  "sameButEnabled db1Protected db1ProtectedFlag"
  "enabledIsLabel db1Protected" "\<not> enabledIsLabel db1ProtectedFlag"
  by (simp_all add: ProtectXR_def GetLabels_def isStringOrNull_def getters sameButEnabled_def
        subObject_def enabledIsLabel_def db1Protected_def db1ProtectedFlag_def
        ProtectionLabelBlockDeletion_def ProtectionLabelEnabled_def)

lemma db1ProtectedNull_facts:
  "ProtectXR db1ProtectedNull" "GetName db1ProtectedNull = ''db-1''"
  "sameButEnabled db1Protected db1ProtectedNull" "enabledIsLabel db1ProtectedNull"
  "GetLabels db1ProtectedNull ProtectionLabelEnabled = Some []"
  "db1ProtectedNull \<noteq> db1Protected"
  by (simp_all add: ProtectXR_def GetLabels_def isStringOrNull_def getters sameButEnabled_def
        subObject_def enabledIsLabel_def db1Protected_def db1ProtectedNull_def
        ProtectionLabelBlockDeletion_def ProtectionLabelEnabled_def)

lemma runPrimaryOnly:
  "fst (RunFunction plainSDK [] (primaryOnly db1Protected)) =
     succeeded (primaryOnly db1Protected)
       [''db-1-xr-protection'' \<mapsto> usageEntry (asUnstructured (GenerateXRUsage db1Protected))]"
  "fst (RunFunction plainSDK [] (primaryOnly db1ProtectedFlag)) =
     succeeded (primaryOnly db1ProtectedFlag) Map.empty"
  by (simp_all add: RunFunction_eq [OF primaryOnly_fields] protectComposite_eq db1Protected_facts
        convert_plain_usage plain_install)

lemma convert_picky: "convertViaJSON pickySDK j = convertViaJSON plainSDK j"
  by (simp add: convertViaJSON_def pickySDK_def plainSDK_def)

lemma picky_install:
  "SetDesired_error pickySDK m =
     (if m ''m1'' = Some \<lparr>dc_Resource = inst1Enabled, dc_Ready = ''True''\<rparr>
      then Some ''rejected'' else None)"
  by (simp add: pickySDK_def plainSDK_def)

lemma inst1Enabled_differs: "inst1 \<noteq> inst1Enabled" "inst1Enabled \<noteq> inst1"
  by (simp_all add: inst1_def inst1Enabled_def)

lemma runPicky:
  "rsp_Results (fst (RunFunction pickySDK [''m1'', ''m2''] enabledDesired))
     = [(SEVERITY_FATAL, ''cannot set desired resources: rejected'')]"
  "rsp_Results (fst (RunFunction pickySDK [''m1'', ''m2''] twoMembers)) = []"
  by (simp_all add: RunFunction_eq [OF enabledDesired_fields(1-3)]
        RunFunction_eq [OF twoMembers_fields(1-3)] memberBody_eq members12 labelled
        convert_picky convert_plain_usage example_getters GetKind_usage protectComposite_eq
        picky_install inst1Enabled_differs failed_def succeeded_def Wrap_def)

text \<open>
  The response is not the same for two inputs that differ only in the enabled label when
  the label sits on a desired copy: the desired entries are handed back as they came, with
  their labels. The requests \<open>twoMembers\<close> and \<open>enabledDesired\<close> differ only in that label on
  the desired copy of \<^verbatim>\<open>m1\<close>, and so do their responses; with \<open>pickySDK\<close>, whose installing
  step refuses the one desired set and accepts the other, even the results differ. On the
  primary, an enabled label that holds neither a string nor \<^verbatim>\<open>null\<close> makes \<open>GetLabels\<close> drop
  all labels: \<open>db1Protected\<close> is protected and \<open>db1ProtectedFlag\<close>, which differs from it
  only in the enabled label, is not.
\<close>

theorem enabled_label_counterexample:
  "sameButEnabled inst1 inst1Enabled
   \<and> GetDesiredComposedResources twoMembers = Inr desired12
   \<and> GetDesiredComposedResources enabledDesired
       = Inr (desired12(''m1'' \<mapsto> \<lparr>dc_Resource = inst1Enabled, dc_Ready = ''True''\<rparr>))
   \<and> desired12 ''m1'' = Some \<lparr>dc_Resource = inst1, dc_Ready = ''True''\<rparr>
   \<and> GetObservedComposedResources enabledDesired = GetObservedComposedResources twoMembers
   \<and> GetObservedCompositeResource enabledDesired = GetObservedCompositeResource twoMembers
   \<and> fst (RunFunction plainSDK [''m1'', ''m2''] enabledDesired)
       \<noteq> fst (RunFunction plainSDK [''m1'', ''m2''] twoMembers)
   \<and> rsp_Results (fst (RunFunction pickySDK [''m1'', ''m2''] enabledDesired))
       \<noteq> rsp_Results (fst (RunFunction pickySDK [''m1'', ''m2''] twoMembers))
   \<and> sameButEnabled db1Protected db1ProtectedFlag
   \<and> rsp_Desired (fst (RunFunction plainSDK [] (primaryOnly db1ProtectedFlag)))
       \<noteq> rsp_Desired (fst (RunFunction plainSDK [] (primaryOnly db1Protected)))"
proof -
  have "fst (RunFunction plainSDK [''m1'', ''m2''] enabledDesired)
       \<noteq> fst (RunFunction plainSDK [''m1'', ''m2''] twoMembers)"
  proof
    assume "fst (RunFunction plainSDK [''m1'', ''m2''] enabledDesired)
       = fst (RunFunction plainSDK [''m1'', ''m2''] twoMembers)"
    then have "rsp_Desired (fst (RunFunction plainSDK [''m1'', ''m2''] enabledDesired))
       = rsp_Desired (fst (RunFunction plainSDK [''m1'', ''m2''] twoMembers))" by simp
    then have "(desired12
          (''m1'' \<mapsto> \<lparr>dc_Resource = inst1Enabled, dc_Ready = ''True''\<rparr>,
           ''inst-1-protection'' \<mapsto> usageEntry (asUnstructured (GenerateUsage inst1)),
           ''inst-2-protection'' \<mapsto> usageEntry (asUnstructured (GenerateUsage inst2)),
           ''db-1-xr-protection'' \<mapsto> usageEntry (asUnstructured (GenerateXRUsage db1)))) ''m1''
       = (desired12
           (''inst-1-protection'' \<mapsto> usageEntry (asUnstructured (GenerateUsage inst1)),
            ''inst-2-protection'' \<mapsto> usageEntry (asUnstructured (GenerateUsage inst2)),
            ''db-1-xr-protection'' \<mapsto> usageEntry (asUnstructured (GenerateXRUsage db1)))) ''m1''"
      unfolding runEnabledDesired run12 fst_conv succeeded_def
      by (simp only: RunFunctionResponse.simps option.inject)
    then show False by (simp add: members12 inst1_def inst1Enabled_def)
  qed
  moreover have "rsp_Desired (fst (RunFunction plainSDK [] (primaryOnly db1ProtectedFlag)))
       \<noteq> rsp_Desired (fst (RunFunction plainSDK [] (primaryOnly db1Protected)))"
  proof
    assume "rsp_Desired (fst (RunFunction plainSDK [] (primaryOnly db1ProtectedFlag)))
       = rsp_Desired (fst (RunFunction plainSDK [] (primaryOnly db1Protected)))"
    then have "Map.empty ''db-1-xr-protection''
       = [''db-1-xr-protection'' \<mapsto> usageEntry (asUnstructured (GenerateXRUsage db1Protected))]
           ''db-1-xr-protection''"
      unfolding runPrimaryOnly succeeded_def
      by (simp only: RunFunctionResponse.simps option.inject)
    then show False by simp
  qed
  ultimately show ?thesis
    by (simp add: sameButEnabled_examples enabledDesired_fields twoMembers_fields members12
          runPicky db1Protected_facts)
qed

lemma handedOver_eq:
  assumes "GetObservedCompositeResource req = Inr xr"
    and "GetObservedComposedResources req = Inr obs"
    and "GetDesiredComposedResources req = Inr des"
  shows "handedOver sdk names req =
     (case memberLoop sdk obs names (des, 0, startLog req) of
        Inl e \<Rightarrow> None
      | Inr st \<Rightarrow>
          (case protectComposite sdk (xr_Resource xr) st of
             Inl e \<Rightarrow> None
           | Inr (out, lg) \<Rightarrow> Some out))"
  using assms by (simp add: handedOver_def)

lemma RunFunction_handedOver:
  "rsp_Desired (fst (RunFunction sdk names req)) =
     (case handedOver sdk names req of
        None \<Rightarrow> None
      | Some m \<Rightarrow> (case SetDesired_error sdk m of None \<Rightarrow> Some m | Some err \<Rightarrow> None))"
  by (simp add: RunFunction_def handedOver_def startLog_def response_To_def response_Fatal_def
        SetDesiredComposedResources_def ConditionTrue_TargetCompositeAndClaim_def Let_def
        split: sum.splits option.splits prod.splits)

lemma install_alike:
  assumes run: "RunFunction sdk names req =
        (case SetDesired_error sdk out of
           Some err \<Rightarrow> (failed req (Wrap err ''cannot set desired resources''), lg)
         | None \<Rightarrow> (succeeded req out, lg))"
      "RunFunction sdk names req' =
        (case SetDesired_error sdk out' of
           Some err \<Rightarrow> (failed req' (Wrap err ''cannot set desired resources''), lg)
         | None \<Rightarrow> (succeeded req' out', lg))"
    and hand: "handedOver sdk names req = Some out" "handedOver sdk names req' = Some out'"
    and rel: "sameButEntries des des' out out'"
    and tag: "req_Tag req' = req_Tag req"
  shows "snd (RunFunction sdk names req') = snd (RunFunction sdk names req)
     \<and> rel_option (sameButEntries des des') (handedOver sdk names req) (handedOver sdk names req')
     \<and> (handedOver sdk names req = None \<longrightarrow>
          fst (RunFunction sdk names req') = fst (RunFunction sdk names req))
     \<and> ((\<forall>m m'. handedOver sdk names req = Some m \<and> handedOver sdk names req' = Some m' \<longrightarrow>
            SetDesired_error sdk m' = SetDesired_error sdk m) \<longrightarrow>
          rsp_Results (fst (RunFunction sdk names req')) = rsp_Results (fst (RunFunction sdk names req))
          \<and> rsp_Conditions (fst (RunFunction sdk names req'))
              = rsp_Conditions (fst (RunFunction sdk names req))
          \<and> rsp_Tag (fst (RunFunction sdk names req')) = rsp_Tag (fst (RunFunction sdk names req))
          \<and> rel_option (sameButEntries des des')
              (rsp_Desired (fst (RunFunction sdk names req)))
              (rsp_Desired (fst (RunFunction sdk names req'))))"
proof -
  have logs: "snd (RunFunction sdk names req') = snd (RunFunction sdk names req)"
    unfolding run by (simp split: option.splits)
  have alike: "rsp_Results (fst (RunFunction sdk names req')) = rsp_Results (fst (RunFunction sdk names req))
          \<and> rsp_Conditions (fst (RunFunction sdk names req'))
              = rsp_Conditions (fst (RunFunction sdk names req))
          \<and> rsp_Tag (fst (RunFunction sdk names req')) = rsp_Tag (fst (RunFunction sdk names req))
          \<and> rel_option (sameButEntries des des')
              (rsp_Desired (fst (RunFunction sdk names req)))
              (rsp_Desired (fst (RunFunction sdk names req')))"
    if "SetDesired_error sdk out' = SetDesired_error sdk out"
    unfolding run that using rel tag
    by (cases "SetDesired_error sdk out") (simp_all add: failed_def succeeded_def)
  from logs alike rel show ?thesis unfolding hand by simp
qed

lemma fail_alike:
  assumes run: "RunFunction sdk names req = (failed req cause, lg)"
      "RunFunction sdk names req' = (failed req' cause, lg)"
    and hand: "handedOver sdk names req = None" "handedOver sdk names req' = None"
    and tag: "req_Tag req' = req_Tag req"
  shows "snd (RunFunction sdk names req') = snd (RunFunction sdk names req)
     \<and> rel_option (sameButEntries des des') (handedOver sdk names req) (handedOver sdk names req')
     \<and> (handedOver sdk names req = None \<longrightarrow>
          fst (RunFunction sdk names req') = fst (RunFunction sdk names req))
     \<and> ((\<forall>m m'. handedOver sdk names req = Some m \<and> handedOver sdk names req' = Some m' \<longrightarrow>
            SetDesired_error sdk m' = SetDesired_error sdk m) \<longrightarrow>
          rsp_Results (fst (RunFunction sdk names req')) = rsp_Results (fst (RunFunction sdk names req))
          \<and> rsp_Conditions (fst (RunFunction sdk names req'))
              = rsp_Conditions (fst (RunFunction sdk names req))
          \<and> rsp_Tag (fst (RunFunction sdk names req')) = rsp_Tag (fst (RunFunction sdk names req))
          \<and> rel_option (sameButEntries des des')
              (rsp_Desired (fst (RunFunction sdk names req)))
              (rsp_Desired (fst (RunFunction sdk names req'))))"
  unfolding run hand using tag by (simp add: failed_def)

lemma primaryOnly_tag: "req_Tag (primaryOnly u) = ''tag''"
  by (simp add: primaryOnly_def)

lemma handed12:
  "handedOver plainSDK [''m1'', ''m2''] twoMembers =
     Some (desired12
          (''inst-1-protection'' \<mapsto> usageEntry (asUnstructured (GenerateUsage inst1)),
           ''inst-2-protection'' \<mapsto> usageEntry (asUnstructured (GenerateUsage inst2)),
           ''db-1-xr-protection'' \<mapsto> usageEntry (asUnstructured (GenerateXRUsage db1))))"
  "handedOver plainSDK [''m1'', ''m2''] enabledDesired =
     Some (desired12
          (''m1'' \<mapsto> \<lparr>dc_Resource = inst1Enabled, dc_Ready = ''True''\<rparr>,
           ''inst-1-protection'' \<mapsto> usageEntry (asUnstructured (GenerateUsage inst1)),
           ''inst-2-protection'' \<mapsto> usageEntry (asUnstructured (GenerateUsage inst2)),
           ''db-1-xr-protection'' \<mapsto> usageEntry (asUnstructured (GenerateXRUsage db1))))"
  by (simp_all add: handedOver_eq [OF twoMembers_fields(1-3)]
        handedOver_eq [OF enabledDesired_fields(1-3)] memberBody_eq members12 labelled
        convert_plain_usage example_getters GetKind_usage protectComposite_eq)

text \<open>
  Claim C8, amended. Take two invocations that reach the loop and whose primaries,
  observed copies and desired copies differ at most in the presence or the value of the
  enabled label, where the enabled label of either primary, if present, holds a string or
  \<^verbatim>\<open>null\<close>. Then the handler logs the same steps for both, so it protects the same members
  and builds the same usage records under the same keys; both invocations return before
  the installing step or neither does, with equal responses if they do; and the desired
  sets handed to the installing step hold the same entry under every key except where each
  holds its own desired copy. If the installing step answers alike for these two desired
  sets, the two responses have the same results and conditions, and their desired sets
  are related in the same way. When the desired sets of the two inputs are equal, the two
  responses are equal.
\<close>

theorem enabled_label_ignored:
  assumes req: "GetObservedCompositeResource req = Inr xr"
      "GetObservedComposedResources req = Inr obs"
      "GetDesiredComposedResources req = Inr des"
    and req': "GetObservedCompositeResource req' = Inr xr'"
      "GetObservedComposedResources req' = Inr obs'"
      "GetDesiredComposedResources req' = Inr des'"
    and tag: "req_Tag req' = req_Tag req"
    and primary: "sameButEnabled (xr_Resource xr) (xr_Resource xr')"
      "enabledIsLabel (xr_Resource xr)" "enabledIsLabel (xr_Resource xr')"
    and observed: "\<forall>n. rel_option (\<lambda>ob ob'. sameButEnabled (oc_Resource ob) (oc_Resource ob'))
                        (obs n) (obs' n)"
    and desired: "\<forall>n. rel_option (\<lambda>d d'. sameButEnabled (dc_Resource d) (dc_Resource d'))
                        (des n) (des' n)"
  shows "snd (RunFunction sdk names req') = snd (RunFunction sdk names req)
     \<and> rel_option (sameButEntries des des') (handedOver sdk names req) (handedOver sdk names req')
     \<and> (handedOver sdk names req = None \<longrightarrow>
          fst (RunFunction sdk names req') = fst (RunFunction sdk names req))
     \<and> ((\<forall>m m'. handedOver sdk names req = Some m \<and> handedOver sdk names req' = Some m' \<longrightarrow>
            SetDesired_error sdk m' = SetDesired_error sdk m) \<longrightarrow>
          rsp_Results (fst (RunFunction sdk names req')) = rsp_Results (fst (RunFunction sdk names req))
          \<and> rsp_Conditions (fst (RunFunction sdk names req'))
              = rsp_Conditions (fst (RunFunction sdk names req))
          \<and> rel_option (sameButEntries des des')
              (rsp_Desired (fst (RunFunction sdk names req)))
              (rsp_Desired (fst (RunFunction sdk names req'))))
     \<and> (des' = des \<longrightarrow> fst (RunFunction sdk names req') = fst (RunFunction sdk names req))"
proof -
  have start: "startLog req' = startLog req" using tag by (simp add: startLog_def)
  have xrs: "ProtectXR (xr_Resource xr') = ProtectXR (xr_Resource xr)"
    "GetName (xr_Resource xr') = GetName (xr_Resource xr)"
    "GenerateXRUsage (xr_Resource xr') = GenerateXRUsage (xr_Resource xr)"
    using primary
    by (simp_all add: sameButEnabled_ProtectXR sameButEnabled_getters sameButEnabled_usage)
  note run = RunFunction_eq [OF req, of sdk names] RunFunction_eq [OF req', of sdk names]
  note hand = handedOver_eq [OF req, of sdk names] handedOver_eq [OF req', of sdk names]
  from loop_enabled [OF observed desired sameButEntries_start, where sdk = sdk and names = names
      and cnt = 0 and lg = "startLog req"]
  consider (stopped) e where "memberLoop sdk obs names (des, 0, startLog req) = Inl e"
      "memberLoop sdk obs' names (des', 0, startLog req) = Inl e"
    | (finished) m m' c l where "memberLoop sdk obs names (des, 0, startLog req) = Inr (m, c, l)"
      "memberLoop sdk obs' names (des', 0, startLog req) = Inr (m', c, l)"
      "sameButEntries des des' m m'"
    by blast
  then have main: "snd (RunFunction sdk names req') = snd (RunFunction sdk names req)
     \<and> rel_option (sameButEntries des des') (handedOver sdk names req) (handedOver sdk names req')
     \<and> (handedOver sdk names req = None \<longrightarrow>
          fst (RunFunction sdk names req') = fst (RunFunction sdk names req))
     \<and> ((\<forall>m m'. handedOver sdk names req = Some m \<and> handedOver sdk names req' = Some m' \<longrightarrow>
            SetDesired_error sdk m' = SetDesired_error sdk m) \<longrightarrow>
          rsp_Results (fst (RunFunction sdk names req')) = rsp_Results (fst (RunFunction sdk names req))
          \<and> rsp_Conditions (fst (RunFunction sdk names req'))
              = rsp_Conditions (fst (RunFunction sdk names req))
          \<and> rsp_Tag (fst (RunFunction sdk names req')) = rsp_Tag (fst (RunFunction sdk names req))
          \<and> rel_option (sameButEntries des des')
              (rsp_Desired (fst (RunFunction sdk names req)))
              (rsp_Desired (fst (RunFunction sdk names req'))))"
  proof cases
    case stopped
    obtain err lg where e: "e = (err, lg)" by (cases e)
    show ?thesis
    proof (rule fail_alike [OF _ _ _ _ tag])
      show "RunFunction sdk names req
          = (failed req (Wrap err ''cannot convert usage to unstructured''), lg)"
        "RunFunction sdk names req'
          = (failed req' (Wrap err ''cannot convert usage to unstructured''), lg)"
        unfolding run start stopped e by simp_all
      show "handedOver sdk names req = None" "handedOver sdk names req' = None"
        unfolding hand start stopped by simp_all
    qed
  next
    case finished
    note l = finished(1,2) and rel = finished(3)
    show ?thesis
    proof (cases "ProtectXR (xr_Resource xr) \<or> c > 0")
      case False
      show ?thesis
      proof (rule install_alike [OF _ _ _ _ rel tag])
        show "RunFunction sdk names req =
            (case SetDesired_error sdk m of
               Some err \<Rightarrow> (failed req (Wrap err ''cannot set desired resources''), l)
             | None \<Rightarrow> (succeeded req m, l))"
          "RunFunction sdk names req' =
            (case SetDesired_error sdk m' of
               Some err \<Rightarrow> (failed req' (Wrap err ''cannot set desired resources''), l)
             | None \<Rightarrow> (succeeded req' m', l))"
          using False unfolding run start l by (simp_all add: protectComposite_eq xrs)
        show "handedOver sdk names req = Some m" "handedOver sdk names req' = Some m'"
          using False unfolding hand start l by (simp_all add: protectComposite_eq xrs)
      qed
    next
      case True
      show ?thesis
      proof (cases "convertViaJSON sdk (GenerateXRUsage (xr_Resource xr))")
        case (Inl err)
        show ?thesis
        proof (rule fail_alike [OF _ _ _ _ tag])
          show "RunFunction sdk names req
              = (failed req (Wrap err ''cannot convert usage to unstructured''),
                 l @ [Debug ''protecting Composite'' [(''name'', GetName (xr_Resource xr))]])"
            "RunFunction sdk names req'
              = (failed req' (Wrap err ''cannot convert usage to unstructured''),
                 l @ [Debug ''protecting Composite'' [(''name'', GetName (xr_Resource xr))]])"
            using True Inl unfolding run start l by (simp_all add: protectComposite_eq xrs)
          show "handedOver sdk names req = None" "handedOver sdk names req' = None"
            using True Inl unfolding hand start l by (simp_all add: protectComposite_eq xrs)
        qed
      next
        case (Inr uc)
        let ?k = "GetName (xr_Resource xr) @ ''-xr-protection''"
        let ?l = "l @ [Debug ''protecting Composite'' [(''name'', GetName (xr_Resource xr))]]"
        have rel': "sameButEntries des des' (m(?k \<mapsto> usageEntry uc)) (m'(?k \<mapsto> usageEntry uc))"
          using rel by (rule sameButEntries_upd)
        show ?thesis
        proof (rule install_alike [OF _ _ _ _ rel' tag])
          show "RunFunction sdk names req =
              (case SetDesired_error sdk (m(?k \<mapsto> usageEntry uc)) of
                 Some err \<Rightarrow> (failed req (Wrap err ''cannot set desired resources''), ?l)
               | None \<Rightarrow> (succeeded req (m(?k \<mapsto> usageEntry uc)), ?l))"
            "RunFunction sdk names req' =
              (case SetDesired_error sdk (m'(?k \<mapsto> usageEntry uc)) of
                 Some err \<Rightarrow> (failed req' (Wrap err ''cannot set desired resources''), ?l)
               | None \<Rightarrow> (succeeded req' (m'(?k \<mapsto> usageEntry uc)), ?l))"
            using True Inr unfolding run start l by (simp_all add: protectComposite_eq xrs)
          show "handedOver sdk names req = Some (m(?k \<mapsto> usageEntry uc))"
            "handedOver sdk names req' = Some (m'(?k \<mapsto> usageEntry uc))"
            using True Inr unfolding hand start l by (simp_all add: protectComposite_eq xrs)
        qed
      qed
    qed
  qed
  moreover have "fst (RunFunction sdk names req') = fst (RunFunction sdk names req)" if "des' = des"
  proof -
    from main that have "rel_option (sameButEntries des des)
        (handedOver sdk names req) (handedOver sdk names req')" by simp
    then have same: "handedOver sdk names req' = handedOver sdk names req"
      by (cases "handedOver sdk names req"; cases "handedOver sdk names req'")
         (auto dest: sameButEntries_same)
    then have "\<forall>m m'. handedOver sdk names req = Some m \<and> handedOver sdk names req' = Some m' \<longrightarrow>
            SetDesired_error sdk m' = SetDesired_error sdk m" by auto
    with main have alike: "rsp_Results (fst (RunFunction sdk names req')) = rsp_Results (fst (RunFunction sdk names req))"
      "rsp_Conditions (fst (RunFunction sdk names req'))
              = rsp_Conditions (fst (RunFunction sdk names req))"
      "rsp_Tag (fst (RunFunction sdk names req')) = rsp_Tag (fst (RunFunction sdk names req))"
      by blast+
    have "rsp_Desired (fst (RunFunction sdk names req'))
        = rsp_Desired (fst (RunFunction sdk names req))"
      unfolding RunFunction_handedOver same ..
    with alike show ?thesis by (intro RunFunctionResponse.equality) simp_all
  qed
  ultimately show ?thesis by blast
qed

theorem enabled_label_ignored_witness:
  "snd (RunFunction plainSDK [''m1'', ''m2''] enabledDesired)
     = snd (RunFunction plainSDK [''m1'', ''m2''] twoMembers)
   \<and> rsp_Results (fst (RunFunction plainSDK [''m1'', ''m2''] enabledDesired))
     = rsp_Results (fst (RunFunction plainSDK [''m1'', ''m2''] twoMembers))
   \<and> rsp_Conditions (fst (RunFunction plainSDK [''m1'', ''m2''] enabledDesired))
     = rsp_Conditions (fst (RunFunction plainSDK [''m1'', ''m2''] twoMembers))
   \<and> rel_option
       (sameButEntries desired12
          (desired12(''m1'' \<mapsto> \<lparr>dc_Resource = inst1Enabled, dc_Ready = ''True''\<rparr>)))
       (rsp_Desired (fst (RunFunction plainSDK [''m1'', ''m2''] twoMembers)))
       (rsp_Desired (fst (RunFunction plainSDK [''m1'', ''m2''] enabledDesired)))
   \<and> handedOver plainSDK [''m1'', ''m2''] twoMembers =
       Some (desired12
          (''inst-1-protection'' \<mapsto> usageEntry (asUnstructured (GenerateUsage inst1)),
           ''inst-2-protection'' \<mapsto> usageEntry (asUnstructured (GenerateUsage inst2)),
           ''db-1-xr-protection'' \<mapsto> usageEntry (asUnstructured (GenerateXRUsage db1))))
   \<and> handedOver plainSDK [''m1'', ''m2''] enabledDesired =
       Some (desired12
          (''m1'' \<mapsto> \<lparr>dc_Resource = inst1Enabled, dc_Ready = ''True''\<rparr>,
           ''inst-1-protection'' \<mapsto> usageEntry (asUnstructured (GenerateUsage inst1)),
           ''inst-2-protection'' \<mapsto> usageEntry (asUnstructured (GenerateUsage inst2)),
           ''db-1-xr-protection'' \<mapsto> usageEntry (asUnstructured (GenerateXRUsage db1))))
   \<and> fst (RunFunction plainSDK [''m1'', ''m2''] enabledObserved)
     = fst (RunFunction plainSDK [''m1'', ''m2''] twoMembers)
   \<and> fst (RunFunction plainSDK [] (primaryOnly db1ProtectedNull))
     = fst (RunFunction plainSDK [] (primaryOnly db1Protected))"
proof -
  have same12: "\<forall>n. rel_option (\<lambda>ob ob'. sameButEnabled (oc_Resource ob) (oc_Resource ob'))
      (observed12 n) (observed12 n)"
    "\<forall>n. rel_option (\<lambda>d d'. sameButEnabled (dc_Resource d) (dc_Resource d'))
      (desired12 n) (desired12 n)"
    by (simp_all add: option.rel_refl sameButEnabled_refl)
  have desired: "\<forall>n. rel_option (\<lambda>d d'. sameButEnabled (dc_Resource d) (dc_Resource d'))
      (desired12 n)
      ((desired12(''m1'' \<mapsto> \<lparr>dc_Resource = inst1Enabled, dc_Ready = ''True''\<rparr>)) n)"
    by (simp add: members12 sameButEnabled_examples option.rel_refl sameButEnabled_refl)
  have observed: "\<forall>n. rel_option (\<lambda>ob ob'. sameButEnabled (oc_Resource ob) (oc_Resource ob'))
      (observed12 n)
      ((observed12(''m1'' \<mapsto> \<lparr>oc_Resource = inst1Enabled, oc_ConnectionDetails = []\<rparr>)) n)"
    by (simp add: members12 sameButEnabled_examples option.rel_refl sameButEnabled_refl)
  have none: "\<forall>n. rel_option (\<lambda>ob ob'. sameButEnabled (oc_Resource ob) (oc_Resource ob'))
      ((Map.empty :: observed_set) n) ((Map.empty :: observed_set) n)"
    "\<forall>n. rel_option (\<lambda>d d'. sameButEnabled (dc_Resource d) (dc_Resource d'))
      ((Map.empty :: desired_set) n) ((Map.empty :: desired_set) n)"
    by simp_all
  have install: "\<forall>m m'. handedOver plainSDK [''m1'', ''m2''] twoMembers = Some m \<and>
      handedOver plainSDK [''m1'', ''m2''] enabledDesired = Some m' \<longrightarrow>
      SetDesired_error plainSDK m' = SetDesired_error plainSDK m"
    by (simp add: plain_install)
  have plainPrimary: "sameButEnabled
        (xr_Resource \<lparr>xr_Resource = db1, xr_ConnectionDetails = []\<rparr>)
        (xr_Resource \<lparr>xr_Resource = db1, xr_ConnectionDetails = []\<rparr>)"
      "enabledIsLabel (xr_Resource \<lparr>xr_Resource = db1, xr_ConnectionDetails = []\<rparr>)"
    by (simp_all add: sameButEnabled_refl enabledIsLabel_examples)
  have enabledPrimary: "sameButEnabled
        (xr_Resource \<lparr>xr_Resource = db1, xr_ConnectionDetails = []\<rparr>)
        (xr_Resource \<lparr>xr_Resource = db1Enabled, xr_ConnectionDetails = []\<rparr>)"
      "enabledIsLabel (xr_Resource \<lparr>xr_Resource = db1Enabled, xr_ConnectionDetails = []\<rparr>)"
    by (simp_all add: sameButEnabled_examples enabledIsLabel_examples)
  have nullPrimary: "sameButEnabled
        (xr_Resource \<lparr>xr_Resource = db1Protected, xr_ConnectionDetails = []\<rparr>)
        (xr_Resource \<lparr>xr_Resource = db1ProtectedNull, xr_ConnectionDetails = []\<rparr>)"
      "enabledIsLabel (xr_Resource \<lparr>xr_Resource = db1Protected, xr_ConnectionDetails = []\<rparr>)"
      "enabledIsLabel (xr_Resource \<lparr>xr_Resource = db1ProtectedNull, xr_ConnectionDetails = []\<rparr>)"
    by (simp_all add: db1Protected_facts db1ProtectedNull_facts)
  note onDesired = enabled_label_ignored [OF twoMembers_fields(1-3) enabledDesired_fields(1-3) _
      plainPrimary(1) plainPrimary(2) plainPrimary(2) same12(1) desired,
      where sdk = plainSDK and names = "[''m1'', ''m2'']"]
  note onObserved = enabled_label_ignored [OF twoMembers_fields(1-3) enabledObserved_fields(1-3) _
      enabledPrimary(1) plainPrimary(2) enabledPrimary(2) observed same12(2),
      where sdk = plainSDK and names = "[''m1'', ''m2'']"]
  note onPrimary = enabled_label_ignored [OF primaryOnly_fields primaryOnly_fields _
      nullPrimary none, where sdk = plainSDK and names = "[]"]
  have tags: "req_Tag enabledDesired = req_Tag twoMembers"
    "req_Tag enabledObserved = req_Tag twoMembers"
    "req_Tag (primaryOnly db1ProtectedNull) = req_Tag (primaryOnly db1Protected)"
    by (simp_all add: twoMembers_fields enabledDesired_fields enabledObserved_fields primaryOnly_tag)
  have logs: "snd (RunFunction plainSDK [''m1'', ''m2''] enabledDesired)
     = snd (RunFunction plainSDK [''m1'', ''m2''] twoMembers)"
    using onDesired [OF tags(1)] by (rule conjunct1)
  have alike: "rsp_Results (fst (RunFunction plainSDK [''m1'', ''m2''] enabledDesired))
       = rsp_Results (fst (RunFunction plainSDK [''m1'', ''m2''] twoMembers))
     \<and> rsp_Conditions (fst (RunFunction plainSDK [''m1'', ''m2''] enabledDesired))
       = rsp_Conditions (fst (RunFunction plainSDK [''m1'', ''m2''] twoMembers))
     \<and> rel_option
       (sameButEntries desired12
          (desired12(''m1'' \<mapsto> \<lparr>dc_Resource = inst1Enabled, dc_Ready = ''True''\<rparr>)))
       (rsp_Desired (fst (RunFunction plainSDK [''m1'', ''m2''] twoMembers)))
       (rsp_Desired (fst (RunFunction plainSDK [''m1'', ''m2''] enabledDesired)))"
    using onDesired [OF tags(1), THEN conjunct2, THEN conjunct2, THEN conjunct2, THEN conjunct1,
        THEN mp, OF install] .
  have obs: "fst (RunFunction plainSDK [''m1'', ''m2''] enabledObserved)
     = fst (RunFunction plainSDK [''m1'', ''m2''] twoMembers)"
    using onObserved [OF tags(2), THEN conjunct2, THEN conjunct2, THEN conjunct2, THEN conjunct2,
        THEN mp, OF refl] .
  have prim: "fst (RunFunction plainSDK [] (primaryOnly db1ProtectedNull))
     = fst (RunFunction plainSDK [] (primaryOnly db1Protected))"
    using onPrimary [OF tags(3), THEN conjunct2, THEN conjunct2, THEN conjunct2, THEN conjunct2,
        THEN mp, OF refl] .
  from logs alike handed12 obs prim show ?thesis by (intro conjI) simp_all
qed

end
